(* ===== verification/Prelude.thy ===== *)
theory Prelude
  imports Complex_Main "HOL-Library.Word" "HOL-Library.AList" "HOL-Library.Monad_Syntax"
begin

text \<open>
  Shared vocabulary of the development: C strings and byte buffers as lists of
  bytes, little-endian integers, the string functions of the C library that the
  daemon calls (\<^verbatim>\<open>strcasecmp\<close>, \<^verbatim>\<open>strncasecmp\<close>, \<^verbatim>\<open>strlcpy\<close>, \<^verbatim>\<open>strlcat\<close>, \<^verbatim>\<open>atoi\<close>,
  \<^verbatim>\<open>atoll\<close>), association lists for Core Foundation dictionaries, and the iteration
  helper all container iterators of the sources share.

  A \<^verbatim>\<open>char\<close> of HOL is a byte.  A buffer is a \<^typ>\<open>string\<close> whose length is its
  allocated size; a C string is the part of a buffer before its first NUL.
\<close>

unbundle bit_operations_syntax

named_theorems heap_simps \<open>lookups in the item store after an operation\<close>
named_theorems codec_simps \<open>encodings of scalars as bytes and back\<close>
named_theorems flag_simps \<open>bit masks and flag tests\<close>

section \<open>Bytes and C strings\<close>

abbreviation NUL :: char where
  "NUL \<equiv> CHR 0x00"

definition cstr :: "string \<Rightarrow> string" where
  "cstr buf = takeWhile (\<lambda>c. c \<noteq> NUL) buf"

lemma cstr_append_NUL [simp]: "NUL \<notin> set s \<Longrightarrow> cstr (s @ NUL # rest) = s"
  unfolding cstr_def by (induction s) auto

lemma cstr_no_NUL: "NUL \<notin> set s \<Longrightarrow> cstr s = s"
  unfolding cstr_def by (simp add: takeWhile_eq_all_conv) (metis)

lemma NUL_notin_cstr [simp]: "NUL \<notin> set (cstr s)"
  unfolding cstr_def by (auto dest: set_takeWhileD)

lemma length_cstr_le: "length (cstr s) \<le> length s"
  unfolding cstr_def by (rule length_takeWhile_le)

definition to_lower :: "char \<Rightarrow> char" where
  "to_lower c = (let n = (of_char c :: nat) in if 65 \<le> n \<and> n \<le> 90 then char_of (n + 32) else c)"

text \<open>\<^verbatim>\<open>strcasecmp(a, b) == 0\<close> and \<^verbatim>\<open>strncasecmp(a, b, n) == 0\<close> in the C locale.  The
  comparison of a prefix includes the terminating NUL when it is reached.\<close>

definition strcase_eq :: "string \<Rightarrow> string \<Rightarrow> bool" where
  "strcase_eq a b \<longleftrightarrow> map to_lower a = map to_lower b"

definition strncase_eq :: "string \<Rightarrow> string \<Rightarrow> nat \<Rightarrow> bool" where
  "strncase_eq a b n \<longleftrightarrow> take n (map to_lower a @ [NUL]) = take n (map to_lower b @ [NUL])"

definition strn_eq :: "string \<Rightarrow> string \<Rightarrow> nat \<Rightarrow> bool" where
  "strn_eq a b n \<longleftrightarrow> take n (a @ [NUL]) = take n (b @ [NUL])"

lemma strcase_eq_refl [simp]: "strcase_eq a a"
  by (simp add: strcase_eq_def)

lemma strcase_eq_sym: "strcase_eq a b \<longleftrightarrow> strcase_eq b a"
  by (auto simp: strcase_eq_def)

lemma strcase_eq_trans: "strcase_eq a b \<Longrightarrow> strcase_eq b c \<Longrightarrow> strcase_eq a c"
  by (simp add: strcase_eq_def)

lemma strcase_eq_length: "strcase_eq a b \<Longrightarrow> length a = length b"
  unfolding strcase_eq_def by (metis length_map)

text \<open>\<^verbatim>\<open>strlcpy\<close> and \<^verbatim>\<open>strlcat\<close> into a buffer of \<^term>\<open>n\<close> bytes, on the C strings they
  leave: the copy is truncated so that the NUL fits.\<close>

definition strlcpy :: "string \<Rightarrow> nat \<Rightarrow> string" where
  "strlcpy src n = take (n - 1) src"

definition strlcat :: "string \<Rightarrow> string \<Rightarrow> nat \<Rightarrow> string" where
  "strlcat dst src n = (if length dst < n then dst @ take (n - 1 - length dst) src else dst)"

lemma strlcat_fits: "length dst + length src < n \<Longrightarrow> strlcat dst src n = dst @ src"
  by (simp add: strlcat_def)

lemma strlcpy_fits: "length src < n \<Longrightarrow> strlcpy src n = src"
  by (simp add: strlcpy_def)

lemma length_strlcat_le: "length dst < n \<Longrightarrow> length (strlcat dst src n) < n"
  by (simp add: strlcat_def)

section \<open>Little-endian integers\<close>

primrec le_bytes :: "nat \<Rightarrow> nat \<Rightarrow> string" where
  "le_bytes 0 x = []"
| "le_bytes (Suc n) x = char_of (x mod 256) # le_bytes n (x div 256)"

primrec le_val :: "string \<Rightarrow> nat" where
  "le_val [] = 0"
| "le_val (c # cs) = of_char c + 256 * le_val cs"

lemma length_le_bytes [simp, codec_simps]: "length (le_bytes n x) = n"
  by (induction n arbitrary: x) auto

lemma le_val_le_bytes [simp, codec_simps]: "le_val (le_bytes n x) = x mod 256 ^ n"
proof (induction n arbitrary: x)
  case 0
  then show ?case by simp
next
  case (Suc n)
  have "x mod 256 ^ Suc n = x mod 256 + 256 * (x div 256 mod 256 ^ n)"
    by (metis add.commute mod_mult2_eq mult.commute power_Suc)
  with Suc show ?case by simp
qed

lemma le_bytes_le_val [simp, codec_simps]: "le_bytes (length bs) (le_val bs) = bs"
  by (induction bs) auto

lemma le_val_bound: "le_val bs < 256 ^ length bs"
proof (induction bs)
  case Nil
  then show ?case by simp
next
  case (Cons c bs)
  have "(of_char c :: nat) \<le> 255"
    using nat_of_char_less_256 [of c] by linarith
  with Cons show ?case by simp
qed

lemma le_bytes_inject: "x < 256 ^ n \<Longrightarrow> y < 256 ^ n \<Longrightarrow> le_bytes n x = le_bytes n y \<longleftrightarrow> x = y"
  by (metis le_val_le_bytes mod_less)

section \<open>Numbers in strings\<close>

definition is_space :: "char \<Rightarrow> bool" where
  "is_space c \<longleftrightarrow> c = CHR '' '' \<or> (9 \<le> (of_char c :: nat) \<and> (of_char c :: nat) \<le> 13)"

definition is_digit :: "char \<Rightarrow> bool" where
  "is_digit c \<longleftrightarrow> 48 \<le> (of_char c :: nat) \<and> (of_char c :: nat) \<le> 57"

definition digits_val :: "string \<Rightarrow> int" where
  "digits_val ds = foldl (\<lambda>acc c. 10 * acc + (int (of_char c) - 48)) 0 ds"

text \<open>\<^verbatim>\<open>strtol\<close> and \<^verbatim>\<open>strtoll\<close> in base 10 on a 64-bit system: blanks, a sign, the longest run of
  digits, saturation at the ends of the 64-bit range.\<close>

definition strtoll :: "string \<Rightarrow> int" where
  "strtoll s = (let t = dropWhile is_space s;
                    (neg, u) = (case t of c # cs \<Rightarrow> if c = CHR ''-'' then (True, cs)
                                                   else if c = CHR ''+'' then (False, cs) else (False, t)
                                | [] \<Rightarrow> (False, []));
                    v = digits_val (takeWhile is_digit u);
                    w = (if neg then - v else v)
                in max (- (2 ^ 63)) (min (2 ^ 63 - 1) w))"

definition atoll :: "string \<Rightarrow> 64 word" where
  "atoll s = word_of_int (strtoll s)"

definition atoi :: "string \<Rightarrow> 32 word" where
  "atoi s = word_of_int (strtoll s)"

section \<open>Dictionaries and iteration\<close>

type_synonym ('k, 'v) dict = "('k \<times> 'v) list"

text \<open>Every container iterator of the sources (\<^verbatim>\<open>_cf_set_iterate\<close>, \<^verbatim>\<open>_cf_bag_iterate\<close>,
  \<^verbatim>\<open>_cf_dictionary_iterate\<close>, \<^verbatim>\<open>auth_items_iterate\<close>, \<^verbatim>\<open>auth_rights_iterate\<close>) takes a snapshot of the
  values, calls a block on each until one returns false, and returns the last answer.\<close>

fun cf_iterate :: "('a \<Rightarrow> 's \<Rightarrow> bool \<times> 's) \<Rightarrow> 'a list \<Rightarrow> bool \<Rightarrow> 's \<Rightarrow> bool \<times> 's" where
  "cf_iterate iter [] result s = (result, s)"
| "cf_iterate iter (x # xs) result s =
     (case iter x s of (b, s') \<Rightarrow> if b then cf_iterate iter xs True s' else (False, s'))"

lemma cf_iterate_all:
  assumes "\<And>x s. fst (iter x s)"
  shows "snd (cf_iterate iter xs b s) = fold (\<lambda>x s. snd (iter x s)) xs s"
proof (induction xs arbitrary: b s)
  case Nil
  then show ?case by simp
next
  case (Cons x xs)
  show ?case
    using assms [of x s] Cons by (cases "iter x s") simp
qed

lemma cf_iterate_find:
  "snd (cf_iterate (\<lambda>x s. if P x then (False, True) else (True, s)) xs b False) \<longleftrightarrow> (\<exists>x\<in>set xs. P x)"
  by (induction xs arbitrary: b) auto

lemma map_of_delete [simp, heap_simps]: "map_of (AList.delete k al) = (map_of al)(k := None)"
  by (rule delete_conv')

lemma map_of_update [simp, heap_simps]: "map_of (AList.update k v al) = (map_of al)(k \<mapsto> v)"
  by (rule update_conv')

section \<open>Flags\<close>

lemma and_or_not_eq [flag_simps]: "(x OR f) AND f = (f :: 'a::len word)"
  by (rule bit_word_eqI) (auto simp: bit_simps)

lemma and_not_self [flag_simps]: "(x AND NOT f) AND f = (0 :: 'a::len word)"
  by (rule bit_word_eqI) (auto simp: bit_simps)

lemma ucast_64_32 [simp, codec_simps]: "(ucast (ucast w :: 64 word) :: 32 word) = w"
  by (rule bit_word_eqI) (auto simp: bit_simps)

end
