(* ===== verification/Auth_Util.thy ===== *)
theory Auth_Util
  imports Prelude
begin

text \<open>
  The utilities of \<^verbatim>\<open>src/OSX/authd/authutilities.c\<close>: values of Core Foundation property lists and
  their typed readers, XPC message values and their getters, the comparison of optional C strings,
  and the wire form of the client's \<^verbatim>\<open>AuthorizationItemSet\<close>.

  A C pointer that may be NULL is an option.  XPC and Core Foundation are system libraries: their
  values are datatypes, their getters the documented total functions (the default of a missing or
  ill-typed entry is NULL, 0, false).  Allocation does not fail.
\<close>

section \<open>Property lists\<close>

datatype cf =
    CF_String string
  | CF_Int "64 word"
  | CF_Real real
  | CF_Bool bool
  | CF_Data string
  | CF_Array "cf list"
  | CF_Dict "(string \<times> cf) list"

text \<open>\<^verbatim>\<open>_copy_cf_string\<close>: the C string of a CFString.  The default is copied into a buffer of its own
  length without room for the NUL, so its last character is cut.\<close>

definition copy_cf_string :: "cf option \<Rightarrow> string option \<Rightarrow> string option" where
  "copy_cf_string str defaultValue =
     (case str of
        Some (CF_String s) \<Rightarrow> Some (cstr s)
      | _ \<Rightarrow> (case defaultValue of None \<Rightarrow> None | Some d \<Rightarrow> Some (strlcpy d (length d))))"

definition get_cf_int :: "cf option \<Rightarrow> 64 word \<Rightarrow> 64 word" where
  "get_cf_int num defaultValue =
     (case num of
        Some (CF_Int i) \<Rightarrow> i
      | Some (CF_Real r) \<Rightarrow>
          (if of_int \<lfloor>r\<rfloor> = r \<and> - (2 ^ 63) \<le> \<lfloor>r\<rfloor> \<and> \<lfloor>r\<rfloor> < 2 ^ 63 then word_of_int \<lfloor>r\<rfloor> else defaultValue)
      | _ \<Rightarrow> defaultValue)"

definition get_cf_bool :: "cf option \<Rightarrow> bool \<Rightarrow> bool" where
  "get_cf_bool b defaultValue = (case b of Some (CF_Bool v) \<Rightarrow> v | _ \<Rightarrow> defaultValue)"

text \<open>\<^verbatim>\<open>_compare_string\<close>: both NULL, or both present and equal up to case.\<close>

definition compare_string :: "string option \<Rightarrow> string option \<Rightarrow> bool" where
  "compare_string str1 str2 =
     (case (str1, str2) of
        (None, None) \<Rightarrow> True
      | (Some a, Some b) \<Rightarrow> strcase_eq a b
      | _ \<Rightarrow> False)"

lemma compare_string_refl [simp]: "compare_string a a"
  by (cases a) (simp_all add: compare_string_def)

lemma compare_string_sym: "compare_string a b \<longleftrightarrow> compare_string b a"
  by (auto simp: compare_string_def strcase_eq_sym split: option.splits)

lemma compare_string_trans: "compare_string a b \<Longrightarrow> compare_string b c \<Longrightarrow> compare_string a c"
  by (auto simp: compare_string_def split: option.splits elim: strcase_eq_trans)

lemma compare_string_simps [simp]:
  "compare_string None (Some b) \<longleftrightarrow> False"
  "compare_string (Some a) None \<longleftrightarrow> False"
  "compare_string (Some a) (Some b) \<longleftrightarrow> strcase_eq a b"
  by (simp_all add: compare_string_def)

section \<open>XPC values\<close>

datatype xpc =
    XPC_Null
  | XPC_Bool bool
  | XPC_Int64 "64 word"
  | XPC_Uint64 "64 word"
  | XPC_String string
  | XPC_Data string
  | XPC_Array "xpc list"
  | XPC_Dict "(string \<times> xpc) list"

fun xpc_dictionary_get_value :: "xpc \<Rightarrow> string \<Rightarrow> xpc option" where
  "xpc_dictionary_get_value (XPC_Dict d) key = map_of d key"
| "xpc_dictionary_get_value _ key = None"

definition xpc_dictionary_get_string :: "xpc \<Rightarrow> string \<Rightarrow> string option" where
  "xpc_dictionary_get_string d key =
     (case xpc_dictionary_get_value d key of Some (XPC_String s) \<Rightarrow> Some s | _ \<Rightarrow> None)"

definition xpc_dictionary_get_uint64 :: "xpc \<Rightarrow> string \<Rightarrow> 64 word" where
  "xpc_dictionary_get_uint64 d key =
     (case xpc_dictionary_get_value d key of Some (XPC_Uint64 u) \<Rightarrow> u | _ \<Rightarrow> 0)"

definition xpc_dictionary_get_bool :: "xpc \<Rightarrow> string \<Rightarrow> bool" where
  "xpc_dictionary_get_bool d key =
     (case xpc_dictionary_get_value d key of Some (XPC_Bool b) \<Rightarrow> b | _ \<Rightarrow> False)"

definition xpc_dictionary_get_data :: "xpc \<Rightarrow> string \<Rightarrow> string option" where
  "xpc_dictionary_get_data d key =
     (case xpc_dictionary_get_value d key of Some (XPC_Data b) \<Rightarrow> Some b | _ \<Rightarrow> None)"

fun xpc_dictionary_set :: "xpc \<Rightarrow> string \<Rightarrow> xpc \<Rightarrow> xpc" where
  "xpc_dictionary_set (XPC_Dict d) key v = XPC_Dict (AList.update key v d)"
| "xpc_dictionary_set x key v = x"

fun xpc_is_dict :: "xpc \<Rightarrow> bool" where
  "xpc_is_dict (XPC_Dict d) = True"
| "xpc_is_dict _ = False"

lemma xpc_get_set [simp]:
  "xpc_is_dict d \<Longrightarrow> xpc_dictionary_get_value (xpc_dictionary_set d key v) key' =
     (if key' = key then Some v else xpc_dictionary_get_value d key')"
  by (cases d) auto

lemma xpc_is_dict_set [simp]: "xpc_is_dict (xpc_dictionary_set d key v) = xpc_is_dict d"
  by (cases d) auto

definition AUTH_XPC_ITEM_NAME :: string where "AUTH_XPC_ITEM_NAME = ''_item_name''"
definition AUTH_XPC_ITEM_FLAGS :: string where "AUTH_XPC_ITEM_FLAGS = ''_item_flags''"
definition AUTH_XPC_ITEM_VALUE :: string where "AUTH_XPC_ITEM_VALUE = ''_item_value''"
definition AUTH_XPC_ITEM_TYPE :: string where "AUTH_XPC_ITEM_TYPE = ''_item_type''"
definition AUTH_XPC_ITEM_SENSITIVE_VALUE_LENGTH :: string where
  "AUTH_XPC_ITEM_SENSITIVE_VALUE_LENGTH = ''_item_sensitive_value_length''"

lemmas auth_xpc_keys = AUTH_XPC_ITEM_NAME_def AUTH_XPC_ITEM_FLAGS_def AUTH_XPC_ITEM_VALUE_def
  AUTH_XPC_ITEM_TYPE_def AUTH_XPC_ITEM_SENSITIVE_VALUE_LENGTH_def

lemma auth_xpc_keys_distinct [simp]:
  "AUTH_XPC_ITEM_NAME \<noteq> AUTH_XPC_ITEM_FLAGS" "AUTH_XPC_ITEM_NAME \<noteq> AUTH_XPC_ITEM_VALUE"
  "AUTH_XPC_ITEM_NAME \<noteq> AUTH_XPC_ITEM_TYPE" "AUTH_XPC_ITEM_NAME \<noteq> AUTH_XPC_ITEM_SENSITIVE_VALUE_LENGTH"
  "AUTH_XPC_ITEM_FLAGS \<noteq> AUTH_XPC_ITEM_NAME" "AUTH_XPC_ITEM_FLAGS \<noteq> AUTH_XPC_ITEM_VALUE"
  "AUTH_XPC_ITEM_FLAGS \<noteq> AUTH_XPC_ITEM_TYPE" "AUTH_XPC_ITEM_FLAGS \<noteq> AUTH_XPC_ITEM_SENSITIVE_VALUE_LENGTH"
  "AUTH_XPC_ITEM_VALUE \<noteq> AUTH_XPC_ITEM_NAME" "AUTH_XPC_ITEM_VALUE \<noteq> AUTH_XPC_ITEM_FLAGS"
  "AUTH_XPC_ITEM_VALUE \<noteq> AUTH_XPC_ITEM_TYPE" "AUTH_XPC_ITEM_VALUE \<noteq> AUTH_XPC_ITEM_SENSITIVE_VALUE_LENGTH"
  "AUTH_XPC_ITEM_TYPE \<noteq> AUTH_XPC_ITEM_NAME" "AUTH_XPC_ITEM_TYPE \<noteq> AUTH_XPC_ITEM_FLAGS"
  "AUTH_XPC_ITEM_TYPE \<noteq> AUTH_XPC_ITEM_VALUE" "AUTH_XPC_ITEM_TYPE \<noteq> AUTH_XPC_ITEM_SENSITIVE_VALUE_LENGTH"
  "AUTH_XPC_ITEM_SENSITIVE_VALUE_LENGTH \<noteq> AUTH_XPC_ITEM_NAME"
  "AUTH_XPC_ITEM_SENSITIVE_VALUE_LENGTH \<noteq> AUTH_XPC_ITEM_FLAGS"
  "AUTH_XPC_ITEM_SENSITIVE_VALUE_LENGTH \<noteq> AUTH_XPC_ITEM_VALUE"
  "AUTH_XPC_ITEM_SENSITIVE_VALUE_LENGTH \<noteq> AUTH_XPC_ITEM_TYPE"
  by (simp_all add: auth_xpc_keys)

section \<open>The client's item sets\<close>

text \<open>\<^verbatim>\<open>AuthorizationItem\<close> of the public API: the value pointer and its length are separate.\<close>

record AuthorizationItem =
  it_name :: "string option"
  it_valueLength :: nat
  it_data :: "string option"
  it_flags :: "32 word"

definition serialize_item :: "AuthorizationItem \<Rightarrow> xpc list" where
  "serialize_item item =
     (case it_name item of
        None \<Rightarrow> []
      | Some name \<Rightarrow>
          [xpc_dictionary_set
             (xpc_dictionary_set
               (xpc_dictionary_set (XPC_Dict []) AUTH_XPC_ITEM_NAME (XPC_String name))
               AUTH_XPC_ITEM_FLAGS (XPC_Uint64 (ucast (it_flags item))))
             AUTH_XPC_ITEM_VALUE
             (XPC_Data (case it_data item of None \<Rightarrow> [] | Some v \<Rightarrow> take (it_valueLength item) v))])"

definition SerializeItemSet :: "AuthorizationItem list option \<Rightarrow> xpc option" where
  "SerializeItemSet itemSet =
     (case itemSet of
        None \<Rightarrow> None
      | Some [] \<Rightarrow> None
      | Some items \<Rightarrow> Some (XPC_Array (concat (map serialize_item items))))"

definition empty_item :: AuthorizationItem where
  "empty_item = \<lparr> it_name = None, it_valueLength = 0, it_data = None, it_flags = 0 \<rparr>"

text \<open>One entry of the array: the item it fills and the message entry it leaves.  A sensitive value
  is cut to its declared length and that many bytes of the message are overwritten with zero; a
  declared length that exceeds the data leaves the item without a value.\<close>

definition deserialize_item :: "xpc \<Rightarrow> AuthorizationItem \<times> xpc" where
  "deserialize_item v =
     (if \<not> xpc_is_dict v then (empty_item, v)
      else let item = empty_item\<lparr> it_name := xpc_dictionary_get_string v AUTH_XPC_ITEM_NAME,
                                   it_flags := ucast (xpc_dictionary_get_uint64 v AUTH_XPC_ITEM_FLAGS) \<rparr>;
               bytes = (case xpc_dictionary_get_data v AUTH_XPC_ITEM_VALUE of None \<Rightarrow> [] | Some b \<Rightarrow> b)
           in if xpc_dictionary_get_value v AUTH_XPC_ITEM_SENSITIVE_VALUE_LENGTH \<noteq> None then
                let n = unat (xpc_dictionary_get_uint64 v AUTH_XPC_ITEM_SENSITIVE_VALUE_LENGTH)
                in if length bytes < n then (item, v)
                   else (item\<lparr> it_valueLength := n, it_data := (if n = 0 then None else Some (take n bytes)) \<rparr>,
                         if xpc_dictionary_get_data v AUTH_XPC_ITEM_VALUE = None then v
                         else xpc_dictionary_set v AUTH_XPC_ITEM_VALUE (XPC_Data (replicate n NUL @ drop n bytes)))
              else (item\<lparr> it_valueLength := length bytes,
                          it_data := (if bytes = [] then None else Some bytes) \<rparr>, v))"

definition DeserializeItemSet :: "xpc option \<Rightarrow> AuthorizationItem list option \<times> xpc option" where
  "DeserializeItemSet data =
     (case data of
        Some (XPC_Array vs) \<Rightarrow>
          (Some (map (fst \<circ> deserialize_item) vs), Some (XPC_Array (map (snd \<circ> deserialize_item) vs)))
      | _ \<Rightarrow> (None, data))"

definition item_canonical :: "AuthorizationItem \<Rightarrow> bool" where
  "item_canonical item \<longleftrightarrow> it_name item \<noteq> None \<and>
     (case it_data item of None \<Rightarrow> it_valueLength item = 0
                         | Some v \<Rightarrow> v \<noteq> [] \<and> it_valueLength item = length v)"

lemma deserialize_serialize_item:
  assumes "item_canonical item"
  shows "map (fst \<circ> deserialize_item) (serialize_item item) = [item]"
proof -
  obtain name where name: "it_name item = Some name"
    using assms by (auto simp: item_canonical_def)
  show ?thesis
    using assms name
    by (cases "it_data item"; cases item)
       (auto simp: item_canonical_def serialize_item_def deserialize_item_def empty_item_def
         xpc_dictionary_get_string_def xpc_dictionary_get_uint64_def xpc_dictionary_get_data_def
         Let_def)
qed

text \<open>C37. A client's item set survives the trip through its XPC form: for a non-empty set of named
  items whose lengths match their values, the deserialised set is the one that was serialised.\<close>

theorem DeserializeItemSet_SerializeItemSet:
  assumes "items \<noteq> []" "\<forall>item\<in>set items. item_canonical item"
  shows "fst (DeserializeItemSet (SerializeItemSet (Some items))) = Some items"
proof -
  have "map (fst \<circ> deserialize_item) (concat (map serialize_item items)) = items"
    using assms(2) by (induction items) (auto dest: deserialize_serialize_item simp del: map_map)
  then have "fst (DeserializeItemSet (Some (XPC_Array (concat (map serialize_item items))))) = Some items"
    by (simp add: DeserializeItemSet_def)
  moreover have "SerializeItemSet (Some items) = Some (XPC_Array (concat (map serialize_item items)))"
    using assms(1) by (cases items) (simp_all add: SerializeItemSet_def)
  ultimately show ?thesis by simp
qed

theorem DeserializeItemSet_SerializeItemSet_witness:
  "fst (DeserializeItemSet (SerializeItemSet (Some
      [\<lparr> it_name = Some ''prompt'', it_valueLength = 2, it_data = Some ''ok'', it_flags = 4 \<rparr>,
       \<lparr> it_name = Some ''icon'', it_valueLength = 0, it_data = None, it_flags = 0 \<rparr>]))) =
   Some [\<lparr> it_name = Some ''prompt'', it_valueLength = 2, it_data = Some ''ok'', it_flags = 4 \<rparr>,
         \<lparr> it_name = Some ''icon'', it_valueLength = 0, it_data = None, it_flags = 0 \<rparr>]"
  by (rule DeserializeItemSet_SerializeItemSet) (simp_all add: item_canonical_def)

end
