(* ===== verification/Crc64.thy ===== *)
theory Crc64
  imports Prelude
begin

text \<open>
  The 64-bit CRC of \<^verbatim>\<open>src/OSX/authd/crc.c\<close> and \<^verbatim>\<open>crc.h\<close> (polynomial ECMA-182), which the daemon
  uses as the hash of its reference-counted objects: the table as it stands in the source, the
  table-driven loop, and three facts about it.  The table is the one the generator in the
  comment of \<^verbatim>\<open>crc.c\<close> prints; the table-driven loop is division by the polynomial one bit at a
  time; and the CRC tells apart any two messages of the same length of at most eight bytes,
  which is what makes the hash-based equality of uid credentials exact.
\<close>

unbundle bit_operations_syntax

section \<open>The code\<close>

definition xorout :: "64 word" where
  "xorout = 0xffffffffffffffff"

definition crc_table64 :: "64 word list" where
  "crc_table64 = [
    0x0000000000000000, 0x42f0e1eba9ea3693, 0x85e1c3d753d46d26, 0xc711223cfa3e5bb5,
    0x493366450e42ecdf, 0x0bc387aea7a8da4c, 0xccd2a5925d9681f9, 0x8e224479f47cb76a,
    0x9266cc8a1c85d9be, 0xd0962d61b56fef2d, 0x17870f5d4f51b498, 0x5577eeb6e6bb820b,
    0xdb55aacf12c73561, 0x99a54b24bb2d03f2, 0x5eb4691841135847, 0x1c4488f3e8f96ed4,
    0x663d78ff90e185ef, 0x24cd9914390bb37c, 0xe3dcbb28c335e8c9, 0xa12c5ac36adfde5a,
    0x2f0e1eba9ea36930, 0x6dfeff5137495fa3, 0xaaefdd6dcd770416, 0xe81f3c86649d3285,
    0xf45bb4758c645c51, 0xb6ab559e258e6ac2, 0x71ba77a2dfb03177, 0x334a9649765a07e4,
    0xbd68d2308226b08e, 0xff9833db2bcc861d, 0x388911e7d1f2dda8, 0x7a79f00c7818eb3b,
    0xcc7af1ff21c30bde, 0x8e8a101488293d4d, 0x499b3228721766f8, 0x0b6bd3c3dbfd506b,
    0x854997ba2f81e701, 0xc7b97651866bd192, 0x00a8546d7c558a27, 0x4258b586d5bfbcb4,
    0x5e1c3d753d46d260, 0x1cecdc9e94ace4f3, 0xdbfdfea26e92bf46, 0x990d1f49c77889d5,
    0x172f5b3033043ebf, 0x55dfbadb9aee082c, 0x92ce98e760d05399, 0xd03e790cc93a650a,
    0xaa478900b1228e31, 0xe8b768eb18c8b8a2, 0x2fa64ad7e2f6e317, 0x6d56ab3c4b1cd584,
    0xe374ef45bf6062ee, 0xa1840eae168a547d, 0x66952c92ecb40fc8, 0x2465cd79455e395b,
    0x3821458aada7578f, 0x7ad1a461044d611c, 0xbdc0865dfe733aa9, 0xff3067b657990c3a,
    0x711223cfa3e5bb50, 0x33e2c2240a0f8dc3, 0xf4f3e018f031d676, 0xb60301f359dbe0e5,
    0xda050215ea6c212f, 0x98f5e3fe438617bc, 0x5fe4c1c2b9b84c09, 0x1d14202910527a9a,
    0x93366450e42ecdf0, 0xd1c685bb4dc4fb63, 0x16d7a787b7faa0d6, 0x5427466c1e109645,
    0x4863ce9ff6e9f891, 0x0a932f745f03ce02, 0xcd820d48a53d95b7, 0x8f72eca30cd7a324,
    0x0150a8daf8ab144e, 0x43a04931514122dd, 0x84b16b0dab7f7968, 0xc6418ae602954ffb,
    0xbc387aea7a8da4c0, 0xfec89b01d3679253, 0x39d9b93d2959c9e6, 0x7b2958d680b3ff75,
    0xf50b1caf74cf481f, 0xb7fbfd44dd257e8c, 0x70eadf78271b2539, 0x321a3e938ef113aa,
    0x2e5eb66066087d7e, 0x6cae578bcfe24bed, 0xabbf75b735dc1058, 0xe94f945c9c3626cb,
    0x676dd025684a91a1, 0x259d31cec1a0a732, 0xe28c13f23b9efc87, 0xa07cf2199274ca14,
    0x167ff3eacbaf2af1, 0x548f120162451c62, 0x939e303d987b47d7, 0xd16ed1d631917144,
    0x5f4c95afc5edc62e, 0x1dbc74446c07f0bd, 0xdaad56789639ab08, 0x985db7933fd39d9b,
    0x84193f60d72af34f, 0xc6e9de8b7ec0c5dc, 0x01f8fcb784fe9e69, 0x43081d5c2d14a8fa,
    0xcd2a5925d9681f90, 0x8fdab8ce70822903, 0x48cb9af28abc72b6, 0x0a3b7b1923564425,
    0x70428b155b4eaf1e, 0x32b26afef2a4998d, 0xf5a348c2089ac238, 0xb753a929a170f4ab,
    0x3971ed50550c43c1, 0x7b810cbbfce67552, 0xbc902e8706d82ee7, 0xfe60cf6caf321874,
    0xe224479f47cb76a0, 0xa0d4a674ee214033, 0x67c58448141f1b86, 0x253565a3bdf52d15,
    0xab1721da49899a7f, 0xe9e7c031e063acec, 0x2ef6e20d1a5df759, 0x6c0603e6b3b7c1ca,
    0xf6fae5c07d3274cd, 0xb40a042bd4d8425e, 0x731b26172ee619eb, 0x31ebc7fc870c2f78,
    0xbfc9838573709812, 0xfd39626eda9aae81, 0x3a28405220a4f534, 0x78d8a1b9894ec3a7,
    0x649c294a61b7ad73, 0x266cc8a1c85d9be0, 0xe17dea9d3263c055, 0xa38d0b769b89f6c6,
    0x2daf4f0f6ff541ac, 0x6f5faee4c61f773f, 0xa84e8cd83c212c8a, 0xeabe6d3395cb1a19,
    0x90c79d3fedd3f122, 0xd2377cd44439c7b1, 0x15265ee8be079c04, 0x57d6bf0317edaa97,
    0xd9f4fb7ae3911dfd, 0x9b041a914a7b2b6e, 0x5c1538adb04570db, 0x1ee5d94619af4648,
    0x02a151b5f156289c, 0x4051b05e58bc1e0f, 0x87409262a28245ba, 0xc5b073890b687329,
    0x4b9237f0ff14c443, 0x0962d61b56fef2d0, 0xce73f427acc0a965, 0x8c8315cc052a9ff6,
    0x3a80143f5cf17f13, 0x7870f5d4f51b4980, 0xbf61d7e80f251235, 0xfd913603a6cf24a6,
    0x73b3727a52b393cc, 0x31439391fb59a55f, 0xf652b1ad0167feea, 0xb4a25046a88dc879,
    0xa8e6d8b54074a6ad, 0xea16395ee99e903e, 0x2d071b6213a0cb8b, 0x6ff7fa89ba4afd18,
    0xe1d5bef04e364a72, 0xa3255f1be7dc7ce1, 0x64347d271de22754, 0x26c49cccb40811c7,
    0x5cbd6cc0cc10fafc, 0x1e4d8d2b65facc6f, 0xd95caf179fc497da, 0x9bac4efc362ea149,
    0x158e0a85c2521623, 0x577eeb6e6bb820b0, 0x906fc95291867b05, 0xd29f28b9386c4d96,
    0xcedba04ad0952342, 0x8c2b41a1797f15d1, 0x4b3a639d83414e64, 0x09ca82762aab78f7,
    0x87e8c60fded7cf9d, 0xc51827e4773df90e, 0x020905d88d03a2bb, 0x40f9e43324e99428,
    0x2cffe7d5975e55e2, 0x6e0f063e3eb46371, 0xa91e2402c48a38c4, 0xebeec5e96d600e57,
    0x65cc8190991cb93d, 0x273c607b30f68fae, 0xe02d4247cac8d41b, 0xa2dda3ac6322e288,
    0xbe992b5f8bdb8c5c, 0xfc69cab42231bacf, 0x3b78e888d80fe17a, 0x7988096371e5d7e9,
    0xf7aa4d1a85996083, 0xb55aacf12c735610, 0x724b8ecdd64d0da5, 0x30bb6f267fa73b36,
    0x4ac29f2a07bfd00d, 0x08327ec1ae55e69e, 0xcf235cfd546bbd2b, 0x8dd3bd16fd818bb8,
    0x03f1f96f09fd3cd2, 0x41011884a0170a41, 0x86103ab85a2951f4, 0xc4e0db53f3c36767,
    0xd8a453a01b3a09b3, 0x9a54b24bb2d03f20, 0x5d45907748ee6495, 0x1fb5719ce1045206,
    0x919735e51578e56c, 0xd367d40ebc92d3ff, 0x1476f63246ac884a, 0x568617d9ef46bed9,
    0xe085162ab69d5e3c, 0xa275f7c11f7768af, 0x6564d5fde549331a, 0x279434164ca30589,
    0xa9b6706fb8dfb2e3, 0xeb46918411358470, 0x2c57b3b8eb0bdfc5, 0x6ea7525342e1e956,
    0x72e3daa0aa188782, 0x30133b4b03f2b111, 0xf7021977f9cceaa4, 0xb5f2f89c5026dc37,
    0x3bd0bce5a45a6b5d, 0x79205d0e0db05dce, 0xbe317f32f78e067b, 0xfcc19ed95e6430e8,
    0x86b86ed5267cdbd3, 0xc4488f3e8f96ed40, 0x0359ad0275a8b6f5, 0x41a94ce9dc428066,
    0xcf8b0890283e370c, 0x8d7be97b81d4019f, 0x4a6acb477bea5a2a, 0x089a2aacd2006cb9,
    0x14dea25f3af9026d, 0x562e43b4931334fe, 0x913f6188692d6f4b, 0xd3cf8063c0c759d8,
    0x5dedc41a34bbeeb2, 0x1f1d25f19d51d821, 0xd80c07cd676f8394, 0x9afce626ce85b507
  ]"

definition crc64_init :: "64 word" where
  "crc64_init = xorout"

definition crc64_final :: "64 word \<Rightarrow> 64 word" where
  "crc64_final crc = crc XOR xorout"

fun crc64_update :: "64 word \<Rightarrow> string \<Rightarrow> 64 word" where
  "crc64_update crc [] = crc"
| "crc64_update crc (c # ptr) =
     crc64_update (crc_table64 ! unat ((drop_bit 56 crc XOR word_of_nat (of_char c)) AND 0xff) XOR push_bit 8 crc) ptr"

definition crc64 :: "string \<Rightarrow> 64 word" where
  "crc64 buf = crc64_final (crc64_update crc64_init buf)"

section \<open>Division by the polynomial, one bit at a time\<close>

definition crc_poly :: "64 word" where
  "crc_poly = 0x42F0E1EBA9EA3693"

definition crc_step :: "64 word \<Rightarrow> 64 word" where
  "crc_step crc = (if bit crc 63 then push_bit 1 crc XOR crc_poly else push_bit 1 crc)"

primrec crc_bits :: "nat \<Rightarrow> 64 word \<Rightarrow> 64 word" where
  "crc_bits 0 crc = crc"
| "crc_bits (Suc n) crc = crc_bits n (crc_step crc)"

lemma crc_step_xor: "crc_step (a XOR b) = crc_step a XOR crc_step b"
  by (rule bit_word_eqI) (auto simp: crc_step_def bit_simps)

lemma crc_bits_xor: "crc_bits n (a XOR b) = crc_bits n a XOR crc_bits n b"
  by (induction n arbitrary: a b) (simp_all add: crc_step_xor)

lemma crc_bits_add: "crc_bits (m + n) a = crc_bits n (crc_bits m a)"
  by (induction m arbitrary: a) simp_all

lemma crc_bits_shift:
  "(\<And>i. 64 - n \<le> i \<Longrightarrow> \<not> bit a i) \<Longrightarrow> crc_bits n a = push_bit n a"
proof (induction n arbitrary: a)
  case 0
  then show ?case by simp
next
  case (Suc n)
  have "crc_step a = push_bit 1 a"
    using Suc.prems [of 63] by (simp add: crc_step_def)
  moreover have "crc_bits n (push_bit 1 a) = push_bit n (push_bit 1 a)"
  proof (intro Suc.IH notI)
    fix i assume "64 - n \<le> i" "bit (push_bit 1 a) i"
    then have "bit a (i - 1)" and "64 - Suc n \<le> i - 1"
      by (simp_all only: bit_push_bit_iff)
    with Suc.prems show False by blast
  qed
  ultimately show ?case
    by (simp add: push_bit_push_bit)
qed

lemma crc_step_top:
  assumes "bit x 63"
  shows "bit (crc_step x) 0"
proof -
  have "\<not> bit (push_bit 1 x) 0"
    by (simp only: bit_push_bit_iff) simp
  moreover have "bit crc_poly 0"
    by (simp add: crc_poly_def)
  ultimately show ?thesis
    using assms by (simp only: crc_step_def if_True bit_xor_iff) simp
qed

lemma crc_step_zero:
  assumes "crc_step x = 0"
  shows "x = 0"
proof (rule bit_word_eqI)
  fix i
  assume "i < LENGTH(64)"
  have top: "\<not> bit x 63"
    using crc_step_top [of x] assms by auto
  have "bit (crc_step x) (Suc i) \<longleftrightarrow> i < 63 \<and> bit x i"
    using top by (simp only: crc_step_def if_False bit_push_bit_iff) auto
  with assms have "\<not> (i < 63 \<and> bit x i)"
    by (metis bit_0_eq bot_apply bot_bool_def)
  with top \<open>i < LENGTH(64)\<close> have "\<not> bit x i"
    by (cases "i = 63") auto
  then show "bit x i \<longleftrightarrow> bit 0 i"
    by (metis bit_0_eq bot_apply bot_bool_def)
qed

lemma crc_step_inject: "crc_step a = crc_step b \<longleftrightarrow> a = b"
proof
  assume "crc_step a = crc_step b"
  then have "crc_step (a XOR b) = 0"
    by (simp only: crc_step_xor xor_self_eq)
  then have "a XOR b = 0"
    by (rule crc_step_zero)
  moreover have "b = a XOR (a XOR b)"
    by (simp only: xor.assoc [symmetric] xor_self_eq xor.left_neutral)
  ultimately show "a = b"
    by (simp only: xor.right_neutral)
qed simp

lemma crc_bits_inject: "crc_bits n a = crc_bits n b \<longleftrightarrow> a = b"
  by (induction n arbitrary: a b) (simp_all add: crc_step_inject)

lemma crc_bits_step: "crc_bits n (crc_step a) = crc_step (crc_bits n a)"
  by (induction n arbitrary: a) simp_all

lemma crc_bits_0 [simp]: "crc_bits n 0 = 0"
  by (induction n) (simp_all add: crc_step_def)

section \<open>The table\<close>

text \<open>\<^verbatim>\<open>generate_table\<close> of the comment: entry \<^term>\<open>i\<close> is eight steps from \<^term>\<open>i\<close> shifted to the
  top byte.  The entries are related two by two, so one pass over the first half checks all of
  them.\<close>

primrec expand_table :: "64 word list \<Rightarrow> 64 word list" where
  "expand_table [] = []"
| "expand_table (x # xs) = crc_step x # (crc_step x XOR crc_poly) # expand_table xs"

lemma expand_table_even: "i < length xs \<Longrightarrow> expand_table xs ! (2 * i) = crc_step (xs ! i)"
  by (induction xs arbitrary: i) (auto simp: nth_Cons split: nat.split)

lemma expand_table_odd: "i < length xs \<Longrightarrow> expand_table xs ! Suc (2 * i) = crc_step (xs ! i) XOR crc_poly"
  by (induction xs arbitrary: i) (auto simp: nth_Cons split: nat.split)

lemma length_crc_table64 [simp]: "length crc_table64 = 256"
  by (simp add: crc_table64_def)

lemma crc_table64_expand: "expand_table (take 128 crc_table64) = crc_table64"
  by (simp add: crc_table64_def crc_step_def crc_poly_def)

lemma crc_table64_even: "i < 128 \<Longrightarrow> crc_table64 ! (2 * i) = crc_step (crc_table64 ! i)"
  using expand_table_even [of i "take 128 crc_table64"] by (simp add: crc_table64_expand)

lemma crc_table64_odd: "i < 128 \<Longrightarrow> crc_table64 ! Suc (2 * i) = crc_step (crc_table64 ! i) XOR crc_poly"
  using expand_table_odd [of i "take 128 crc_table64"] by (simp add: crc_table64_expand)

lemma push_bit_top_step:
  assumes "j < 128"
  shows "crc_step (push_bit 56 (of_nat j)) = push_bit 56 (of_nat (2 * j))"
proof -
  have "\<not> bit j (7 :: nat)"
    using assms by (simp add: bit_nat_def)
  then have "\<not> bit (push_bit 56 (of_nat j :: 64 word)) 63"
    by (simp add: bit_push_bit_iff bit_of_nat_iff)
  then show ?thesis
    by (simp add: crc_step_def push_bit_eq_mult)
qed

lemma crc_bits_8:
  "crc_bits 8 c = crc_step (crc_step (crc_step (crc_step (crc_step (crc_step (crc_step (crc_step c)))))))"
  by (simp add: eval_nat_numeral)

lemma crc_bits_poly: "crc_bits 8 (push_bit 56 1) = crc_poly"
  by (simp add: crc_bits_8 crc_step_def crc_poly_def)

theorem crc_table64_generated:
  "i < 256 \<Longrightarrow> crc_table64 ! i = crc_bits 8 (push_bit 56 (of_nat i))"
proof (induction i rule: less_induct)
  case (less i)
  define j where "j = i div 2"
  show ?case
  proof (cases "i = 0")
    case True
    then show ?thesis by (simp add: crc_table64_def)
  next
    case False
    then have j: "j < i" "j < 128"
      using less.prems by (auto simp: j_def)
    have IH: "crc_table64 ! j = crc_bits 8 (push_bit 56 (of_nat j))"
      using less.IH [OF j(1)] j(2) by simp
    have even_case: "crc_step (crc_table64 ! j) = crc_bits 8 (push_bit 56 (of_nat (2 * j)))"
      by (simp only: IH crc_bits_step [symmetric] push_bit_top_step [OF j(2)])
    show ?thesis
    proof (cases "even i")
      case True
      then have "i = 2 * j" by (simp add: j_def)
      then show ?thesis
        using crc_table64_even [OF j(2)] even_case by simp
    next
      case False
      then have i: "i = Suc (2 * j)" by (simp add: j_def)
      have "even (2 * of_nat j :: 64 word)"
        by simp
      then have "2 * of_nat j + 1 = (2 * of_nat j XOR 1 :: 64 word)"
        by (simp only: xor_one_eq) simp
      then have "push_bit 56 (of_nat i) = push_bit 56 (of_nat (2 * j)) XOR (push_bit 56 1 :: 64 word)"
        by (simp only: i of_nat_Suc of_nat_mult of_nat_numeral add.commute [of 1] push_bit_xor)
      then show ?thesis
        using crc_table64_odd [OF j(2)] even_case
        by (simp only: crc_bits_xor crc_bits_poly i)
    qed
  qed
qed

section \<open>The table-driven loop is bitwise division\<close>

primrec crc_divide :: "64 word \<Rightarrow> string \<Rightarrow> 64 word" where
  "crc_divide crc [] = crc"
| "crc_divide crc (c # cs) = crc_divide (crc_bits 8 (crc XOR push_bit 56 (word_of_nat (of_char c)))) cs"

lemma split_top_byte: "push_bit 56 (drop_bit 56 crc) XOR (crc AND mask 56) = (crc :: 64 word)"
  by (rule bit_word_eqI) (auto simp: bit_simps)

lemma byte_take_bit: "take_bit 8 (of_char c) = (of_char c :: nat)"
  by (simp add: take_bit_eq_mod)

lemma byte_word_take_bit: "take_bit 8 (word_of_nat (of_char c) :: 64 word) = word_of_nat (of_char c)"
  by (simp only: take_bit_of_nat byte_take_bit)

lemma crc_bits_low: "crc_bits 8 (crc AND mask 56) = push_bit 8 crc"
proof -
  have "crc_bits 8 (crc AND mask 56) = push_bit 8 (crc AND mask 56)"
    by (rule crc_bits_shift) (auto simp: bit_simps)
  also have "push_bit 8 (crc AND mask 56) = push_bit 8 crc"
    by (rule bit_word_eqI) (auto simp: bit_simps)
  finally show ?thesis .
qed

lemma crc_table64_word:
  assumes "take_bit 8 t = (t :: 64 word)"
  shows "crc_table64 ! unat t = crc_bits 8 (push_bit 56 t)"
proof -
  have "unat t = unat (take_bit 8 t)"
    by (simp only: assms)
  also have "\<dots> = take_bit 8 (unat t)"
    by (simp only: unsigned_take_bit_eq)
  also have "\<dots> < 2 ^ 8"
    by (rule take_bit_nat_less_exp)
  finally have "unat t < 256"
    by simp
  then show ?thesis
    using crc_table64_generated [of "unat t"] by simp
qed

lemma crc_table64_byte:
  "crc_table64 ! unat ((drop_bit 56 crc XOR word_of_nat (of_char c)) AND 0xff) XOR push_bit 8 crc =
   crc_bits 8 (crc XOR push_bit 56 (word_of_nat (of_char c)))"
proof -
  define b where "b = (word_of_nat (of_char c) :: 64 word)"
  define t where "t = drop_bit 56 crc XOR b"
  have "take_bit 8 (drop_bit 56 crc) = drop_bit 56 crc"
    by (rule bit_word_eqI) (auto simp: bit_simps dest: bit_imp_le_length)
  then have t: "take_bit 8 t = t"
    by (simp only: t_def b_def take_bit_xor byte_word_take_bit)
  have "t AND 0xff = take_bit 8 t"
    by (simp add: take_bit_eq_mask mask_eq_exp_minus_1)
  then have "crc_table64 ! unat (t AND 0xff) XOR push_bit 8 crc = crc_bits 8 (push_bit 56 t) XOR crc_bits 8 (crc AND mask 56)"
    by (simp only: t crc_table64_word crc_bits_low)
  also have "\<dots> = crc_bits 8 (push_bit 56 t XOR (crc AND mask 56))"
    by (simp only: crc_bits_xor)
  also have "push_bit 56 t XOR (crc AND mask 56) = (push_bit 56 (drop_bit 56 crc) XOR (crc AND mask 56)) XOR push_bit 56 b"
    by (simp only: t_def push_bit_xor ac_simps)
  also have "\<dots> = crc XOR push_bit 56 b"
    by (simp only: split_top_byte)
  finally show ?thesis
    by (simp only: t_def b_def)
qed

lemma crc64_update_divides: "crc64_update crc buf = crc_divide crc buf"
  by (induction buf arbitrary: crc) (simp_all only: crc64_update.simps crc_divide.simps crc_table64_byte)

lemma crc64_update_append: "crc64_update crc (a @ b) = crc64_update (crc64_update crc a) b"
  by (induction a arbitrary: crc) simp_all

section \<open>Short messages are told apart\<close>

text \<open>The message as a polynomial: its first byte is the top byte of the word.\<close>

primrec be_word :: "string \<Rightarrow> 64 word" where
  "be_word [] = 0"
| "be_word (c # cs) = push_bit 56 (word_of_nat (of_char c)) XOR drop_bit 8 (be_word cs)"

lemma be_word_low: "i < 64 - 8 * length cs \<Longrightarrow> \<not> bit (be_word cs) i"
proof (induction cs arbitrary: i)
  case Nil
  then show ?case by simp
next
  case (Cons c cs)
  have "\<not> bit (be_word cs) (8 + i)"
    using Cons.prems by (intro Cons.IH) simp
  moreover have "i < 56"
    using Cons.prems by simp
  ultimately show ?case
    by (simp only: be_word.simps bit_xor_iff bit_push_bit_iff bit_drop_bit_eq o_def) simp
qed

lemma push_drop_be_word:
  assumes "length cs \<le> 7"
  shows "push_bit 8 (drop_bit 8 (be_word cs)) = be_word cs"
proof (rule bit_word_eqI)
  fix i
  assume "i < LENGTH(64)"
  show "bit (push_bit 8 (drop_bit 8 (be_word cs))) i \<longleftrightarrow> bit (be_word cs) i"
  proof (cases "i < 8")
    case True
    with assms have "\<not> bit (be_word cs) i"
      by (intro be_word_low) simp
    with True show ?thesis
      by (simp only: bit_push_bit_iff) simp
  next
    case False
    with \<open>i < LENGTH(64)\<close> show ?thesis
      by (simp only: bit_push_bit_iff bit_drop_bit_eq o_def) simp
  qed
qed

lemma crc_bits_be_tail:
  assumes "length cs \<le> 7"
  shows "crc_bits 8 (drop_bit 8 (be_word cs)) = be_word cs"
proof -
  have "crc_bits 8 (drop_bit 8 (be_word cs)) = push_bit 8 (drop_bit 8 (be_word cs))"
    by (rule crc_bits_shift) (auto simp: bit_simps dest: bit_imp_le_length)
  then show ?thesis
    by (simp only: push_drop_be_word [OF assms])
qed

lemma crc_divide_be_word:
  "length cs \<le> 8 \<Longrightarrow> crc_divide crc cs = crc_bits (8 * length cs) (crc XOR be_word cs)"
proof (induction cs arbitrary: crc)
  case Nil
  then show ?case by simp
next
  case (Cons c cs)
  define b where "b = (push_bit 56 (word_of_nat (of_char c)) :: 64 word)"
  have len: "8 * length (c # cs) = 8 + 8 * length cs" and short: "length cs \<le> 7"
    using Cons.prems by simp_all
  have "crc_divide crc (c # cs) = crc_bits (8 * length cs) (crc_bits 8 (crc XOR b) XOR be_word cs)"
    using Cons.IH short by (simp add: b_def)
  also have "crc_bits 8 (crc XOR b) XOR be_word cs = crc_bits 8 ((crc XOR b) XOR drop_bit 8 (be_word cs))"
    by (simp only: crc_bits_xor crc_bits_be_tail [OF short])
  also have "(crc XOR b) XOR drop_bit 8 (be_word cs) = crc XOR be_word (c # cs)"
    by (simp only: be_word.simps b_def xor.assoc)
  finally show ?case
    by (simp only: len crc_bits_add)
qed

lemma be_word_top: "drop_bit 56 (be_word (c # cs)) = word_of_nat (of_char c)"
proof -
  have "drop_bit 56 (drop_bit 8 (be_word cs)) = 0"
    by (rule bit_word_eqI) (simp add: bit_simps)
  moreover have "drop_bit 56 (push_bit 56 b) = take_bit 8 b" for b :: "64 word"
    by (rule bit_word_eqI) (auto simp: bit_simps)
  ultimately show ?thesis
    by (simp only: be_word.simps drop_bit_xor xor.right_neutral byte_word_take_bit)
qed

lemma be_word_inject:
  "length xs = length ys \<Longrightarrow> length xs \<le> 8 \<Longrightarrow> be_word xs = be_word ys \<Longrightarrow> xs = ys"
proof (induction xs ys rule: list_induct2)
  case Nil
  then show ?case by simp
next
  case (Cons x xs y ys)
  have short: "length xs \<le> 7" "length ys \<le> 7"
    using Cons.hyps Cons.prems by simp_all
  have "drop_bit 56 (be_word (x # xs)) = drop_bit 56 (be_word (y # ys))"
    by (simp only: Cons.prems)
  then have w: "(word_of_nat (of_char x) :: 64 word) = word_of_nat (of_char y)"
    by (simp only: be_word_top)
  then have "unat (word_of_nat (of_char x) :: 64 word) = unat (word_of_nat (of_char y) :: 64 word)"
    by (simp only:)
  then have "(of_char x :: nat) = of_char y"
    using nat_of_char_less_256 [of x] nat_of_char_less_256 [of y]
    by (simp add: unat_of_nat)
  then have xy: "x = y"
    by simp
  define b where "b = (push_bit 56 (word_of_nat (of_char y)) :: 64 word)"
  have "b XOR (b XOR drop_bit 8 (be_word xs)) = b XOR (b XOR drop_bit 8 (be_word ys))"
    using Cons.prems(2) by (simp only: be_word.simps xy b_def)
  then have "drop_bit 8 (be_word xs) = drop_bit 8 (be_word ys)"
    by (simp only: xor.assoc [symmetric] xor_self_eq xor.left_neutral)
  then have "push_bit 8 (drop_bit 8 (be_word xs)) = push_bit 8 (drop_bit 8 (be_word ys))"
    by (simp only:)
  then have "be_word xs = be_word ys"
    by (simp only: push_drop_be_word short)
  with Cons.IH short xy show ?case
    by simp
qed

lemma xorout_ones: "xorout = - 1"
  by (simp add: xorout_def)

lemma crc64_divide: "crc64 buf = NOT (crc_divide (NOT 0) buf)"
  by (simp add: crc64_def crc64_final_def crc64_init_def xorout_ones crc64_update_divides)

lemma crc64_update_short_inject:
  assumes "length xs = length ys" "length xs \<le> 8"
  shows "crc64_update c xs = crc64_update c ys \<longleftrightarrow> xs = ys"
proof
  assume "crc64_update c xs = crc64_update c ys"
  then have "c XOR be_word xs = c XOR be_word ys"
    using assms by (simp only: crc64_update_divides crc_divide_be_word crc_bits_inject)
  then have "c XOR (c XOR be_word xs) = c XOR (c XOR be_word ys)"
    by (simp only:)
  then have "be_word xs = be_word ys"
    by (simp only: xor.assoc [symmetric] xor_self_eq xor.left_neutral)
  then show "xs = ys"
    by (rule be_word_inject [OF assms])
qed simp

lemma crc64_final_inject: "crc64_final a = crc64_final b \<longleftrightarrow> a = b"
proof
  assume "crc64_final a = crc64_final b"
  then have "(a XOR xorout) XOR xorout = (b XOR xorout) XOR xorout"
    by (simp only: crc64_final_def)
  then show "a = b"
    by (simp only: xor.assoc xor_self_eq xor.right_neutral)
qed simp

lemma crc64_inject:
  assumes "length xs = length ys" "length xs \<le> 8"
  shows "crc64 xs = crc64 ys \<longleftrightarrow> xs = ys"
  using assms by (simp only: crc64_def crc64_final_inject crc64_update_short_inject)

text \<open>C36. The table in the source is the one that \<^verbatim>\<open>generate_table\<close> prints, and the table-driven
  CRC of any buffer is the complement of the division of the complemented start value by the
  ECMA-182 polynomial, one bit at a time.\<close>

theorem crc64_is_polynomial_division:
  "(map (\<lambda>i. crc_bits 8 (push_bit 56 (of_nat i))) [0..<256] = crc_table64) \<and>
   crc64 buf = NOT (crc_divide (NOT 0) buf)"
proof
  show "map (\<lambda>i. crc_bits 8 (push_bit 56 (of_nat i))) [0..<256] = crc_table64"
    by (rule nth_equalityI) (simp_all add: crc_table64_generated)
  show "crc64 buf = NOT (crc_divide (NOT 0) buf)"
    by (rule crc64_divide)
qed

text \<open>The CRC tells apart any two messages of the same length of at most eight bytes.\<close>

theorem crc64_short_inject:
  assumes "length xs = length ys" "length xs \<le> 8"
  shows "crc64 xs = crc64 ys \<longleftrightarrow> xs = ys"
  using assms by (rule crc64_inject)

theorem crc64_short_inject_witness:
  "crc64 ''abcdefgh'' \<noteq> crc64 ''abcdefgi''"
  by (simp add: crc64_short_inject)

end
