(* ===== verification/Auth_Items.thy ===== *)
theory Auth_Items
  imports Auth_Util Crc64
begin

text \<open>
  \<^verbatim>\<open>src/OSX/authd/authitems.c\<close>: typed items, the dictionaries of items (\<^verbatim>\<open>auth_items_t\<close>) that carry
  hints, contexts and environments through the daemon, and the ordered lists of requested rights
  (\<^verbatim>\<open>auth_rights_t\<close>).

  Items are reference-counted objects that several dictionaries may share (\<^verbatim>\<open>auth_items_copy\<close> shares
  them, \<^verbatim>\<open>auth_items_content_copy\<close> does not), so they live in an explicit store: a dictionary maps
  keys to addresses of the store.  An item keeps its allocated buffer, the length of its value and
  the size the code believes the buffer has (\<^verbatim>\<open>bufLen\<close>).  A write through a NULL pointer or past
  the end of a buffer, or a read of a C string that has no NUL in its buffer, sets the fault flag of
  the store: from there on the behaviour of the program is undefined.

  Conventions: \<^verbatim>\<open>CFStringCreateWithCString\<close> succeeds (names are valid UTF-8); a dictionary is an
  association list, whose order the code never relies on; a \<^verbatim>\<open>double\<close> is its 64-bit pattern and
  \<^verbatim>\<open>atof\<close> is a parameter.
\<close>

unbundle bit_operations_syntax

section \<open>Items\<close>

abbreviation AI_TYPE_UNKNOWN :: "32 word" where "AI_TYPE_UNKNOWN \<equiv> 0"
abbreviation AI_TYPE_RIGHT :: "32 word" where "AI_TYPE_RIGHT \<equiv> 1"
abbreviation AI_TYPE_STRING :: "32 word" where "AI_TYPE_STRING \<equiv> 2"
abbreviation AI_TYPE_INT :: "32 word" where "AI_TYPE_INT \<equiv> 3"
abbreviation AI_TYPE_UINT :: "32 word" where "AI_TYPE_UINT \<equiv> 4"
abbreviation AI_TYPE_INT64 :: "32 word" where "AI_TYPE_INT64 \<equiv> 5"
abbreviation AI_TYPE_UINT64 :: "32 word" where "AI_TYPE_UINT64 \<equiv> 6"
abbreviation AI_TYPE_DOUBLE :: "32 word" where "AI_TYPE_DOUBLE \<equiv> 7"
abbreviation AI_TYPE_BOOL :: "32 word" where "AI_TYPE_BOOL \<equiv> 8"
abbreviation AI_TYPE_DATA :: "32 word" where "AI_TYPE_DATA \<equiv> 9"

definition AGENT_PASSWORD :: string where "AGENT_PASSWORD = ''password''"

record auth_item =
  ai_name :: string
  ai_value :: "string option"
  ai_valueLength :: nat
  ai_flags :: "32 word"
  ai_type :: "32 word"
  ai_bufLen :: nat

text \<open>The store of items.\<close>

record items_heap =
  hp_cells :: "auth_item list"
  hp_fault :: bool

definition hp_empty :: items_heap where
  "hp_empty = \<lparr> hp_cells = [], hp_fault = False \<rparr>"

definition hp_get :: "items_heap \<Rightarrow> nat \<Rightarrow> auth_item" where
  "hp_get hp a = hp_cells hp ! a"

definition hp_set :: "nat \<Rightarrow> auth_item \<Rightarrow> items_heap \<Rightarrow> items_heap" where
  "hp_set a item hp = hp\<lparr> hp_cells := (hp_cells hp)[a := item] \<rparr>"

definition hp_alloc :: "auth_item \<Rightarrow> items_heap \<Rightarrow> items_heap" where
  "hp_alloc item hp = hp\<lparr> hp_cells := hp_cells hp @ [item] \<rparr>"

definition hp_next :: "items_heap \<Rightarrow> nat" where
  "hp_next hp = length (hp_cells hp)"

definition hp_check :: "bool \<Rightarrow> items_heap \<Rightarrow> items_heap" where
  "hp_check ok hp = hp\<lparr> hp_fault := hp_fault hp \<or> \<not> ok \<rparr>"

lemma hp_get_set [simp, heap_simps]:
  "a < hp_next hp \<Longrightarrow> hp_get (hp_set a item hp) b = (if b = a then item else hp_get hp b)"
  by (auto simp: hp_get_def hp_set_def hp_next_def)

lemma hp_get_alloc [simp, heap_simps]:
  "hp_get (hp_alloc item hp) (hp_next hp) = item"
  "b < hp_next hp \<Longrightarrow> hp_get (hp_alloc item hp) b = hp_get hp b"
  by (auto simp: hp_get_def hp_alloc_def hp_next_def nth_append)

lemma hp_next_simps [simp, heap_simps]:
  "hp_next (hp_set a item hp) = hp_next hp"
  "hp_next (hp_alloc item hp) = Suc (hp_next hp)"
  "hp_next (hp_check ok hp) = hp_next hp"
  by (simp_all add: hp_next_def hp_set_def hp_alloc_def hp_check_def)

lemma hp_fault_simps [simp, heap_simps]:
  "hp_fault (hp_set a item hp) = hp_fault hp"
  "hp_fault (hp_alloc item hp) = hp_fault hp"
  "hp_fault (hp_check ok hp) \<longleftrightarrow> hp_fault hp \<or> \<not> ok"
  by (simp_all add: hp_set_def hp_alloc_def hp_check_def)

lemma hp_get_check [simp, heap_simps]: "hp_get (hp_check ok hp) a = hp_get hp a"
  by (simp add: hp_get_def hp_check_def)

text \<open>Writing the bytes \<^term>\<open>src\<close> at the start of an item's buffer, with the check that they fit.\<close>

definition buf_fits :: "string \<Rightarrow> string option \<Rightarrow> bool" where
  "buf_fits src buf = (case buf of None \<Rightarrow> False | Some b \<Rightarrow> length src \<le> length b)"

definition buf_write :: "string \<Rightarrow> string option \<Rightarrow> string option" where
  "buf_write src buf = (case buf of None \<Rightarrow> None
     | Some b \<Rightarrow> Some (take (length b) src @ drop (length src) b))"

text \<open>\<^verbatim>\<open>auth_item_get_string\<close>: when the believed buffer size does not exceed the value, the buffer is
  reallocated with one more byte, which is set to NUL.\<close>

definition item_with_nul :: "auth_item \<Rightarrow> auth_item" where
  "item_with_nul item =
     (if ai_bufLen item \<le> ai_valueLength item then
        let n = ai_valueLength item;
            old = (case ai_value item of None \<Rightarrow> [] | Some b \<Rightarrow> b)
        in item\<lparr> ai_bufLen := n + 1, ai_value := Some (take n (old @ replicate n NUL) @ [NUL]) \<rparr>
      else item)"

definition auth_item_get_string :: "auth_item \<Rightarrow> auth_item \<times> string option \<times> bool" where
  "auth_item_get_string item =
     (let item' = item_with_nul item
      in (item', map_option cstr (ai_value item'),
          (case ai_value item' of None \<Rightarrow> True | Some b \<Rightarrow> NUL \<in> set b)))"

definition auth_item_create ::
  "32 word \<Rightarrow> string option \<Rightarrow> string option \<Rightarrow> nat \<Rightarrow> 32 word \<Rightarrow> auth_item option" where
  "auth_item_create type name val valueLen flags =
     (case name of
        None \<Rightarrow> None
      | Some n \<Rightarrow>
          Some \<lparr> ai_name = n,
                 ai_value = (case val of
                    None \<Rightarrow> None
                  | Some v \<Rightarrow> if type = AI_TYPE_STRING then Some (take valueLen v @ [NUL])
                              else if valueLen \<noteq> 0 then Some (take valueLen v)
                              else None),
                 ai_valueLength = valueLen,
                 ai_flags = flags,
                 ai_type = type,
                 ai_bufLen = (if val \<noteq> None \<and> type = AI_TYPE_STRING then valueLen + 1 else valueLen) \<rparr>)"

text \<open>\<^verbatim>\<open>_auth_item_hash\<close> and \<^verbatim>\<open>_auth_item_equal\<close>.\<close>

definition auth_item_hash :: "auth_item \<Rightarrow> 64 word" where
  "auth_item_hash item =
     (let crc = crc64_update crc64_init (ai_name item);
          crc = (case ai_value item of None \<Rightarrow> crc
                 | Some v \<Rightarrow> crc64_update crc (take (ai_valueLength item) v));
          crc = crc64_update crc (le_bytes 4 (unat (ai_flags item)))
      in crc64_final crc)"

definition auth_item_equal :: "auth_item \<Rightarrow> auth_item \<Rightarrow> bool" where
  "auth_item_equal i1 i2 \<longleftrightarrow> auth_item_hash i1 = auth_item_hash i2"

text \<open>The XPC form of an item.  A password is sent in a separate block of at least 32768 bytes, with
  its length beside it.\<close>

definition auth_item_copy_auth_item_xpc :: "auth_item \<Rightarrow> xpc" where
  "auth_item_copy_auth_item_xpc item =
     (let d = xpc_dictionary_set (XPC_Dict []) AUTH_XPC_ITEM_NAME (XPC_String (ai_name item));
          d = (case ai_value item of
                 None \<Rightarrow> d
               | Some v \<Rightarrow>
                   if ai_name item = AGENT_PASSWORD then
                     let size = (if ai_valueLength item > 32768 then ai_valueLength item else 32768);
                         block = take (ai_valueLength item) v @ replicate (size - ai_valueLength item) NUL
                     in xpc_dictionary_set (xpc_dictionary_set d AUTH_XPC_ITEM_VALUE (XPC_Data block))
                          AUTH_XPC_ITEM_SENSITIVE_VALUE_LENGTH
                          (XPC_Uint64 (of_nat (ai_valueLength item)))
                   else xpc_dictionary_set d AUTH_XPC_ITEM_VALUE (XPC_Data (take (ai_valueLength item) v)));
          d = xpc_dictionary_set d AUTH_XPC_ITEM_FLAGS (XPC_Uint64 (ucast (ai_flags item)))
      in xpc_dictionary_set d AUTH_XPC_ITEM_TYPE (XPC_Uint64 (ucast (ai_type item))))"

text \<open>Parsing it back gives the item and the message that remains: the sensitive bytes of the
  message are overwritten with zero.\<close>

definition auth_item_create_with_xpc :: "xpc \<Rightarrow> auth_item option \<times> xpc" where
  "auth_item_create_with_xpc data =
     (if \<not> xpc_is_dict data then (None, data)
      else case xpc_dictionary_get_string data AUTH_XPC_ITEM_NAME of
        None \<Rightarrow> (None, data)
      | Some name \<Rightarrow>
          let item = \<lparr> ai_name = name, ai_value = None, ai_valueLength = 0,
                       ai_flags = ucast (xpc_dictionary_get_uint64 data AUTH_XPC_ITEM_FLAGS),
                       ai_type = ucast (xpc_dictionary_get_uint64 data AUTH_XPC_ITEM_TYPE),
                       ai_bufLen = 0 \<rparr>
          in case xpc_dictionary_get_data data AUTH_XPC_ITEM_VALUE of
               None \<Rightarrow> (Some item, data)
             | Some v \<Rightarrow>
                 if xpc_dictionary_get_value data AUTH_XPC_ITEM_SENSITIVE_VALUE_LENGTH \<noteq> None then
                   let n = unat (xpc_dictionary_get_uint64 data AUTH_XPC_ITEM_SENSITIVE_VALUE_LENGTH)
                   in if length v < n then (Some item, data)
                      else (Some (item\<lparr> ai_bufLen := n, ai_valueLength := n, ai_value := Some (take n v) \<rparr>),
                            xpc_dictionary_set data AUTH_XPC_ITEM_VALUE
                              (XPC_Data (replicate n NUL @ drop n v)))
                 else (Some (item\<lparr> ai_bufLen := length v, ai_valueLength := length v, ai_value := Some v \<rparr>), data))"

section \<open>Encryption of items\<close>

text \<open>\<^verbatim>\<open>CCCrypt\<close> is a parameter: from the operation, the key, the input and the room in the output
  buffer to a status, the bytes written and the reported length.\<close>

datatype crypt_op = CCEncrypt | CCDecrypt

datatype crypt_status = CCSuccess | CCBufferTooSmall | CCOtherError

type_synonym cccrypt = "crypt_op \<Rightarrow> string \<Rightarrow> string \<Rightarrow> nat \<Rightarrow> crypt_status \<times> string \<times> nat"

definition auth_item_crypt_worker ::
  "cccrypt \<Rightarrow> auth_item \<Rightarrow> string option \<Rightarrow> crypt_op \<Rightarrow> bool \<times> auth_item" where
  "auth_item_crypt_worker cc item key operation =
     (case (key, ai_value item) of
        (Some k, Some v) \<Rightarrow>
          if ai_valueLength item = 0 then (False, item)
          else (case cc operation k (take (ai_valueLength item) v) 0 of
                  (CCBufferTooSmall, _, required) \<Rightarrow>
                    (case cc operation k (take (ai_valueLength item) v) required of
                       (CCSuccess, out, moved) \<Rightarrow>
                         (True, item\<lparr> ai_value := Some (take required out @ replicate (required - length out) NUL),
                                      ai_valueLength := moved \<rparr>)
                     | _ \<Rightarrow> (False, item))
                | _ \<Rightarrow> (False, item))
      | _ \<Rightarrow> (False, item))"

definition auth_item_encrypt :: "cccrypt \<Rightarrow> auth_item \<Rightarrow> string option \<Rightarrow> bool \<times> auth_item" where
  "auth_item_encrypt cc item key = auth_item_crypt_worker cc item key CCEncrypt"

definition auth_item_decrypt :: "cccrypt \<Rightarrow> auth_item \<Rightarrow> string option \<Rightarrow> bool \<times> auth_item" where
  "auth_item_decrypt cc item key = auth_item_crypt_worker cc item key CCDecrypt"

section \<open>Dictionaries of items\<close>

type_synonym auth_items = "(string, nat) dict"

definition auth_items_create :: auth_items where
  "auth_items_create = []"

definition auth_items_create_copy :: "auth_items \<Rightarrow> auth_items" where
  "auth_items_create_copy items = items"

definition auth_items_get_count :: "auth_items \<Rightarrow> nat" where
  "auth_items_get_count items = length items"

definition auth_items_add_item :: "items_heap \<Rightarrow> auth_items \<Rightarrow> nat \<Rightarrow> auth_items" where
  "auth_items_add_item hp items a = AList.update (ai_name (hp_get hp a)) a items"

text \<open>Allocating a fresh item and adding it, as every setter does.\<close>

definition items_add_new :: "items_heap \<Rightarrow> auth_items \<Rightarrow> auth_item option \<Rightarrow> items_heap \<times> auth_items" where
  "items_add_new hp items item =
     (case item of
        None \<Rightarrow> (hp, items)
      | Some i \<Rightarrow> (hp_alloc i hp, auth_items_add_item (hp_alloc i hp) items (hp_next hp)))"

definition find_item :: "auth_items \<Rightarrow> string \<Rightarrow> nat option" where
  "find_item items key = map_of items key"

text \<open>\<^verbatim>\<open>_auth_items_parse_xpc\<close>: every entry of the array that parses is added; the message is left with
  its sensitive bytes cleared.\<close>

fun parse_xpc_items :: "items_heap \<Rightarrow> auth_items \<Rightarrow> xpc list \<Rightarrow> items_heap \<times> auth_items \<times> xpc list" where
  "parse_xpc_items hp items [] = (hp, items, [])"
| "parse_xpc_items hp items (v # vs) =
     (let (item, v') = auth_item_create_with_xpc v;
          (hp1, items1) = items_add_new hp items item;
          (hp2, items2, vs') = parse_xpc_items hp1 items1 vs
      in (hp2, items2, v' # vs'))"

definition auth_items_copy_xpc ::
  "items_heap \<Rightarrow> auth_items \<Rightarrow> xpc option \<Rightarrow> items_heap \<times> auth_items \<times> xpc option" where
  "auth_items_copy_xpc hp items data =
     (case data of
        Some (XPC_Array vs) \<Rightarrow>
          (case parse_xpc_items hp items vs of (hp', items', vs') \<Rightarrow> (hp', items', Some (XPC_Array vs')))
      | _ \<Rightarrow> (hp, items, data))"

definition auth_items_create_with_xpc ::
  "items_heap \<Rightarrow> xpc option \<Rightarrow> items_heap \<times> auth_items \<times> xpc option" where
  "auth_items_create_with_xpc hp data = auth_items_copy_xpc hp auth_items_create data"

definition auth_items_export_xpc :: "items_heap \<Rightarrow> auth_items \<Rightarrow> xpc" where
  "auth_items_export_xpc hp items =
     XPC_Array (map (\<lambda>(k, a). auth_item_copy_auth_item_xpc (hp_get hp a)) items)"

text \<open>The snapshot of names that \<^verbatim>\<open>auth_items_iterate\<close> hands to its block.\<close>

definition items_names :: "items_heap \<Rightarrow> auth_items \<Rightarrow> string list" where
  "items_names hp items = map (\<lambda>(k, a). ai_name (hp_get hp a)) items"

definition auth_items_iterate ::
  "items_heap \<Rightarrow> auth_items \<Rightarrow> (string \<Rightarrow> 's \<Rightarrow> bool \<times> 's) \<Rightarrow> 's \<Rightarrow> bool \<times> 's" where
  "auth_items_iterate hp items iter s = cf_iterate iter (items_names hp items) False s"

subsection \<open>Flags and keys\<close>

definition auth_items_set_flags :: "items_heap \<Rightarrow> auth_items \<Rightarrow> string \<Rightarrow> 32 word \<Rightarrow> items_heap" where
  "auth_items_set_flags hp items key flags =
     (case find_item items key of
        None \<Rightarrow> hp
      | Some a \<Rightarrow> hp_set a ((hp_get hp a)\<lparr> ai_flags := ai_flags (hp_get hp a) OR flags \<rparr>) hp)"

definition auth_items_clear_flags :: "items_heap \<Rightarrow> auth_items \<Rightarrow> string \<Rightarrow> 32 word \<Rightarrow> items_heap" where
  "auth_items_clear_flags hp items key flags =
     (case find_item items key of
        None \<Rightarrow> hp
      | Some a \<Rightarrow> hp_set a ((hp_get hp a)\<lparr> ai_flags := ai_flags (hp_get hp a) AND NOT flags \<rparr>) hp)"

definition auth_items_get_flags :: "items_heap \<Rightarrow> auth_items \<Rightarrow> string \<Rightarrow> 32 word" where
  "auth_items_get_flags hp items key =
     (case find_item items key of None \<Rightarrow> 0 | Some a \<Rightarrow> ai_flags (hp_get hp a))"

definition auth_items_check_flags :: "items_heap \<Rightarrow> auth_items \<Rightarrow> string \<Rightarrow> 32 word \<Rightarrow> bool" where
  "auth_items_check_flags hp items key flags =
     (let current = auth_items_get_flags hp items key
      in if flags \<noteq> 0 then (current AND flags) \<noteq> 0 else current = 0)"

definition auth_items_set_key :: "items_heap \<Rightarrow> auth_items \<Rightarrow> string \<Rightarrow> items_heap \<times> auth_items" where
  "auth_items_set_key hp items key =
     (if find_item items key = None
      then items_add_new hp items (auth_item_create AI_TYPE_RIGHT (Some key) None 0 0)
      else (hp, items))"

definition auth_items_exist :: "auth_items \<Rightarrow> string \<Rightarrow> bool" where
  "auth_items_exist items key \<longleftrightarrow> find_item items key \<noteq> None"

definition auth_items_remove :: "auth_items \<Rightarrow> string \<Rightarrow> auth_items" where
  "auth_items_remove items key = AList.delete key items"

definition auth_items_remove_with_flags :: "items_heap \<Rightarrow> auth_items \<Rightarrow> 32 word \<Rightarrow> auth_items" where
  "auth_items_remove_with_flags hp items flags =
     snd (auth_items_iterate hp items
       (\<lambda>key its. (True, if auth_items_check_flags hp its key flags then auth_items_remove its key else its))
       items)"

definition auth_items_clear :: "auth_items \<Rightarrow> auth_items" where
  "auth_items_clear items = []"

subsection \<open>Encryption and copies\<close>

definition auth_items_crypt_worker ::
  "(auth_item \<Rightarrow> bool \<times> auth_item) \<Rightarrow> items_heap \<Rightarrow> auth_items \<Rightarrow> items_heap" where
  "auth_items_crypt_worker f hp items =
     snd (auth_items_iterate hp items
       (\<lambda>key h. (True, case find_item items key of
           None \<Rightarrow> hp_check False h
         | Some a \<Rightarrow> hp_set a (snd (f (hp_get h a))) h)) hp)"

definition auth_items_encrypt :: "cccrypt \<Rightarrow> items_heap \<Rightarrow> auth_items \<Rightarrow> string option \<Rightarrow> items_heap" where
  "auth_items_encrypt cc hp items key = auth_items_crypt_worker (\<lambda>i. auth_item_encrypt cc i key) hp items"

definition auth_items_decrypt :: "cccrypt \<Rightarrow> items_heap \<Rightarrow> auth_items \<Rightarrow> string option \<Rightarrow> items_heap" where
  "auth_items_decrypt cc hp items key = auth_items_crypt_worker (\<lambda>i. auth_item_decrypt cc i key) hp items"

definition auth_items_copy :: "items_heap \<Rightarrow> auth_items \<Rightarrow> auth_items \<Rightarrow> auth_items" where
  "auth_items_copy hp items src =
     snd (auth_items_iterate hp src
       (\<lambda>key its. (True, case find_item src key of None \<Rightarrow> its | Some a \<Rightarrow> auth_items_add_item hp its a))
       items)"

definition items_clone :: "auth_item \<Rightarrow> auth_item option" where
  "items_clone item = auth_item_create (ai_type item) (Some (ai_name item)) (ai_value item)
     (ai_valueLength item) (ai_flags item)"

definition auth_items_content_copy ::
  "items_heap \<Rightarrow> auth_items \<Rightarrow> auth_items \<Rightarrow> items_heap \<times> auth_items" where
  "auth_items_content_copy hp items src =
     snd (auth_items_iterate hp src
       (\<lambda>key (h, its). (True, case find_item src key of
            None \<Rightarrow> (hp_check False h, its)
          | Some a \<Rightarrow> items_add_new h its (items_clone (hp_get h a))))
       (hp, items))"

definition auth_items_copy_with_flags :: "items_heap \<Rightarrow> auth_items \<Rightarrow> auth_items \<Rightarrow> 32 word \<Rightarrow> auth_items" where
  "auth_items_copy_with_flags hp items src flags =
     snd (auth_items_iterate hp src
       (\<lambda>key its. (True,
          if auth_items_check_flags hp src key flags then
            let its1 = (if find_item its key \<noteq> None then AList.delete key its else its)
            in case find_item src key of None \<Rightarrow> its1 | Some a \<Rightarrow> auth_items_add_item hp its1 a
          else its))
       items)"

definition auth_items_content_copy_with_flags ::
  "items_heap \<Rightarrow> auth_items \<Rightarrow> auth_items \<Rightarrow> 32 word \<Rightarrow> items_heap \<times> auth_items" where
  "auth_items_content_copy_with_flags hp items src flags =
     snd (auth_items_iterate hp src
       (\<lambda>key (h, its). (True,
          if auth_items_check_flags h src key flags then
            (case find_item src key of
               None \<Rightarrow> (hp_check False h, its)
             | Some a \<Rightarrow> items_add_new h its (items_clone (hp_get h a)))
          else (h, its)))
       (hp, items))"

subsection \<open>Strings and data\<close>

definition auth_items_set_string ::
  "items_heap \<Rightarrow> auth_items \<Rightarrow> string \<Rightarrow> string \<Rightarrow> items_heap \<times> auth_items" where
  "auth_items_set_string hp items key val =
     (let create = items_add_new hp items (auth_item_create AI_TYPE_STRING (Some key) (Some val) (length val) 0)
      in case find_item items key of
        None \<Rightarrow> create
      | Some a \<Rightarrow>
          let item = hp_get hp a
          in if ai_type item = AI_TYPE_STRING \<and> length val < ai_bufLen item then
               (hp_check (buf_fits (val @ [NUL]) (ai_value item))
                  (hp_set a (item\<lparr> ai_value := buf_write (val @ [NUL]) (ai_value item),
                                   ai_valueLength := length val \<rparr>) hp), items)
             else create)"

definition auth_items_get_string :: "items_heap \<Rightarrow> auth_items \<Rightarrow> string \<Rightarrow> string option \<times> items_heap" where
  "auth_items_get_string hp items key =
     (case find_item items key of
        None \<Rightarrow> (None, hp)
      | Some a \<Rightarrow>
          (case auth_item_get_string (hp_get hp a) of
             (item', s, ok) \<Rightarrow> (s, hp_check ok (hp_set a item' hp))))"

definition auth_items_set_data ::
  "items_heap \<Rightarrow> auth_items \<Rightarrow> string \<Rightarrow> string \<Rightarrow> items_heap \<times> auth_items" where
  "auth_items_set_data hp items key val =
     (if val = [] then (hp, items)
      else let create = items_add_new hp items (auth_item_create AI_TYPE_DATA (Some key) (Some val) (length val) 0)
      in case find_item items key of
        None \<Rightarrow> create
      | Some a \<Rightarrow>
          let item = hp_get hp a
          in if ai_type item = AI_TYPE_DATA \<and> length val \<le> ai_bufLen item then
               (hp_check (buf_fits val (ai_value item))
                  (hp_set a (item\<lparr> ai_value := buf_write val (ai_value item),
                                   ai_valueLength := length val \<rparr>) hp), items)
             else create)"

text \<open>The getters of data return the pointer with its length: \<^term>\<open>None\<close> when there is no item.\<close>

definition auth_items_get_data :: "items_heap \<Rightarrow> auth_items \<Rightarrow> string \<Rightarrow> (string option \<times> nat) option" where
  "auth_items_get_data hp items key =
     (case find_item items key of
        None \<Rightarrow> None
      | Some a \<Rightarrow> (let item = hp_get hp a
                  in Some (map_option (take (ai_valueLength item)) (ai_value item), ai_valueLength item)))"

definition auth_items_get_data_with_flags ::
  "items_heap \<Rightarrow> auth_items \<Rightarrow> string \<Rightarrow> 32 word \<Rightarrow> (string option \<times> nat) option" where
  "auth_items_get_data_with_flags hp items key flags =
     (case find_item items key of
        None \<Rightarrow> None
      | Some a \<Rightarrow> (let item = hp_get hp a
                  in if ai_flags item AND flags = flags
                     then Some (map_option (take (ai_valueLength item)) (ai_value item), ai_valueLength item)
                     else None))"

subsection \<open>Scalars\<close>

text \<open>The setters and getters of scalars differ in their type, their width, the reading of a string
  item and the reading of the bytes.  A setter writes in place into an item of its own type, whatever
  the size of that item's buffer.\<close>

definition auth_items_set_scalar ::
  "32 word \<Rightarrow> string \<Rightarrow> items_heap \<Rightarrow> auth_items \<Rightarrow> string \<Rightarrow> items_heap \<times> auth_items" where
  "auth_items_set_scalar type bytes hp items key =
     (let create = items_add_new hp items (auth_item_create type (Some key) (Some bytes) (length bytes) 0)
      in case find_item items key of
        None \<Rightarrow> create
      | Some a \<Rightarrow>
          let item = hp_get hp a
          in if ai_type item = type then
               (hp_check (buf_fits bytes (ai_value item))
                  (hp_set a (item\<lparr> ai_value := buf_write bytes (ai_value item) \<rparr>) hp), items)
             else create)"

definition auth_items_get_scalar ::
  "(string \<Rightarrow> 'v) \<Rightarrow> nat \<Rightarrow> (string \<Rightarrow> 'v) \<Rightarrow> 'v \<Rightarrow> items_heap \<Rightarrow> auth_items \<Rightarrow> string \<Rightarrow> 'v \<times> items_heap" where
  "auth_items_get_scalar of_string width decode dflt hp items key =
     (case find_item items key of
        None \<Rightarrow> (dflt, hp)
      | Some a \<Rightarrow>
          let item = hp_get hp a
          in if ai_type item = AI_TYPE_STRING then
               (case auth_items_get_string hp items key of
                  (s, hp') \<Rightarrow> (case s of None \<Rightarrow> (dflt, hp_check False hp') | Some s \<Rightarrow> (of_string s, hp')))
             else (case ai_value item of
                     None \<Rightarrow> (dflt, hp)
                   | Some v \<Rightarrow> (if ai_valueLength item = width then (decode (take width v), hp) else (dflt, hp))))"

definition bool_bytes :: "bool \<Rightarrow> string" where
  "bool_bytes b = [if b then CHR 0x01 else NUL]"

definition bool_of_bytes :: "string \<Rightarrow> bool" where
  "bool_of_bytes bs \<longleftrightarrow> le_val bs \<noteq> 0"

definition auth_items_set_bool :: "items_heap \<Rightarrow> auth_items \<Rightarrow> string \<Rightarrow> bool \<Rightarrow> items_heap \<times> auth_items" where
  "auth_items_set_bool hp items key v = auth_items_set_scalar AI_TYPE_BOOL (bool_bytes v) hp items key"

definition auth_items_get_bool :: "items_heap \<Rightarrow> auth_items \<Rightarrow> string \<Rightarrow> bool \<times> items_heap" where
  "auth_items_get_bool hp items key =
     auth_items_get_scalar (\<lambda>s. atoi s \<noteq> 0) 1 bool_of_bytes False hp items key"

definition auth_items_set_int :: "items_heap \<Rightarrow> auth_items \<Rightarrow> string \<Rightarrow> 32 word \<Rightarrow> items_heap \<times> auth_items" where
  "auth_items_set_int hp items key v = auth_items_set_scalar AI_TYPE_INT (le_bytes 4 (unat v)) hp items key"

definition auth_items_get_int :: "items_heap \<Rightarrow> auth_items \<Rightarrow> string \<Rightarrow> 32 word \<times> items_heap" where
  "auth_items_get_int hp items key =
     auth_items_get_scalar atoi 4 (\<lambda>bs. of_nat (le_val bs)) 0 hp items key"

definition auth_items_set_uint :: "items_heap \<Rightarrow> auth_items \<Rightarrow> string \<Rightarrow> 32 word \<Rightarrow> items_heap \<times> auth_items" where
  "auth_items_set_uint hp items key v = auth_items_set_scalar AI_TYPE_UINT (le_bytes 4 (unat v)) hp items key"

definition auth_items_get_uint :: "items_heap \<Rightarrow> auth_items \<Rightarrow> string \<Rightarrow> 32 word \<times> items_heap" where
  "auth_items_get_uint hp items key =
     auth_items_get_scalar atoi 4 (\<lambda>bs. of_nat (le_val bs)) 0 hp items key"

definition auth_items_set_int64 :: "items_heap \<Rightarrow> auth_items \<Rightarrow> string \<Rightarrow> 64 word \<Rightarrow> items_heap \<times> auth_items" where
  "auth_items_set_int64 hp items key v = auth_items_set_scalar AI_TYPE_INT64 (le_bytes 8 (unat v)) hp items key"

definition auth_items_get_int64 :: "items_heap \<Rightarrow> auth_items \<Rightarrow> string \<Rightarrow> 64 word \<times> items_heap" where
  "auth_items_get_int64 hp items key =
     auth_items_get_scalar atoll 8 (\<lambda>bs. of_nat (le_val bs)) 0 hp items key"

definition auth_items_set_uint64 :: "items_heap \<Rightarrow> auth_items \<Rightarrow> string \<Rightarrow> 64 word \<Rightarrow> items_heap \<times> auth_items" where
  "auth_items_set_uint64 hp items key v = auth_items_set_scalar AI_TYPE_UINT64 (le_bytes 8 (unat v)) hp items key"

definition auth_items_get_uint64 :: "items_heap \<Rightarrow> auth_items \<Rightarrow> string \<Rightarrow> 64 word \<times> items_heap" where
  "auth_items_get_uint64 hp items key =
     auth_items_get_scalar atoll 8 (\<lambda>bs. of_nat (le_val bs)) 0 hp items key"

definition auth_items_set_double :: "items_heap \<Rightarrow> auth_items \<Rightarrow> string \<Rightarrow> 64 word \<Rightarrow> items_heap \<times> auth_items" where
  "auth_items_set_double hp items key v = auth_items_set_scalar AI_TYPE_DOUBLE (le_bytes 8 (unat v)) hp items key"

definition auth_items_get_double ::
  "(string \<Rightarrow> 64 word) \<Rightarrow> items_heap \<Rightarrow> auth_items \<Rightarrow> string \<Rightarrow> 64 word \<times> items_heap" where
  "auth_items_get_double atof hp items key =
     auth_items_get_scalar atof 8 (\<lambda>bs. of_nat (le_val bs)) 0 hp items key"

definition auth_items_get_type :: "items_heap \<Rightarrow> auth_items \<Rightarrow> string \<Rightarrow> 32 word" where
  "auth_items_get_type hp items key =
     (case find_item items key of None \<Rightarrow> AI_TYPE_UNKNOWN | Some a \<Rightarrow> ai_type (hp_get hp a))"

definition auth_items_get_length :: "items_heap \<Rightarrow> auth_items \<Rightarrow> string \<Rightarrow> nat" where
  "auth_items_get_length hp items key =
     (case find_item items key of None \<Rightarrow> 0 | Some a \<Rightarrow> ai_valueLength (hp_get hp a))"

definition auth_items_set_value ::
  "items_heap \<Rightarrow> auth_items \<Rightarrow> string \<Rightarrow> 32 word \<Rightarrow> 32 word \<Rightarrow> string option \<Rightarrow> nat \<Rightarrow> items_heap \<times> auth_items" where
  "auth_items_set_value hp items key type flags val len =
     items_add_new hp items (auth_item_create type (Some key) val len flags)"

section \<open>Ordered rights\<close>

text \<open>\<^verbatim>\<open>auth_rights_t\<close> owns its items, so it is the list of them.\<close>

type_synonym auth_rights = "auth_item list"

definition auth_rights_create :: auth_rights where
  "auth_rights_create = []"

fun parse_xpc_rights :: "xpc list \<Rightarrow> auth_rights \<times> xpc list" where
  "parse_xpc_rights [] = ([], [])"
| "parse_xpc_rights (v # vs) =
     (let (item, v') = auth_item_create_with_xpc v;
          (rights, vs') = parse_xpc_rights vs
      in ((case item of None \<Rightarrow> rights | Some i \<Rightarrow> i # rights), v' # vs'))"

definition auth_rights_create_with_xpc :: "xpc option \<Rightarrow> auth_rights \<times> xpc option" where
  "auth_rights_create_with_xpc data =
     (case data of
        Some (XPC_Array vs) \<Rightarrow> (case parse_xpc_rights vs of (rights, vs') \<Rightarrow> (rights, Some (XPC_Array vs')))
      | _ \<Rightarrow> (auth_rights_create, data))"

definition auth_rights_export_xpc :: "auth_rights \<Rightarrow> xpc" where
  "auth_rights_export_xpc rights = XPC_Array (map auth_item_copy_auth_item_xpc rights)"

fun find_right_item :: "auth_rights \<Rightarrow> string \<Rightarrow> auth_item option" where
  "find_right_item [] key = None"
| "find_right_item (tmp # rights) key = (if ai_name tmp = key then Some tmp else find_right_item rights key)"

text \<open>An update of the item that \<^verbatim>\<open>_find_right_item\<close> returns.\<close>

fun update_right_item :: "(auth_item \<Rightarrow> auth_item) \<Rightarrow> auth_rights \<Rightarrow> string \<Rightarrow> auth_rights" where
  "update_right_item f [] key = []"
| "update_right_item f (tmp # rights) key =
     (if ai_name tmp = key then f tmp # rights else tmp # update_right_item f rights key)"

definition auth_rights_set_flags :: "auth_rights \<Rightarrow> string \<Rightarrow> 32 word \<Rightarrow> auth_rights" where
  "auth_rights_set_flags rights key flags = update_right_item (\<lambda>i. i\<lparr> ai_flags := ai_flags i OR flags \<rparr>) rights key"

definition auth_rights_clear_flags :: "auth_rights \<Rightarrow> string \<Rightarrow> 32 word \<Rightarrow> auth_rights" where
  "auth_rights_clear_flags rights key flags = update_right_item (\<lambda>i. i\<lparr> ai_flags := ai_flags i AND NOT flags \<rparr>) rights key"

definition auth_rights_get_flags :: "auth_rights \<Rightarrow> string \<Rightarrow> 32 word" where
  "auth_rights_get_flags rights key = (case find_right_item rights key of None \<Rightarrow> 0 | Some i \<Rightarrow> ai_flags i)"

definition auth_rights_check_flags :: "auth_rights \<Rightarrow> string \<Rightarrow> 32 word \<Rightarrow> bool" where
  "auth_rights_check_flags rights key flags =
     (let current = auth_rights_get_flags rights key
      in if flags \<noteq> 0 then (current AND flags) \<noteq> 0 else current = 0)"

definition auth_rights_get_count :: "auth_rights \<Rightarrow> nat" where
  "auth_rights_get_count rights = length rights"

definition auth_rights_add :: "auth_rights \<Rightarrow> string \<Rightarrow> auth_rights" where
  "auth_rights_add rights key =
     (case auth_item_create AI_TYPE_RIGHT (Some key) None 0 0 of None \<Rightarrow> rights | Some i \<Rightarrow> rights @ [i])"

definition auth_rights_exist :: "auth_rights \<Rightarrow> string \<Rightarrow> bool" where
  "auth_rights_exist rights key \<longleftrightarrow> find_right_item rights key \<noteq> None"

text \<open>The loop of \<^verbatim>\<open>auth_rights_remove\<close>: the index stays where it is after a removal.\<close>

fun auth_rights_remove_loop :: "nat \<Rightarrow> nat \<Rightarrow> auth_rights \<Rightarrow> string \<Rightarrow> auth_rights" where
  "auth_rights_remove_loop 0 i rights key = rights"
| "auth_rights_remove_loop (Suc n) i rights key =
     (if ai_name (rights ! i) = key
      then auth_rights_remove_loop n i (take i rights @ drop (Suc i) rights) key
      else auth_rights_remove_loop n (Suc i) rights key)"

definition auth_rights_remove :: "auth_rights \<Rightarrow> string \<Rightarrow> auth_rights" where
  "auth_rights_remove rights key = auth_rights_remove_loop (length rights) 0 rights key"

definition auth_rights_clear :: "auth_rights \<Rightarrow> auth_rights" where
  "auth_rights_clear rights = []"

definition auth_rights_iterate :: "auth_rights \<Rightarrow> (string \<Rightarrow> 's \<Rightarrow> bool \<times> 's) \<Rightarrow> 's \<Rightarrow> bool \<times> 's" where
  "auth_rights_iterate rights iter s = cf_iterate iter (map ai_name rights) False s"

end
