(* ===== verification/Auth_Items_Laws.thy ===== *)
theory Auth_Items_Laws
  imports Auth_Items
begin

text \<open>
  What the operations of \<^verbatim>\<open>Auth_Items\<close> promise: the invariant of a dictionary over the store and
  its preservation, which copies share items and which do not, selection by flags, the round trips
  of scalars, strings, XPC messages and encryption, and the one family of writes that can leave a
  buffer.
\<close>

unbundle bit_operations_syntax

section \<open>The invariant of a dictionary\<close>

text \<open>Keys are distinct, addresses exist, and an item is stored under its own name.\<close>

definition items_wf :: "items_heap \<Rightarrow> auth_items \<Rightarrow> bool" where
  "items_wf hp items \<longleftrightarrow> distinct (map fst items) \<and>
     (\<forall>(k, a)\<in>set items. a < hp_next hp \<and> ai_name (hp_get hp a) = k)"

lemma items_wf_Nil [simp]: "items_wf hp []"
  by (simp add: items_wf_def)

lemma items_wfD: "items_wf hp items \<Longrightarrow> find_item items k = Some a \<Longrightarrow> a < hp_next hp \<and> ai_name (hp_get hp a) = k"
  unfolding items_wf_def find_item_def by (auto dest!: map_of_SomeD)

lemma items_wf_distinct: "items_wf hp items \<Longrightarrow> distinct (map fst items)"
  by (simp add: items_wf_def)

lemma items_wfI:
  "distinct (map fst items) \<Longrightarrow>
   (\<And>k a. find_item items k = Some a \<Longrightarrow> a < hp_next hp \<and> ai_name (hp_get hp a) = k) \<Longrightarrow> items_wf hp items"
  unfolding items_wf_def find_item_def by (auto simp: split_def)

lemma items_wf_name: "items_wf hp items \<Longrightarrow> (k, a) \<in> set items \<Longrightarrow> ai_name (hp_get hp a) = k"
  unfolding items_wf_def by auto

lemma items_names_wf: "items_wf hp items \<Longrightarrow> items_names hp items = map fst items"
  unfolding items_wf_def items_names_def by auto

lemma find_item_iff: "distinct (map fst items) \<Longrightarrow> find_item items k = Some a \<longleftrightarrow> (k, a) \<in> set items"
  by (simp add: find_item_def)

lemma find_item_update [simp]:
  "find_item (AList.update k a items) k' = (if k' = k then Some a else find_item items k')"
  by (simp add: find_item_def)

lemma find_item_delete [simp]:
  "find_item (AList.delete k items) k' = (if k' = k then None else find_item items k')"
  by (simp add: find_item_def)

lemma find_item_None_iff: "find_item items k = None \<longleftrightarrow> k \<notin> fst ` set items"
  by (simp add: find_item_def map_of_eq_None_iff)

text \<open>The store grows: old items keep their names and stay where they are.\<close>

definition hp_keeps :: "items_heap \<Rightarrow> items_heap \<Rightarrow> bool" where
  "hp_keeps hp hp' \<longleftrightarrow> hp_next hp \<le> hp_next hp' \<and> (\<forall>a < hp_next hp. ai_name (hp_get hp' a) = ai_name (hp_get hp a))"

lemma hp_keeps_refl [simp]: "hp_keeps hp hp"
  by (simp add: hp_keeps_def)

lemma hp_keeps_trans: "hp_keeps h1 h2 \<Longrightarrow> hp_keeps h2 h3 \<Longrightarrow> hp_keeps h1 h3"
  unfolding hp_keeps_def by (metis le_trans order_less_le_trans)

lemma hp_keeps_alloc [simp]: "hp_keeps hp (hp_alloc i hp)"
  by (simp add: hp_keeps_def)

lemma hp_keeps_check [simp]: "hp_keeps hp (hp_check ok hp)"
  by (simp add: hp_keeps_def)

lemma hp_keeps_check_right [simp]: "hp_keeps hp (hp_check ok hp') = hp_keeps hp hp'"
  by (simp add: hp_keeps_def)

lemma hp_keeps_set:
  "a < hp_next hp \<Longrightarrow> ai_name i = ai_name (hp_get hp a) \<Longrightarrow> hp_keeps hp (hp_set a i hp)"
  by (simp add: hp_keeps_def)

lemma items_wf_keeps: "items_wf hp items \<Longrightarrow> hp_keeps hp hp' \<Longrightarrow> items_wf hp' items"
  unfolding items_wf_def hp_keeps_def by force

lemma items_find_set_wf:
  assumes "items_wf hp items" "find_item items k = Some a" "ai_name i = ai_name (hp_get hp a)"
  shows "items_wf (hp_check ok (hp_set a i hp)) items" "hp_keeps hp (hp_set a i hp)"
proof -
  show "hp_keeps hp (hp_set a i hp)"
    using items_wfD [OF assms(1,2)] assms(3) by (simp add: hp_keeps_set)
  then show "items_wf (hp_check ok (hp_set a i hp)) items"
    by (intro items_wf_keeps [OF assms(1)]) simp
qed

lemma items_wf_update:
  assumes "items_wf hp items" "a < hp_next hp" "ai_name (hp_get hp a) = k"
  shows "items_wf hp (AList.update k a items)"
proof (rule items_wfI)
  show "distinct (map fst (AList.update k a items))"
    using assms by (simp add: distinct_update items_wf_def)
  show "a' < hp_next hp \<and> ai_name (hp_get hp a') = k'" if "find_item (AList.update k a items) k' = Some a'" for k' a'
    using that assms by (auto split: if_splits dest: items_wfD)
qed

lemma items_wf_delete:
  assumes "items_wf hp items"
  shows "items_wf hp (AList.delete k items)"
proof (rule items_wfI)
  show "distinct (map fst (AList.delete k items))"
    using assms by (simp add: distinct_delete items_wf_def)
  show "a' < hp_next hp \<and> ai_name (hp_get hp a') = k'" if "find_item (AList.delete k items) k' = Some a'" for k' a'
    using that assms by (auto split: if_splits dest: items_wfD)
qed

lemma items_wf_add_item:
  "items_wf hp items \<Longrightarrow> a < hp_next hp \<Longrightarrow> items_wf hp (auth_items_add_item hp items a)"
  by (simp add: auth_items_add_item_def items_wf_update)

lemma items_add_new_wf:
  assumes "items_wf hp items" "items_add_new hp items i = (hp', items')"
  shows "items_wf hp' items' \<and> hp_keeps hp hp'"
proof (cases i)
  case None
  with assms show ?thesis by (simp add: items_add_new_def)
next
  case (Some item)
  have "items_wf (hp_alloc item hp) items"
    by (rule items_wf_keeps [OF assms(1)]) simp
  then show ?thesis
    using assms(2) Some by (auto simp: items_add_new_def intro: items_wf_add_item)
qed

lemma fold_invariant:
  "P s \<Longrightarrow> (\<And>x s. x \<in> set xs \<Longrightarrow> P s \<Longrightarrow> P (f x s)) \<Longrightarrow> P (fold f xs s)"
  by (induction xs arbitrary: s) auto

section \<open>Every operation keeps the invariant\<close>

lemma auth_items_iterate_fold:
  "snd (auth_items_iterate hp items (\<lambda>k s. (True, f k s)) s) = fold f (items_names hp items) s"
  by (simp add: auth_items_iterate_def cf_iterate_all)

lemma auth_items_set_flags_keeps:
  "items_wf hp items \<Longrightarrow> hp_keeps hp (auth_items_set_flags hp items key flags)"
  by (auto simp: auth_items_set_flags_def hp_keeps_set split: option.split dest: items_wfD)

lemma auth_items_clear_flags_keeps:
  "items_wf hp items \<Longrightarrow> hp_keeps hp (auth_items_clear_flags hp items key flags)"
  by (auto simp: auth_items_clear_flags_def hp_keeps_set split: option.split dest: items_wfD)

lemma item_with_nul_name [simp]:
  "ai_name (item_with_nul i) = ai_name i" "ai_flags (item_with_nul i) = ai_flags i"
  "ai_type (item_with_nul i) = ai_type i" "ai_valueLength (item_with_nul i) = ai_valueLength i"
  by (simp_all add: item_with_nul_def Let_def)

lemma auth_items_get_string_keeps:
  "items_wf hp items \<Longrightarrow> hp_keeps hp (snd (auth_items_get_string hp items key))"
  by (auto simp: auth_items_get_string_def auth_item_get_string_def Let_def hp_keeps_set
      split: option.split dest: items_wfD)

lemma auth_items_set_string_wf:
  assumes "items_wf hp items" "auth_items_set_string hp items key v = (hp', items')"
  shows "items_wf hp' items' \<and> hp_keeps hp hp'"
  using assms(2) items_add_new_wf [OF assms(1)] items_find_set_wf [OF assms(1)] assms(1)
  by (auto simp: auth_items_set_string_def Let_def split: option.splits if_splits)

lemma auth_items_set_data_wf:
  assumes "items_wf hp items" "auth_items_set_data hp items key v = (hp', items')"
  shows "items_wf hp' items' \<and> hp_keeps hp hp'"
  using assms(2) items_add_new_wf [OF assms(1)] items_find_set_wf [OF assms(1)] assms(1)
  by (auto simp: auth_items_set_data_def Let_def split: option.splits if_splits)

lemma auth_items_set_scalar_wf:
  assumes "items_wf hp items" "auth_items_set_scalar t bs hp items key = (hp', items')"
  shows "items_wf hp' items' \<and> hp_keeps hp hp'"
  using assms(2) items_add_new_wf [OF assms(1)] items_find_set_wf [OF assms(1)] assms(1)
  by (auto simp: auth_items_set_scalar_def Let_def split: option.splits if_splits)

lemma auth_items_copy_fold:
  assumes "items_wf hp src"
  shows "auth_items_copy hp items src = fold (\<lambda>(k, a). AList.update k a) src items"
proof -
  have "fold (\<lambda>key its. case find_item src key of None \<Rightarrow> its | Some a \<Rightarrow> auth_items_add_item hp its a)
          (map fst xs) items = fold (\<lambda>(k, a). AList.update k a) xs items" if "set xs \<subseteq> set src" for xs
    using that
  proof (induction xs arbitrary: items)
    case Nil
    then show ?case by simp
  next
    case (Cons x xs)
    obtain k a where x: "x = (k, a)" by (cases x)
    then have "find_item src k = Some a"
      using Cons.prems assms by (simp add: find_item_iff items_wf_distinct)
    with items_wfD [OF assms this] Cons x show ?case
      by (simp add: auth_items_add_item_def)
  qed
  then show ?thesis
    using assms by (simp add: auth_items_copy_def auth_items_iterate_fold items_names_wf)
qed

lemma map_of_fold_update:
  "distinct (map fst src) \<Longrightarrow> map_of (fold (\<lambda>(k, a). AList.update k a) src items) = map_of items ++ map_of src"
proof (induction src arbitrary: items)
  case Nil
  then show ?case by simp
next
  case (Cons x src)
  obtain k a where x: "x = (k, a)" by (cases x)
  have "map_of src k = None"
    using Cons.prems x by (simp add: map_of_eq_None_iff)
  then show ?case
    using Cons x by (auto simp: map_add_def fun_eq_iff split: option.splits)
qed

lemma auth_items_copy_find:
  "items_wf hp src \<Longrightarrow> find_item (auth_items_copy hp items src) k =
     (case find_item src k of Some a \<Rightarrow> Some a | None \<Rightarrow> find_item items k)"
  using items_wf_distinct [of hp src]
  by (simp add: auth_items_copy_fold find_item_def map_of_fold_update map_add_def split: option.split)

lemma auth_items_copy_wf:
  assumes "items_wf hp items" "items_wf hp src"
  shows "items_wf hp (auth_items_copy hp items src)"
proof (rule items_wfI)
  have "distinct (map fst (fold (\<lambda>(k, a). AList.update k a) src items))"
    using assms(1)
    by (intro fold_invariant [where P = "\<lambda>s. distinct (map fst s)"]) (auto simp: distinct_update items_wf_def)
  then show "distinct (map fst (auth_items_copy hp items src))"
    by (simp add: auth_items_copy_fold assms(2))
  show "a < hp_next hp \<and> ai_name (hp_get hp a) = k" if "find_item (auth_items_copy hp items src) k = Some a" for k a
    using that assms by (auto simp: auth_items_copy_find split: option.splits dest: items_wfD)
qed

section \<open>Deep copies\<close>

text \<open>The part of an item that a copy takes: the believed buffer size and the bytes after the value
  are not part of it.\<close>

definition item_content :: "auth_item \<Rightarrow> string \<times> 32 word \<times> 32 word \<times> nat \<times> string option" where
  "item_content i = (ai_name i, ai_type i, ai_flags i, ai_valueLength i,
     (case ai_value i of None \<Rightarrow> None
      | Some v \<Rightarrow> if ai_valueLength i = 0 \<and> ai_type i \<noteq> AI_TYPE_STRING then None else Some (take (ai_valueLength i) v)))"

definition item_sized :: "auth_item \<Rightarrow> bool" where
  "item_sized i \<longleftrightarrow> (case ai_value i of None \<Rightarrow> True | Some v \<Rightarrow> ai_valueLength i \<le> length v)"

lemma items_clone_content:
  "item_sized i \<Longrightarrow> \<exists>j. items_clone i = Some j \<and> item_content j = item_content i"
  by (auto simp: items_clone_def auth_item_create_def item_content_def item_sized_def split: option.splits)

text \<open>A store extends another when it keeps its cells and its fault flag.\<close>

definition hp_extends :: "items_heap \<Rightarrow> items_heap \<Rightarrow> bool" where
  "hp_extends hp hp' \<longleftrightarrow> hp_next hp \<le> hp_next hp' \<and> hp_fault hp' = hp_fault hp \<and>
     (\<forall>a < hp_next hp. hp_get hp' a = hp_get hp a)"

lemma hp_extends_refl [simp]: "hp_extends hp hp"
  by (simp add: hp_extends_def)

lemma hp_extends_alloc: "hp_extends hp h \<Longrightarrow> hp_extends hp (hp_alloc i h)"
  by (simp add: hp_extends_def)

lemma hp_extends_get: "hp_extends hp h \<Longrightarrow> a < hp_next hp \<Longrightarrow> hp_get h a = hp_get hp a"
  by (simp add: hp_extends_def)

lemma hp_extends_keeps: "hp_extends hp h \<Longrightarrow> hp_keeps hp h"
  by (simp add: hp_extends_def hp_keeps_def)

text \<open>The relation that the loop of a deep copy keeps after the keys \<^term>\<open>done_keys\<close>: they lead to fresh
  items with the content of the source, the others to what the destination had.\<close>

definition deep_copied ::
  "items_heap \<Rightarrow> auth_items \<Rightarrow> auth_items \<Rightarrow> string set \<Rightarrow> items_heap \<times> auth_items \<Rightarrow> bool" where
  "deep_copied hp items src done_keys s \<longleftrightarrow>
     hp_extends hp (fst s) \<and> items_wf (fst s) (snd s) \<and>
     (\<forall>k. k \<notin> done_keys \<longrightarrow> find_item (snd s) k = find_item items k) \<and>
     (\<forall>k\<in>done_keys. \<exists>a b. find_item src k = Some a \<and> find_item (snd s) k = Some b \<and>
        hp_next hp \<le> b \<and> b < hp_next (fst s) \<and> item_content (hp_get (fst s) b) = item_content (hp_get hp a))"

lemma deep_copied_step:
  assumes "deep_copied hp items src K (h, its)" "items_wf hp src" "find_item src k = Some a"
    "item_sized (hp_get hp a)"
  shows "deep_copied hp items src (insert k K) (items_add_new h its (items_clone (hp_get h a)))"
proof -
  have a: "a < hp_next hp" "ai_name (hp_get hp a) = k"
    using items_wfD [OF assms(2,3)] by simp_all
  have ext: "hp_extends hp h"
    using assms(1) by (simp add: deep_copied_def)
  then have ha: "hp_get h a = hp_get hp a"
    using a by (simp add: hp_extends_get)
  then obtain j where j: "items_clone (hp_get h a) = Some j" "item_content j = item_content (hp_get hp a)"
    using items_clone_content [OF assms(4)] by auto
  then have name: "ai_name j = k"
    using a by (simp add: item_content_def)
  have le: "hp_next hp \<le> hp_next h"
    using ext by (simp add: hp_extends_def)
  have old: "hp_get (hp_alloc j h) b = hp_get h b" if "b < hp_next h" for b
    using that by simp
  have step: "items_add_new h its (items_clone (hp_get h a)) = (hp_alloc j h, AList.update k (hp_next h) its)"
    by (simp add: items_add_new_def j(1) auth_items_add_item_def name)
  have "items_wf (hp_alloc j h) (AList.update k (hp_next h) its)"
    using assms(1) items_wf_keeps [of h its "hp_alloc j h"] name
    by (intro items_wf_update) (simp_all add: deep_copied_def)
  then show ?thesis
    unfolding step using assms(1) ext le old j(2) assms(3)
    by (auto simp: deep_copied_def hp_extends_alloc)
qed

lemma deep_copied_fold:
  assumes "items_wf hp src" "items_wf hp items"
    "\<And>k a. find_item src k = Some a \<Longrightarrow> item_sized (hp_get hp a)"
    "\<And>k h its. k \<in> set ks \<Longrightarrow> hp_extends hp h \<Longrightarrow>
       f k (h, its) = (if P k then items_add_new h its (items_clone (hp_get h (the (find_item src k)))) else (h, its))"
    "set ks \<subseteq> fst ` set src"
  shows "deep_copied hp items src {k \<in> set ks. P k} (fold f ks (hp, items))"
  using assms(4,5)
proof (induction ks rule: rev_induct)
  case Nil
  then show ?case
    using assms(2) by (simp add: deep_copied_def)
next
  case (snoc k ks)
  obtain h its where s: "fold f ks (hp, items) = (h, its)"
    by (cases "fold f ks (hp, items)")
  have IH: "deep_copied hp items src {k \<in> set ks. P k} (h, its)"
    using snoc by (simp add: s [symmetric])
  then have ext: "hp_extends hp h"
    by (simp add: deep_copied_def)
  obtain a where a: "find_item src k = Some a"
    using snoc.prems(2) by (cases "find_item src k") (simp_all add: find_item_None_iff)
  show ?case
  proof (cases "P k")
    case True
    then have "{x \<in> set (ks @ [k]). P x} = insert k {x \<in> set ks. P x}"
      by auto
    then show ?thesis
      using deep_copied_step [OF IH assms(1) a] assms(3) [OF a] True snoc.prems(1) [of k h its] ext s a
      by simp
  next
    case False
    then have "{x \<in> set (ks @ [k]). P x} = {x \<in> set ks. P x}"
      by auto
    then show ?thesis
      using IH snoc.prems(1) [of k h its] ext s False by simp
  qed
qed

lemma auth_items_content_copy_deep:
  assumes "items_wf hp items" "items_wf hp src"
    "\<And>k a. find_item src k = Some a \<Longrightarrow> item_sized (hp_get hp a)"
  shows "deep_copied hp items src (fst ` set src) (auth_items_content_copy hp items src)"
proof -
  define f where "f = (\<lambda>key (h, its). case find_item src key of
      None \<Rightarrow> (hp_check False h, its)
    | Some a \<Rightarrow> items_add_new h its (items_clone (hp_get h a)))"
  have "deep_copied hp items src {k \<in> set (map fst src). True} (fold f (map fst src) (hp, items))"
  proof (rule deep_copied_fold [OF assms(2,1,3)])
    show "f k (h, its) = (if True then items_add_new h its (items_clone (hp_get h (the (find_item src k)))) else (h, its))"
      if "k \<in> set (map fst src)" for k h its
      using that by (cases "find_item src k") (auto simp: f_def find_item_None_iff)
  qed auto
  moreover have "auth_items_content_copy hp items src = fold f (map fst src) (hp, items)"
    using auth_items_iterate_fold [of hp src f "(hp, items)"] assms(2)
    by (simp add: auth_items_content_copy_def f_def items_names_wf split_def)
  ultimately show ?thesis by (simp add: image_def)
qed

lemma auth_items_content_copy_with_flags_deep:
  assumes "items_wf hp items" "items_wf hp src"
    "\<And>k a. find_item src k = Some a \<Longrightarrow> item_sized (hp_get hp a)"
  shows "deep_copied hp items src {k \<in> fst ` set src. auth_items_check_flags hp src k flags}
    (auth_items_content_copy_with_flags hp items src flags)"
proof -
  define f where "f = (\<lambda>key (h, its).
      if auth_items_check_flags h src key flags then
        (case find_item src key of
           None \<Rightarrow> (hp_check False h, its)
         | Some a \<Rightarrow> items_add_new h its (items_clone (hp_get h a)))
      else (h, its))"
  have "deep_copied hp items src {k \<in> set (map fst src). auth_items_check_flags hp src k flags}
      (fold f (map fst src) (hp, items))"
  proof (rule deep_copied_fold [OF assms(2,1,3)])
    show "f k (h, its) = (if auth_items_check_flags hp src k flags
        then items_add_new h its (items_clone (hp_get h (the (find_item src k)))) else (h, its))"
      if mem: "k \<in> set (map fst src)" and ext: "hp_extends hp h" for k h its
    proof -
      obtain a where a: "find_item src k = Some a"
        using mem by (cases "find_item src k") (auto simp: find_item_None_iff)
      have "auth_items_check_flags h src k flags = auth_items_check_flags hp src k flags"
        using a items_wfD [OF assms(2) a] ext
        by (simp add: auth_items_check_flags_def auth_items_get_flags_def hp_extends_get)
      with a show ?thesis by (simp add: f_def)
    qed
  qed auto
  moreover have "auth_items_content_copy_with_flags hp items src flags = fold f (map fst src) (hp, items)"
    using auth_items_iterate_fold [of hp src f "(hp, items)"] assms(2)
    by (simp add: auth_items_content_copy_with_flags_def f_def items_names_wf split_def)
  ultimately show ?thesis by simp
qed

section \<open>Selection by flags\<close>

lemma auth_items_copy_with_flags_find:
  assumes "items_wf hp src"
  shows "find_item (auth_items_copy_with_flags hp items src flags) k =
    (if find_item src k \<noteq> None \<and> auth_items_check_flags hp src k flags then find_item src k else find_item items k)"
proof -
  define f where "f = (\<lambda>key its.
      if auth_items_check_flags hp src key flags then
        let its1 = (if find_item its key \<noteq> None then AList.delete key its else its)
        in case find_item src key of None \<Rightarrow> its1 | Some a \<Rightarrow> auth_items_add_item hp its1 a
      else its)"
  have "find_item (fold f ks items) k =
      (if k \<in> set ks \<and> auth_items_check_flags hp src k flags then find_item src k else find_item items k)"
    if "set ks \<subseteq> fst ` set src" for ks
    using that
  proof (induction ks rule: rev_induct)
    case Nil
    then show ?case by simp
  next
    case (snoc x ks)
    obtain a where a: "find_item src x = Some a"
      using snoc.prems by (cases "find_item src x") (auto simp: find_item_None_iff)
    have "find_item (f x its) k = (if k = x \<and> auth_items_check_flags hp src x flags then Some a else find_item its k)" for its
      using a items_wfD [OF assms a] by (auto simp: f_def Let_def auth_items_add_item_def)
    with snoc a show ?case by auto
  qed
  moreover have "auth_items_copy_with_flags hp items src flags = fold f (map fst src) items"
    by (simp add: auth_items_copy_with_flags_def auth_items_iterate_fold items_names_wf [OF assms] f_def)
  moreover have "k \<in> fst ` set src \<longleftrightarrow> find_item src k \<noteq> None"
    by (auto simp: find_item_None_iff)
  ultimately show ?thesis by simp
qed

lemma auth_items_remove_with_flags_find:
  assumes "items_wf hp items"
  shows "find_item (auth_items_remove_with_flags hp items flags) k =
    (if auth_items_check_flags hp items k flags then None else find_item items k)"
proof -
  define f where "f = (\<lambda>key its. if auth_items_check_flags hp its key flags then auth_items_remove its key else its)"
  have "find_item (fold f ks items) k =
      (if k \<in> set ks \<and> auth_items_check_flags hp items k flags then None else find_item items k)"
    if "distinct ks" for ks
    using that
  proof (induction ks arbitrary: k rule: rev_induct)
    case Nil
    then show ?case by simp
  next
    case (snoc x ks)
    have "find_item (fold f ks items) x = find_item items x"
      using snoc by simp
    then have "auth_items_check_flags hp (fold f ks items) x flags = auth_items_check_flags hp items x flags"
      by (simp add: auth_items_check_flags_def auth_items_get_flags_def)
    with snoc show ?case by (auto simp: f_def auth_items_remove_def)
  qed
  from this [of "map fst items"] have "find_item (fold f (map fst items) items) k =
      (if k \<in> fst ` set items \<and> auth_items_check_flags hp items k flags then None else find_item items k)"
    using assms by (simp add: items_wf_distinct)
  moreover have "auth_items_remove_with_flags hp items flags = fold f (map fst items) items"
    by (simp add: auth_items_remove_with_flags_def auth_items_iterate_fold items_names_wf [OF assms] f_def)
  moreover have "k \<notin> fst ` set items \<longleftrightarrow> find_item items k = None"
    by (simp add: find_item_None_iff)
  ultimately show ?thesis by auto
qed

section \<open>Scalars\<close>

text \<open>What the setter and the getter of one scalar type rely on: an encoding of fixed width and its
  inverse.  The laws of the pair follow for every instance.\<close>

locale scalar_codec =
  fixes ty :: "32 word"
    and width :: nat
    and encode :: "'v \<Rightarrow> string"
    and decode :: "string \<Rightarrow> 'v"
    and of_string :: "string \<Rightarrow> 'v"
    and dflt :: 'v
  assumes encode_length: "length (encode v) = width"
    and decode_encode: "decode (encode v) = v"
    and not_string: "ty \<noteq> AI_TYPE_STRING"
    and width_pos: "0 < width"
begin

definition sized_for :: "items_heap \<Rightarrow> auth_items \<Rightarrow> string \<Rightarrow> bool" where
  "sized_for hp items key \<longleftrightarrow> (\<forall>a. find_item items key = Some a \<longrightarrow> ai_type (hp_get hp a) = ty \<longrightarrow>
     ai_valueLength (hp_get hp a) = width \<and> (\<exists>v. ai_value (hp_get hp a) = Some v \<and> width \<le> length v))"

lemma set_get:
  assumes "items_wf hp items" "sized_for hp items key"
    "auth_items_set_scalar ty (encode v) hp items key = (hp', items')"
  shows "auth_items_get_scalar of_string width decode dflt hp' items' key = (v, hp')"
    and "hp_fault hp' = hp_fault hp"
    and "sized_for hp' items' key"
proof -
  have "auth_items_get_scalar of_string width decode dflt hp' items' key = (v, hp') \<and>
      hp_fault hp' = hp_fault hp \<and> sized_for hp' items' key"
  proof (cases "find_item items key")
    case None
    then show ?thesis
      using assms(3) encode_length [of v] width_pos decode_encode [of v] not_string
      by (auto simp: auth_items_set_scalar_def auth_items_get_scalar_def items_add_new_def
          auth_item_create_def auth_items_add_item_def sized_for_def Let_def)
  next
    case (Some a)
    then have a: "a < hp_next hp"
      using items_wfD [OF assms(1)] by auto
    show ?thesis
    proof (cases "ai_type (hp_get hp a) = ty")
      case True
      then obtain b where b: "ai_value (hp_get hp a) = Some b" "width \<le> length b"
        "ai_valueLength (hp_get hp a) = width"
        using assms(2) Some by (auto simp: sized_for_def)
      show ?thesis
        using assms(3) Some True a b encode_length [of v] decode_encode [of v] not_string
        by (auto simp: auth_items_set_scalar_def auth_items_get_scalar_def buf_fits_def buf_write_def
            sized_for_def Let_def)
    next
      case False
      then show ?thesis
        using assms(3) Some encode_length [of v] width_pos decode_encode [of v] not_string
        by (auto simp: auth_items_set_scalar_def auth_items_get_scalar_def items_add_new_def
            auth_item_create_def auth_items_add_item_def sized_for_def Let_def)
    qed
  qed
  then show "auth_items_get_scalar of_string width decode dflt hp' items' key = (v, hp')"
    and "hp_fault hp' = hp_fault hp" and "sized_for hp' items' key"
    by simp_all
qed

end

lemma of_nat_le_val_32 [simp, codec_simps]: "word_of_nat (le_val (le_bytes 4 (unat (v :: 32 word)))) = v"
proof -
  have "unat v < 256 ^ 4"
    using unsigned_less [of v, where 'a = nat] by simp
  then show ?thesis by simp
qed

lemma of_nat_le_val_64 [simp, codec_simps]: "word_of_nat (le_val (le_bytes 8 (unat (v :: 64 word)))) = v"
proof -
  have "unat v < 256 ^ 8"
    using unsigned_less [of v, where 'a = nat] by simp
  then show ?thesis by simp
qed

interpretation bool_codec: scalar_codec AI_TYPE_BOOL 1 bool_bytes bool_of_bytes "\<lambda>s. atoi s \<noteq> 0" False
  by unfold_locales (auto simp: bool_bytes_def bool_of_bytes_def)

interpretation int_codec: scalar_codec AI_TYPE_INT 4 "\<lambda>v :: 32 word. le_bytes 4 (unat v)"
    "\<lambda>bs. word_of_nat (le_val bs)" atoi 0
  by unfold_locales (simp_all del: le_val_le_bytes)

interpretation uint_codec: scalar_codec AI_TYPE_UINT 4 "\<lambda>v :: 32 word. le_bytes 4 (unat v)"
    "\<lambda>bs. word_of_nat (le_val bs)" atoi 0
  by unfold_locales (simp_all del: le_val_le_bytes)

interpretation int64_codec: scalar_codec AI_TYPE_INT64 8 "\<lambda>v :: 64 word. le_bytes 8 (unat v)"
    "\<lambda>bs. word_of_nat (le_val bs)" atoll 0
  by unfold_locales (simp_all del: le_val_le_bytes)

interpretation uint64_codec: scalar_codec AI_TYPE_UINT64 8 "\<lambda>v :: 64 word. le_bytes 8 (unat v)"
    "\<lambda>bs. word_of_nat (le_val bs)" atoll 0
  by unfold_locales (simp_all del: le_val_le_bytes)

interpretation double_codec: scalar_codec AI_TYPE_DOUBLE 8 "\<lambda>v :: 64 word. le_bytes 8 (unat v)"
    "\<lambda>bs. word_of_nat (le_val bs)" atof 0 for atof
  by unfold_locales (simp_all del: le_val_le_bytes)

section \<open>Strings\<close>

text \<open>The believed buffer size never exceeds the real one.\<close>

definition item_buf_ok :: "auth_item \<Rightarrow> bool" where
  "item_buf_ok i \<longleftrightarrow> (case ai_value i of None \<Rightarrow> ai_bufLen i = 0 | Some b \<Rightarrow> ai_bufLen i \<le> length b)"

lemma set_string_get:
  assumes "items_wf hp items" "NUL \<notin> set v"
    "\<And>a. find_item items key = Some a \<Longrightarrow> item_buf_ok (hp_get hp a)"
    "auth_items_set_string hp items key v = (hp', items')"
  shows "\<exists>hp''. auth_items_get_string hp' items' key = (Some v, hp'') \<and> hp_fault hp'' = hp_fault hp"
proof (cases "\<exists>a. find_item items key = Some a \<and> ai_type (hp_get hp a) = AI_TYPE_STRING \<and> length v < ai_bufLen (hp_get hp a)")
  case True
  then obtain a where a: "find_item items key = Some a" "ai_type (hp_get hp a) = AI_TYPE_STRING"
    "length v < ai_bufLen (hp_get hp a)" by auto
  then obtain b where b: "ai_value (hp_get hp a) = Some b" "length v < length b"
    using assms(3) [OF a(1)] by (auto simp: item_buf_ok_def split: option.splits)
  then show ?thesis
    using assms(2,4) a items_wfD [OF assms(1) a(1)]
    by (auto simp: auth_items_set_string_def auth_items_get_string_def auth_item_get_string_def
        item_with_nul_def Let_def buf_fits_def buf_write_def)
next
  case False
  then show ?thesis
    using assms(2,4)
    by (auto simp: auth_items_set_string_def auth_items_get_string_def auth_item_get_string_def
        item_with_nul_def Let_def items_add_new_def auth_item_create_def auth_items_add_item_def
        split: option.splits if_splits)
qed

section \<open>XPC messages\<close>

lemma xpc_item_roundtrip:
  assumes "item_sized i" "ai_valueLength i < 2 ^ 64" "ai_value i = None \<Longrightarrow> ai_valueLength i = 0"
  shows "\<exists>j. fst (auth_item_create_with_xpc (auth_item_copy_auth_item_xpc i)) = Some j \<and>
    ai_name j = ai_name i \<and> ai_flags j = ai_flags i \<and> ai_type j = ai_type i \<and>
    ai_valueLength j = ai_valueLength i \<and>
    ai_value j = map_option (take (ai_valueLength i)) (ai_value i) \<and> ai_bufLen j = ai_valueLength i"
proof (cases "ai_value i")
  case None
  with assms(3) show ?thesis
    by (simp add: auth_item_create_with_xpc_def auth_item_copy_auth_item_xpc_def Let_def
        xpc_dictionary_get_string_def xpc_dictionary_get_uint64_def xpc_dictionary_get_data_def)
next
  case (Some v)
  have un: "unat (word_of_nat (ai_valueLength i) :: 64 word) = ai_valueLength i"
    using assms(2) by (simp add: unat_of_nat)
  show ?thesis
    using assms(1) Some un
    by (auto simp: auth_item_create_with_xpc_def auth_item_copy_auth_item_xpc_def Let_def item_sized_def
        xpc_dictionary_get_string_def xpc_dictionary_get_uint64_def xpc_dictionary_get_data_def min_def)
qed

lemma xpc_password_wiped:
  assumes "item_sized i" "ai_valueLength i < 2 ^ 64" "ai_value i \<noteq> None" "ai_name i = AGENT_PASSWORD"
  shows "xpc_dictionary_get_data (snd (auth_item_create_with_xpc (auth_item_copy_auth_item_xpc i)))
    AUTH_XPC_ITEM_VALUE = Some (replicate (max 32768 (ai_valueLength i)) NUL)"
proof -
  obtain v where v: "ai_value i = Some v"
    using assms(3) by auto
  have un: "unat (word_of_nat (ai_valueLength i) :: 64 word) = ai_valueLength i"
    using assms(2) by (simp add: unat_of_nat)
  show ?thesis
    using assms(1,4) v un
    by (auto simp: auth_item_create_with_xpc_def auth_item_copy_auth_item_xpc_def Let_def item_sized_def
        xpc_dictionary_get_string_def xpc_dictionary_get_uint64_def xpc_dictionary_get_data_def min_def max_def
        replicate_add [symmetric])
qed

section \<open>Encryption\<close>

text \<open>The documented contract of \<^verbatim>\<open>CCCrypt\<close> with PKCS7 padding under one key: a call without room
  reports the length needed, a call with that room succeeds, and decryption undoes encryption.\<close>

definition crypt_lawful :: "cccrypt \<Rightarrow> string \<Rightarrow> bool" where
  "crypt_lawful cc key \<longleftrightarrow> (\<forall>x. x \<noteq> [] \<longrightarrow>
     (\<exists>c n m y z. c \<noteq> [] \<and> length c \<le> n \<and> length x \<le> m \<and>
        cc CCEncrypt key x 0 = (CCBufferTooSmall, y, n) \<and> cc CCEncrypt key x n = (CCSuccess, c, length c) \<and>
        cc CCDecrypt key c 0 = (CCBufferTooSmall, z, m) \<and> cc CCDecrypt key c m = (CCSuccess, x, length x)))"

lemma crypt_lawfulD:
  assumes "crypt_lawful cc key" "x \<noteq> []"
  obtains c n m y z where "c \<noteq> []" "length c \<le> n" "length x \<le> m"
    "cc CCEncrypt key x 0 = (CCBufferTooSmall, y, n)" "cc CCEncrypt key x n = (CCSuccess, c, length c)"
    "cc CCDecrypt key c 0 = (CCBufferTooSmall, z, m)" "cc CCDecrypt key c m = (CCSuccess, x, length x)"
  using assms(1) [unfolded crypt_lawful_def, rule_format, OF assms(2)] by (elim exE conjE) (rule that)

lemma crypt_worker_Some:
  assumes "ai_value i = Some v" "ai_valueLength i \<noteq> 0"
    "cc oper key (take (ai_valueLength i) v) 0 = (CCBufferTooSmall, y, n)"
    "cc oper key (take (ai_valueLength i) v) n = (CCSuccess, c, m)" "length c \<le> n"
  shows "snd (auth_item_crypt_worker cc i (Some key) oper) =
    i\<lparr> ai_value := Some (c @ replicate (n - length c) NUL), ai_valueLength := m \<rparr>"
  using assms by (simp add: auth_item_crypt_worker_def)

lemma crypt_worker_empty:
  assumes "ai_value i = None \<or> ai_valueLength i = 0"
  shows "snd (auth_item_crypt_worker cc i key oper) = i"
  using assms by (cases key; cases "ai_value i") (simp_all add: auth_item_crypt_worker_def)

lemma item_decrypt_encrypt:
  assumes "crypt_lawful cc key" "item_sized i"
  shows "item_content (snd (auth_item_decrypt cc (snd (auth_item_encrypt cc i (Some key))) (Some key))) = item_content i"
proof (cases "ai_value i = None \<or> ai_valueLength i = 0")
  case True
  then show ?thesis
    by (simp only: auth_item_decrypt_def auth_item_encrypt_def crypt_worker_empty)
next
  case False
  then obtain v where v: "ai_value i = Some v" "ai_valueLength i \<noteq> 0" by auto
  obtain x where x: "take (ai_valueLength i) v = x" by simp
  have len: "length x = ai_valueLength i"
    using assms(2) v by (simp add: x [symmetric] item_sized_def)
  then have "x \<noteq> []"
    using v(2) by (cases x) simp_all
  obtain c n m y z where c: "c \<noteq> []" "length c \<le> n" "length x \<le> m"
    "cc CCEncrypt key x 0 = (CCBufferTooSmall, y, n)" "cc CCEncrypt key x n = (CCSuccess, c, length c)"
    "cc CCDecrypt key c 0 = (CCBufferTooSmall, z, m)" "cc CCDecrypt key c m = (CCSuccess, x, length x)"
    by (rule crypt_lawfulD [OF assms(1) \<open>x \<noteq> []\<close>])
  let ?e = "i\<lparr> ai_value := Some (c @ replicate (n - length c) NUL), ai_valueLength := length c \<rparr>"
  have enc: "snd (auth_item_encrypt cc i (Some key)) = ?e"
    unfolding auth_item_encrypt_def
    by (rule crypt_worker_Some [where cc = cc and oper = CCEncrypt and key = key and i = i, OF v c(4) [folded x] c(5) [folded x] c(2)])
  have e: "ai_value ?e = Some (c @ replicate (n - length c) NUL)" "ai_valueLength ?e \<noteq> 0"
    using c(1) by simp_all
  have t: "take (ai_valueLength ?e) (c @ replicate (n - length c) NUL) = c"
    by simp
  have dec: "snd (auth_item_decrypt cc ?e (Some key)) =
      ?e\<lparr> ai_value := Some (x @ replicate (m - length x) NUL), ai_valueLength := length x \<rparr>"
    unfolding auth_item_decrypt_def
    by (rule crypt_worker_Some [where cc = cc and oper = CCDecrypt and key = key and i = ?e, OF e, unfolded t, OF c(6,7,3)])
  show ?thesis
    unfolding enc dec using v len x by (simp add: item_content_def)
qed

lemma crypt_worker_name [simp]: "ai_name (snd (auth_item_crypt_worker cc i key oper)) = ai_name i"
  by (simp add: auth_item_crypt_worker_def split: option.splits prod.splits crypt_status.splits)

text \<open>The worker applies its function once to every item of the dictionary and to no other.\<close>

lemma auth_items_crypt_worker_get:
  assumes "items_wf hp items" "\<And>i. ai_name (snd (f i)) = ai_name i"
  shows "(\<forall>a. hp_get (auth_items_crypt_worker f hp items) a =
      (if a \<in> snd ` set items then snd (f (hp_get hp a)) else hp_get hp a)) \<and>
    hp_next (auth_items_crypt_worker f hp items) = hp_next hp \<and>
    hp_fault (auth_items_crypt_worker f hp items) = hp_fault hp"
proof -
  define g where "g = (\<lambda>key h. case find_item items key of None \<Rightarrow> hp_check False h
     | Some a \<Rightarrow> hp_set a (snd (f (hp_get h a))) h)"
  have inj: "a \<noteq> b" if "(k, a) \<in> set items" "(k', b) \<in> set items" "k \<noteq> k'" for k k' a b
    using items_wf_name [OF assms(1) that(1)] items_wf_name [OF assms(1) that(2)] that(3) by auto
  have "(\<forall>a. hp_get (fold g (map fst xs) hp) a = (if a \<in> snd ` set xs then snd (f (hp_get hp a)) else hp_get hp a)) \<and>
      hp_next (fold g (map fst xs) hp) = hp_next hp \<and> hp_fault (fold g (map fst xs) hp) = hp_fault hp"
    if "set xs \<subseteq> set items" "distinct (map fst xs)" for xs
    using that
  proof (induction xs rule: rev_induct)
    case Nil
    then show ?case by simp
  next
    case (snoc x xs)
    obtain k a where x: "x = (k, a)" by (cases x)
    then have a: "find_item items k = Some a" "a < hp_next hp"
      using snoc.prems assms(1) by (auto simp: find_item_iff items_wf_distinct items_wf_def)
    have "a \<notin> snd ` set xs"
    proof
      assume "a \<in> snd ` set xs"
      then obtain k' where k': "(k', a) \<in> set xs" by auto
      have "k' = k"
        using inj [of k' a k a] k' snoc.prems(1) x by auto
      with k' snoc.prems(2) x show False
        by (auto simp: rev_image_eqI)
    qed
    moreover define h where "h = fold g (map fst xs) hp"
    moreover have IH: "\<forall>b. hp_get h b = (if b \<in> snd ` set xs then snd (f (hp_get hp b)) else hp_get hp b)"
      "hp_next h = hp_next hp" "hp_fault h = hp_fault hp"
      using snoc.IH snoc.prems by (simp_all add: h_def)
    ultimately have "g k h = hp_set a (snd (f (hp_get hp a))) h" "a < hp_next h"
      using a by (simp_all add: g_def)
    moreover have "fold g (map fst (xs @ [x])) hp = g k h"
      by (simp add: h_def x)
    ultimately show ?case
      using IH x by auto
  qed
  from this [of items] show ?thesis
    using assms(1)
    by (simp add: auth_items_crypt_worker_def auth_items_iterate_fold items_names_wf items_wf_distinct g_def)
qed

lemma auth_items_crypt_worker_keeps:
  assumes "items_wf hp items" "\<And>i. ai_name (snd (f i)) = ai_name i"
  shows "hp_keeps hp (auth_items_crypt_worker f hp items)"
  using auth_items_crypt_worker_get [OF assms] assms(2) by (simp add: hp_keeps_def)

lemma auth_items_decrypt_encrypt:
  assumes "items_wf hp items" "crypt_lawful cc key" "\<And>a. a \<in> snd ` set items \<Longrightarrow> item_sized (hp_get hp a)"
  defines "hp' \<equiv> auth_items_decrypt cc (auth_items_encrypt cc hp items (Some key)) items (Some key)"
  shows "item_content (hp_get hp' a) = item_content (hp_get hp a)" "hp_fault hp' = hp_fault hp"
proof -
  define h where "h = auth_items_encrypt cc hp items (Some key)"
  have h: "hp_get h b = (if b \<in> snd ` set items then snd (auth_item_encrypt cc (hp_get hp b) (Some key)) else hp_get hp b)"
    "hp_fault h = hp_fault hp" for b
    using auth_items_crypt_worker_get [OF assms(1), of "\<lambda>i. auth_item_encrypt cc i (Some key)"]
    by (simp_all add: h_def auth_items_encrypt_def auth_item_encrypt_def)
  have wf: "items_wf h items"
    using items_wf_keeps [OF assms(1)] auth_items_crypt_worker_keeps [OF assms(1), of "\<lambda>i. auth_item_encrypt cc i (Some key)"]
    by (simp add: h_def auth_items_encrypt_def auth_item_encrypt_def)
  have h': "hp_get hp' b = (if b \<in> snd ` set items then snd (auth_item_decrypt cc (hp_get h b) (Some key)) else hp_get h b)"
    "hp_fault hp' = hp_fault h" for b
    using auth_items_crypt_worker_get [OF wf, of "\<lambda>i. auth_item_decrypt cc i (Some key)"]
    by (simp_all add: hp'_def h_def [symmetric] auth_items_decrypt_def auth_item_decrypt_def)
  show "item_content (hp_get hp' a) = item_content (hp_get hp a)"
    using h h' item_decrypt_encrypt [OF assms(2) assms(3)] by simp
  show "hp_fault hp' = hp_fault hp"
    using h h' by simp
qed

section \<open>Rights\<close>

lemma auth_rights_remove_loop_filter:
  "n = length rights - i \<Longrightarrow> i \<le> length rights \<Longrightarrow>
   auth_rights_remove_loop n i rights key = take i rights @ filter (\<lambda>r. ai_name r \<noteq> key) (drop i rights)"
proof (induction n i rights key rule: auth_rights_remove_loop.induct)
  case (1 i rights key)
  then show ?case by simp
next
  case (2 n i rights key)
  then have i: "i < length rights" "length rights - Suc i = n" by auto
  have d: "drop i rights = rights ! i # drop (Suc i) rights"
    using i by (simp add: Cons_nth_drop_Suc)
  have t: "take (Suc i) rights = take i rights @ [rights ! i]"
    using i by (simp add: take_Suc_conv_app_nth)
  show ?case
  proof (cases "ai_name (rights ! i) = key")
    case True
    have "auth_rights_remove_loop n i (take i rights @ drop (Suc i) rights) key =
        take i rights @ filter (\<lambda>r. ai_name r \<noteq> key) (drop (Suc i) rights)"
      using 2(1) [OF True] i by simp
    with True d show ?thesis by simp
  next
    case False
    have "auth_rights_remove_loop n (Suc i) rights key =
        take (Suc i) rights @ filter (\<lambda>r. ai_name r \<noteq> key) (drop (Suc i) rights)"
      using 2(2) [OF False] i by simp
    with False d t show ?thesis by simp
  qed
qed

lemma auth_rights_remove_filter: "auth_rights_remove rights key = filter (\<lambda>r. ai_name r \<noteq> key) rights"
  by (simp add: auth_rights_remove_def auth_rights_remove_loop_filter)

lemma find_right_item_find: "find_right_item rights key = find (\<lambda>r. ai_name r = key) rights"
  by (induction rights) auto

lemma auth_rights_exist_iff: "auth_rights_exist rights key \<longleftrightarrow> key \<in> ai_name ` set rights"
  by (induction rights) (auto simp: auth_rights_exist_def)

lemma auth_rights_names_add [simp]: "map ai_name (auth_rights_add rights key) = map ai_name rights @ [key]"
  by (simp add: auth_rights_add_def auth_item_create_def)

lemma update_right_item_names:
  "(\<And>i. ai_name (f i) = ai_name i) \<Longrightarrow> map ai_name (update_right_item f rights key) = map ai_name rights"
  by (induction rights) auto

lemma auth_rights_set_flags_names [simp]: "map ai_name (auth_rights_set_flags rights key flags) = map ai_name rights"
  by (simp add: auth_rights_set_flags_def update_right_item_names)

lemma auth_rights_exist_add [simp]: "auth_rights_exist (auth_rights_add rights k) k' \<longleftrightarrow> k' = k \<or> auth_rights_exist rights k'"
  by (auto simp: auth_rights_exist_iff auth_rights_add_def auth_item_create_def)

section \<open>Properties\<close>

definition sample_item :: "string \<Rightarrow> string \<Rightarrow> 32 word \<Rightarrow> auth_item" where
  "sample_item name bytes flags = \<lparr> ai_name = name, ai_value = Some bytes, ai_valueLength = length bytes,
     ai_flags = flags, ai_type = AI_TYPE_DATA, ai_bufLen = length bytes \<rparr>"

definition sample_heap :: items_heap where
  "sample_heap = \<lparr> hp_cells = [sample_item ''uid'' ''ab'' 1, sample_item ''gid'' ''cd'' 2], hp_fault = False \<rparr>"

definition sample_items :: auth_items where
  "sample_items = [(''uid'', 0), (''gid'', 1)]"

lemma sample_wf: "items_wf sample_heap sample_items"
  by (simp add: items_wf_def sample_heap_def sample_items_def sample_item_def hp_next_def hp_get_def)

lemma sample_sized: "find_item sample_items k = Some a \<Longrightarrow> item_sized (hp_get sample_heap a)"
  by (auto simp: sample_items_def find_item_def item_sized_def sample_heap_def sample_item_def hp_get_def
      split: if_splits)

text \<open>C29. \<^verbatim>\<open>auth_items_copy\<close> shares the items it copies: after it, every key of the source leads in the
  destination to the very item of the source, every other key to what it led to before, and a flag
  set through the destination is set in the source.\<close>

theorem auth_items_copy_shares:
  assumes "items_wf hp src" "auth_items_exist src key"
  shows "find_item (auth_items_copy hp items src) key = find_item src key \<and>
    (\<forall>key'. \<not> auth_items_exist src key' \<longrightarrow>
       find_item (auth_items_copy hp items src) key' = find_item items key') \<and>
    auth_items_get_flags (auth_items_set_flags hp (auth_items_copy hp items src) key flags) src key =
      auth_items_get_flags hp src key OR flags"
proof -
  obtain a where a: "find_item src key = Some a"
    using assms(2) by (auto simp: auth_items_exist_def)
  with assms(1) items_wfD [OF assms(1) a] show ?thesis
    by (simp add: auth_items_set_flags_def auth_items_get_flags_def auth_items_copy_find auth_items_exist_def)
qed

theorem auth_items_copy_shares_witness:
  "auth_items_get_flags (auth_items_set_flags sample_heap (auth_items_copy sample_heap [] sample_items) ''uid'' 4)
     sample_items ''uid'' = 5"
  using auth_items_copy_shares [OF sample_wf, of "''uid''" "[]" 4]
  by (simp add: auth_items_exist_def find_item_def sample_items_def auth_items_get_flags_def sample_heap_def
      sample_item_def hp_get_def)

text \<open>C30. \<^verbatim>\<open>auth_items_content_copy\<close> isolates: it leaves every item of the store as it was, every key of
  the source leads in the destination to an item that did not exist before and has the source's
  name, type, flags and value, and so no flag set through the destination reaches the source.\<close>

theorem auth_items_content_copy_isolates:
  assumes "items_wf hp items" "items_wf hp src" "\<And>k a. find_item src k = Some a \<Longrightarrow> item_sized (hp_get hp a)"
    "auth_items_content_copy hp items src = (hp', items')" "find_item src key = Some a"
  shows "hp_extends hp hp' \<and> items_wf hp' items' \<and>
    (\<exists>b. find_item items' key = Some b \<and> hp_next hp \<le> b \<and> item_content (hp_get hp' b) = item_content (hp_get hp a)) \<and>
    auth_items_get_flags (auth_items_set_flags hp' items' key flags) src key = auth_items_get_flags hp src key"
proof -
  have deep: "deep_copied hp items src (fst ` set src) (hp', items')"
    using auth_items_content_copy_deep [OF assms(1,2,3)] assms(4) by simp
  then have ext: "hp_extends hp hp'" and wf: "items_wf hp' items'"
    by (simp_all add: deep_copied_def)
  have "key \<in> fst ` set src"
    using assms(5) by (metis find_item_None_iff option.distinct(1))
  then obtain b where b: "find_item items' key = Some b" "hp_next hp \<le> b" "b < hp_next hp'"
    "item_content (hp_get hp' b) = item_content (hp_get hp a)"
    using deep assms(5) by (auto simp: deep_copied_def)
  have "a < hp_next hp"
    using items_wfD [OF assms(2,5)] by simp
  then show ?thesis
    using b assms(5) ext wf by (auto simp: auth_items_set_flags_def auth_items_get_flags_def hp_extends_get)
qed

theorem auth_items_content_copy_isolates_witness:
  "auth_items_get_flags
     (auth_items_set_flags (fst (auth_items_content_copy sample_heap [] sample_items))
        (snd (auth_items_content_copy sample_heap [] sample_items)) ''uid'' 4) sample_items ''uid'' =
   auth_items_get_flags sample_heap sample_items ''uid''"
  using auth_items_content_copy_isolates [OF items_wf_Nil sample_wf sample_sized prod.collapse [symmetric],
      where key = "''uid''" and a = 0 and flags = 4]
  by (simp add: find_item_def sample_items_def)

text \<open>Selection by flags is by any bit: \<^verbatim>\<open>auth_items_copy_with_flags\<close> takes over exactly the items
  of the source that have one of the flags and keeps the destination elsewhere, and
  \<^verbatim>\<open>auth_items_remove_with_flags\<close> removes exactly those and keeps the others, although it removes while
  it iterates.\<close>

theorem auth_items_with_flags_exact:
  assumes "items_wf hp src" "flags \<noteq> 0"
  shows "find_item (auth_items_copy_with_flags hp items src flags) key =
      (if \<exists>a. find_item src key = Some a \<and> ai_flags (hp_get hp a) AND flags \<noteq> 0
       then find_item src key else find_item items key) \<and>
    find_item (auth_items_remove_with_flags hp src flags) key =
      (if \<exists>a. find_item src key = Some a \<and> ai_flags (hp_get hp a) AND flags \<noteq> 0
       then None else find_item src key)"
  using assms(2)
  by (auto simp: auth_items_copy_with_flags_find [OF assms(1)] auth_items_remove_with_flags_find [OF assms(1)]
      auth_items_check_flags_def auth_items_get_flags_def split: option.splits)

theorem auth_items_with_flags_exact_witness:
  "find_item (auth_items_copy_with_flags sample_heap [] sample_items 3) ''uid'' = Some 0 \<and>
   find_item (auth_items_remove_with_flags sample_heap sample_items 2) ''gid'' = None \<and>
   find_item (auth_items_remove_with_flags sample_heap sample_items 2) ''uid'' = Some 0"
  by (simp add: auth_items_with_flags_exact [OF sample_wf])
     (simp add: find_item_def sample_items_def sample_heap_def sample_item_def hp_get_def)

text \<open>An item of the type under the key has the size of the type; items of other types are free.\<close>

definition scalar_sized :: "items_heap \<Rightarrow> auth_items \<Rightarrow> string \<Rightarrow> 32 word \<Rightarrow> nat \<Rightarrow> bool" where
  "scalar_sized hp items key ty width \<longleftrightarrow>
     (case find_item items key of
        None \<Rightarrow> True
      | Some a \<Rightarrow> ai_type (hp_get hp a) \<noteq> ty \<or> ai_valueLength (hp_get hp a) = width \<and>
          (case ai_value (hp_get hp a) of None \<Rightarrow> False | Some v \<Rightarrow> width \<le> length v))"

lemma scalar_sized:
  assumes "scalar_sized hp items key ty width"
  shows "\<forall>a. find_item items key = Some a \<longrightarrow> ai_type (hp_get hp a) = ty \<longrightarrow>
    ai_valueLength (hp_get hp a) = width \<and> (\<exists>v. ai_value (hp_get hp a) = Some v \<and> width \<le> length v)"
  using assms by (auto simp: scalar_sized_def split: option.splits)

text \<open>C31. Scalars round-trip: whatever the dictionary held under the key, a string, an item without a value or an item
  of another scalar type, after a setter the getter of the same type returns the value that was set and the store
  has no new fault, provided that an item of the very type of the setter, which is written in place, has the size of
  the type; for booleans, signed and unsigned 32- and 64-bit integers and doubles.\<close>

theorem auth_items_scalar_roundtrip:
  assumes "items_wf hp items"
  shows "(scalar_sized hp items key AI_TYPE_BOOL 1 \<longrightarrow>
      (case auth_items_set_bool hp items key b of (h, its) \<Rightarrow>
        auth_items_get_bool h its key = (b, h) \<and> hp_fault h = hp_fault hp)) \<and>
    (scalar_sized hp items key AI_TYPE_INT 4 \<longrightarrow>
      (case auth_items_set_int hp items key i of (h, its) \<Rightarrow>
        auth_items_get_int h its key = (i, h) \<and> hp_fault h = hp_fault hp)) \<and>
    (scalar_sized hp items key AI_TYPE_UINT 4 \<longrightarrow>
      (case auth_items_set_uint hp items key i of (h, its) \<Rightarrow>
        auth_items_get_uint h its key = (i, h) \<and> hp_fault h = hp_fault hp)) \<and>
    (scalar_sized hp items key AI_TYPE_INT64 8 \<longrightarrow>
      (case auth_items_set_int64 hp items key l of (h, its) \<Rightarrow>
        auth_items_get_int64 h its key = (l, h) \<and> hp_fault h = hp_fault hp)) \<and>
    (scalar_sized hp items key AI_TYPE_UINT64 8 \<longrightarrow>
      (case auth_items_set_uint64 hp items key l of (h, its) \<Rightarrow>
        auth_items_get_uint64 h its key = (l, h) \<and> hp_fault h = hp_fault hp)) \<and>
    (scalar_sized hp items key AI_TYPE_DOUBLE 8 \<longrightarrow>
      (case auth_items_set_double hp items key l of (h, its) \<Rightarrow>
        auth_items_get_double atof h its key = (l, h) \<and> hp_fault h = hp_fault hp))"
  unfolding auth_items_set_bool_def auth_items_get_bool_def auth_items_set_int_def auth_items_get_int_def
    auth_items_set_uint_def auth_items_get_uint_def auth_items_set_int64_def auth_items_get_int64_def
    auth_items_set_uint64_def auth_items_get_uint64_def auth_items_set_double_def auth_items_get_double_def
  using bool_codec.set_get [OF assms bool_codec.sized_for_def [THEN iffD2, OF scalar_sized]]
    int_codec.set_get [OF assms int_codec.sized_for_def [THEN iffD2, OF scalar_sized]]
    uint_codec.set_get [OF assms uint_codec.sized_for_def [THEN iffD2, OF scalar_sized]]
    int64_codec.set_get [OF assms int64_codec.sized_for_def [THEN iffD2, OF scalar_sized]]
    uint64_codec.set_get [OF assms uint64_codec.sized_for_def [THEN iffD2, OF scalar_sized]]
    double_codec.set_get [OF assms double_codec.sized_for_def [THEN iffD2, OF scalar_sized]]
  by (simp split: prod.split)

text \<open>A counter that is there is written in place; under a string that is there a counter replaces it.\<close>

definition scalar_heap :: items_heap where
  "scalar_heap = \<lparr> hp_cells =
     [\<lparr> ai_name = ''tries'', ai_value = Some (le_bytes 4 7), ai_valueLength = 4, ai_flags = 0, ai_type = AI_TYPE_INT, ai_bufLen = 4 \<rparr>,
      \<lparr> ai_name = ''uid'', ai_value = Some ''root'', ai_valueLength = 4, ai_flags = 0, ai_type = AI_TYPE_STRING, ai_bufLen = 4 \<rparr>],
     hp_fault = False \<rparr>"

definition scalar_items :: auth_items where
  "scalar_items = [(''tries'', 0), (''uid'', 1)]"

lemma scalar_heap:
  "items_wf scalar_heap scalar_items" "find_item scalar_items ''tries'' = Some 0" "find_item scalar_items ''uid'' = Some 1"
  "scalar_sized scalar_heap scalar_items ''tries'' AI_TYPE_INT 4" "scalar_sized scalar_heap scalar_items ''uid'' AI_TYPE_INT 4"
  by (simp_all add: items_wf_def scalar_heap_def scalar_items_def hp_next_def hp_get_def find_item_def scalar_sized_def)

theorem auth_items_scalar_roundtrip_witness:
  "find_item scalar_items ''tries'' = Some 0 \<and> find_item scalar_items ''uid'' = Some 1 \<and>
   fst (auth_items_get_int (fst (auth_items_set_int scalar_heap scalar_items ''tries'' 3))
     (snd (auth_items_set_int scalar_heap scalar_items ''tries'' 3)) ''tries'') = 3 \<and>
   \<not> hp_fault (fst (auth_items_set_int scalar_heap scalar_items ''tries'' 3)) \<and>
   fst (auth_items_get_int (fst (auth_items_set_int scalar_heap scalar_items ''uid'' 3))
     (snd (auth_items_set_int scalar_heap scalar_items ''uid'' 3)) ''uid'') = 3"
proof -
  have int: "case auth_items_set_int scalar_heap scalar_items key 3 of (h, its) \<Rightarrow>
      auth_items_get_int h its key = (3, h) \<and> hp_fault h = hp_fault scalar_heap"
    if "scalar_sized scalar_heap scalar_items key AI_TYPE_INT 4" for key
    by (rule auth_items_scalar_roundtrip [OF scalar_heap(1), THEN conjunct2, THEN conjunct1, THEN mp]) (rule that)
  have "\<not> hp_fault scalar_heap"
    by (simp add: scalar_heap_def)
  then show ?thesis
    using int [OF scalar_heap(4)] int [OF scalar_heap(5)] scalar_heap(2,3) by (simp add: case_prod_unfold)
qed

text \<open>C32. The in-place write of a scalar setter is not guarded by the size of the item: a client's item
  of type \<^verbatim>\<open>INT\<close> without a value makes \<^verbatim>\<open>auth_items_set_int\<close> write four bytes through a NULL pointer,
  and one whose value is shorter than four bytes makes it write past its buffer.\<close>

theorem auth_items_set_int_unguarded:
  assumes "length bytes < 4"
  shows "(case auth_items_create_with_xpc hp_empty (Some (XPC_Array
            [XPC_Dict [(AUTH_XPC_ITEM_NAME, XPC_String key), (AUTH_XPC_ITEM_TYPE, XPC_Uint64 3)]])) of
          (hp, items, _) \<Rightarrow> \<not> hp_fault hp \<and> hp_fault (fst (auth_items_set_int hp items key v))) \<and>
    (case auth_items_create_with_xpc hp_empty (Some (XPC_Array
            [XPC_Dict [(AUTH_XPC_ITEM_NAME, XPC_String key), (AUTH_XPC_ITEM_TYPE, XPC_Uint64 3),
                       (AUTH_XPC_ITEM_VALUE, XPC_Data bytes)]])) of
          (hp, items, _) \<Rightarrow> \<not> hp_fault hp \<and> hp_fault (fst (auth_items_set_int hp items key v)))"
  using assms
  by (simp add: auth_items_create_with_xpc_def auth_items_copy_xpc_def auth_item_create_with_xpc_def
      xpc_dictionary_get_string_def xpc_dictionary_get_uint64_def xpc_dictionary_get_data_def Let_def
      items_add_new_def auth_items_add_item_def auth_items_create_def auth_items_set_int_def
      auth_items_set_scalar_def buf_fits_def hp_empty_def hp_alloc_def hp_get_def hp_next_def hp_set_def
      hp_check_def find_item_def)

theorem auth_items_set_int_unguarded_witness:
  "hp_fault (fst (auth_items_set_int
     (fst (auth_items_create_with_xpc hp_empty (Some (XPC_Array
        [XPC_Dict [(AUTH_XPC_ITEM_NAME, XPC_String ''tries''), (AUTH_XPC_ITEM_TYPE, XPC_Uint64 3)]]))))
     (fst (snd (auth_items_create_with_xpc hp_empty (Some (XPC_Array
        [XPC_Dict [(AUTH_XPC_ITEM_NAME, XPC_String ''tries''), (AUTH_XPC_ITEM_TYPE, XPC_Uint64 3)]])))))
     ''tries'' 1))"
  using auth_items_set_int_unguarded [of "[]" "''tries''" 1] by (simp add: split_def)

text \<open>C33. A string that is set is read back, without a fault, when the recorded buffer sizes are true;
  the item keeps its flags exactly when the string fits into the buffer of a string item, and is a
  fresh item without flags otherwise.\<close>

theorem auth_items_set_string_get_string:
  assumes "items_wf hp items" "NUL \<notin> set v"
    "\<And>a. find_item items key = Some a \<Longrightarrow> item_buf_ok (hp_get hp a)"
    "auth_items_set_string hp items key v = (hp', items')"
  shows "(\<exists>hp''. auth_items_get_string hp' items' key = (Some v, hp'') \<and> hp_fault hp'' = hp_fault hp) \<and>
    auth_items_get_flags hp' items' key =
      (case find_item items key of
         None \<Rightarrow> 0
       | Some a \<Rightarrow> if ai_type (hp_get hp a) = AI_TYPE_STRING \<and> length v < ai_bufLen (hp_get hp a)
                   then ai_flags (hp_get hp a) else 0)"
proof
  show "\<exists>hp''. auth_items_get_string hp' items' key = (Some v, hp'') \<and> hp_fault hp'' = hp_fault hp"
    by (rule set_string_get [OF assms])
  show "auth_items_get_flags hp' items' key =
      (case find_item items key of
         None \<Rightarrow> 0
       | Some a \<Rightarrow> if ai_type (hp_get hp a) = AI_TYPE_STRING \<and> length v < ai_bufLen (hp_get hp a)
                   then ai_flags (hp_get hp a) else 0)"
    using assms(4) items_wfD [OF assms(1)]
    by (auto simp: auth_items_set_string_def auth_items_get_flags_def Let_def items_add_new_def
        auth_item_create_def auth_items_add_item_def split: option.splits if_splits)
qed

theorem auth_items_set_string_get_string_witness:
  "\<exists>hp''. auth_items_get_string (fst (auth_items_set_string sample_heap sample_items ''uid'' ''root''))
     (snd (auth_items_set_string sample_heap sample_items ''uid'' ''root'')) ''uid'' = (Some ''root'', hp'') \<and>
     \<not> hp_fault hp''"
proof -
  have "item_buf_ok (hp_get sample_heap a)" if "find_item sample_items ''uid'' = Some a" for a
    using that by (simp add: find_item_def sample_items_def sample_heap_def sample_item_def hp_get_def item_buf_ok_def)
  from auth_items_set_string_get_string [OF sample_wf _ this prod.collapse [symmetric], of "''root''"]
  show ?thesis by (simp add: sample_heap_def)
qed

text \<open>C34. An item survives its XPC form: parsing the message of an item gives its name, flags, type,
  value and length back, and parsing the message of a password leaves the block that carried it
  filled with zeros.\<close>

theorem auth_item_xpc_roundtrip:
  assumes "item_sized i" "ai_valueLength i < 2 ^ 64" "ai_value i = None \<Longrightarrow> ai_valueLength i = 0"
  shows "(\<exists>j. fst (auth_item_create_with_xpc (auth_item_copy_auth_item_xpc i)) = Some j \<and>
      ai_name j = ai_name i \<and> ai_flags j = ai_flags i \<and> ai_type j = ai_type i \<and>
      ai_valueLength j = ai_valueLength i \<and> ai_value j = map_option (take (ai_valueLength i)) (ai_value i)) \<and>
    (ai_name i = AGENT_PASSWORD \<longrightarrow> ai_value i \<noteq> None \<longrightarrow>
      xpc_dictionary_get_data (snd (auth_item_create_with_xpc (auth_item_copy_auth_item_xpc i)))
        AUTH_XPC_ITEM_VALUE = Some (replicate (max 32768 (ai_valueLength i)) NUL))"
  using xpc_item_roundtrip [OF assms] xpc_password_wiped [OF assms(1,2)] by blast

theorem auth_item_xpc_roundtrip_witness:
  "xpc_dictionary_get_data (snd (auth_item_create_with_xpc (auth_item_copy_auth_item_xpc
      (sample_item AGENT_PASSWORD ''secret'' 2)))) AUTH_XPC_ITEM_VALUE = Some (replicate 32768 NUL)"
  using auth_item_xpc_roundtrip [of "sample_item AGENT_PASSWORD ''secret'' 2"]
  by (simp add: sample_item_def item_sized_def max_def)

text \<open>A padding scheme that satisfies the contract of the cipher, for the witness.\<close>

fun pad_cipher :: cccrypt where
  "pad_cipher CCEncrypt key x room =
     (let p = 16 - length x mod 16; c = x @ replicate p (char_of p)
      in if room < length c then (CCBufferTooSmall, [], length c) else (CCSuccess, c, length c))"
| "pad_cipher CCDecrypt key c room =
     (let x = take (length c - of_char (last c)) c
      in if room < length c then (CCBufferTooSmall, [], length c) else (CCSuccess, x, length x))"

lemma pad_cipher_lawful: "crypt_lawful pad_cipher key"
  unfolding crypt_lawful_def
proof (intro allI impI)
  fix x :: string
  assume "x \<noteq> []"
  define p where "p = 16 - length x mod 16"
  define c where "c = x @ replicate p (char_of p)"
  have p: "0 < p" "p \<le> 16"
    by (auto simp: p_def)
  then have "last c = char_of p"
    by (simp add: c_def)
  then have "(of_char (last c) :: nat) = p"
    using p by simp
  then have dec: "take (length c - of_char (last c)) c = x"
    by (simp add: c_def)
  have "c \<noteq> []" "length c \<le> length c" "length x \<le> length c"
    "pad_cipher CCEncrypt key x 0 = (CCBufferTooSmall, [], length c)"
    "pad_cipher CCEncrypt key x (length c) = (CCSuccess, c, length c)"
    "pad_cipher CCDecrypt key c 0 = (CCBufferTooSmall, [], length c)"
    "pad_cipher CCDecrypt key c (length c) = (CCSuccess, x, length x)"
    using p dec \<open>x \<noteq> []\<close> by (simp_all add: Let_def p_def [symmetric] c_def [symmetric]) (simp_all add: c_def)
  then show "\<exists>c n m y z. c \<noteq> [] \<and> length c \<le> n \<and> length x \<le> m \<and>
      pad_cipher CCEncrypt key x 0 = (CCBufferTooSmall, y, n) \<and> pad_cipher CCEncrypt key x n = (CCSuccess, c, length c) \<and>
      pad_cipher CCDecrypt key c 0 = (CCBufferTooSmall, z, m) \<and> pad_cipher CCDecrypt key c m = (CCSuccess, x, length x)"
    by blast
qed

text \<open>C35. Encrypting a dictionary and decrypting it under the same key restores the name, type, flags,
  length and value of every item of the store, for any cipher that decrypts what it encrypts; without
  a key both leave the store alone.\<close>

theorem auth_items_encrypt_decrypt:
  assumes "items_wf hp items" "crypt_lawful cc key" "\<And>a. a \<in> snd ` set items \<Longrightarrow> item_sized (hp_get hp a)"
  shows "item_content (hp_get (auth_items_decrypt cc (auth_items_encrypt cc hp items (Some key)) items (Some key)) a) =
      item_content (hp_get hp a) \<and>
    hp_fault (auth_items_decrypt cc (auth_items_encrypt cc hp items (Some key)) items (Some key)) = hp_fault hp \<and>
    hp_get (auth_items_encrypt cc hp items None) a = hp_get hp a"
  using auth_items_decrypt_encrypt [OF assms]
    auth_items_crypt_worker_get [OF assms(1), of "\<lambda>i. auth_item_encrypt cc i None"]
  by (simp add: auth_items_encrypt_def auth_item_encrypt_def auth_item_crypt_worker_def)

theorem auth_items_encrypt_decrypt_witness:
  "item_content (hp_get (auth_items_decrypt pad_cipher
      (auth_items_encrypt pad_cipher sample_heap sample_items (Some ''k'')) sample_items (Some ''k'')) 0) =
    (''uid'', AI_TYPE_DATA, 1, 2, Some ''ab'')"
proof -
  have "item_sized (hp_get sample_heap a)" if "a \<in> snd ` set sample_items" for a
    using that by (auto simp: sample_items_def sample_heap_def sample_item_def hp_get_def item_sized_def)
  from auth_items_encrypt_decrypt [OF sample_wf pad_cipher_lawful this, of "''k''" 0]
  show ?thesis
    by (simp add: item_content_def sample_heap_def sample_item_def hp_get_def)
qed

text \<open>Removing a right removes every entry of that name, duplicates included, and keeps the others
  in order, although the loop removes while it indexes; setting a flag touches only the first entry
  of a name.\<close>

theorem auth_rights_remove_exact:
  "auth_rights_remove rights key = filter (\<lambda>r. ai_name r \<noteq> key) rights \<and>
   \<not> auth_rights_exist (auth_rights_remove rights key) key \<and>
   auth_rights_get_flags (auth_rights_add (auth_rights_remove rights key) key) key = 0"
proof -
  have "auth_rights_get_flags (auth_rights_add [r\<leftarrow>rights. ai_name r \<noteq> key] key) key = 0"
    by (induction rights) (auto simp: auth_rights_get_flags_def auth_rights_add_def auth_item_create_def)
  moreover have "\<not> auth_rights_exist [r\<leftarrow>rights. ai_name r \<noteq> key] key"
    by (auto simp: auth_rights_exist_iff)
  ultimately show ?thesis
    by (simp only: auth_rights_remove_filter) simp
qed

end
