(* ===== verification/Environment.thy ===== *)
theory Environment
  imports Auth_Items_Laws "HOL-Library.Multiset"
begin

text \<open>
  Everything the daemon asks of the system, as functions of a state \<^typ>\<open>'w\<close> of the outside world:
  the user database, group membership, the audit session interface, the sandbox, the clock, random
  bytes and the order in which Core Foundation enumerates a set.  A property that needs more of one
  of them than its type states it as a hypothesis.  The world changes only through the calls that
  are given a new state as their result.
\<close>

record passwd =
  pw_name :: string
  pw_uid :: "32 word"
  pw_gecos :: "string option"
  pw_passwd :: "string option"

text \<open>\<^verbatim>\<open>auditinfo_addr_t\<close>, as far as the sources use it.\<close>

record auditinfo =
  aia_asid :: "32 word"
  aia_auid :: "32 word"
  aia_flags :: "64 word"

text \<open>\<^verbatim>\<open>proc_pidpath\<close>: the path, no such process, or another error.\<close>

datatype pidpath = Pid_Path string | Pid_NoSuchProcess | Pid_Error

text \<open>What the code signing interface says of a running process: the path of its code, its validity,
  the signing information when it is readable, and whether it satisfies the requirements
  \<^verbatim>\<open>anchor apple\<close> and the one of the App Store.\<close>

record signing_info =
  si_requirement :: "string option"
  si_identifier :: "cf option"
  si_entitlements :: "cf option"

record sec_code =
  sc_path :: "string option"
  sc_valid :: bool
  sc_info :: "signing_info option"
  sc_anchor_apple :: bool
  sc_app_store :: bool

record 'w env =
  env_fvunlock :: "'w \<Rightarrow> bool"
  env_now :: "'w \<Rightarrow> real"
  env_getpwuid :: "'w \<Rightarrow> 32 word \<Rightarrow> passwd option"
  env_getpwnam :: "'w \<Rightarrow> string \<Rightarrow> passwd option"
  env_group_uuid :: "'w \<Rightarrow> string \<Rightarrow> string option"
  env_user_uuid :: "'w \<Rightarrow> 32 word \<Rightarrow> string option"
  env_is_member :: "'w \<Rightarrow> string \<Rightarrow> string \<Rightarrow> bool option"
  env_auditon :: "'w \<Rightarrow> 32 word \<Rightarrow> auditinfo option"
  env_setaudit :: "'w \<Rightarrow> auditinfo \<Rightarrow> 'w"
  env_order :: "'w \<Rightarrow> nat list \<Rightarrow> nat list"
  env_random :: "'w \<Rightarrow> nat \<Rightarrow> string option \<times> 'w"
  env_sandbox_obtain :: "'w \<Rightarrow> string \<Rightarrow> bool"
  env_realpath :: "'w \<Rightarrow> string \<Rightarrow> string option"
  env_access :: "'w \<Rightarrow> string \<Rightarrow> bool"
  env_pidpath :: "'w \<Rightarrow> 32 word \<Rightarrow> pidpath"
  env_guest_code :: "'w \<Rightarrow> string \<Rightarrow> sec_code option"
  env_mod_refs :: "'w \<Rightarrow> 32 word \<Rightarrow> bool"
  env_requirement_text :: "string \<Rightarrow> string option"
  env_double :: "real \<Rightarrow> 64 word"
  env_real :: "64 word \<Rightarrow> real"
  env_atof :: "string \<Rightarrow> 64 word"
  env_cccrypt :: cccrypt

text \<open>\<^verbatim>\<open>isInFVUnlockOrRecovery\<close>.\<close>

definition isInFVUnlockOrRecovery :: "('w, 'z) env_scheme \<Rightarrow> 'w \<Rightarrow> bool" where
  "isInFVUnlockOrRecovery env w = env_fvunlock env w"

text \<open>The enumeration of a set lists its members once each.\<close>

definition env_order_ok :: "('w, 'z) env_scheme \<Rightarrow> bool" where
  "env_order_ok env \<longleftrightarrow> (\<forall>w xs. mset (env_order env w xs) = mset xs)"

lemma env_order_set: "env_order_ok env \<Longrightarrow> set (env_order env w xs) = set xs"
  unfolding env_order_ok_def by (metis mset_eq_setD)

lemma env_order_length: "env_order_ok env \<Longrightarrow> length (env_order env w xs) = length xs"
  unfolding env_order_ok_def by (metis size_mset)

lemma env_order_distinct: "env_order_ok env \<Longrightarrow> distinct (env_order env w xs) = distinct xs"
  unfolding env_order_ok_def by (metis mset_eq_imp_distinct_iff)

text \<open>An environment for the witnesses: no user database, an empty directory, a clock at zero, sets
  enumerated backwards, random bytes that are all zero.\<close>

definition plain_env :: "'w env" where
  "plain_env = \<lparr> env_fvunlock = \<lambda>w. False, env_now = \<lambda>w. 0, env_getpwuid = \<lambda>w u. None,
     env_getpwnam = \<lambda>w n. None, env_group_uuid = \<lambda>w g. Some g, env_user_uuid = \<lambda>w u. Some ''u'',
     env_is_member = \<lambda>w u g. Some False, env_auditon = \<lambda>w a. None, env_setaudit = \<lambda>w a. w,
     env_order = \<lambda>w xs. rev xs, env_random = \<lambda>w n. (Some (replicate n NUL), w),
     env_sandbox_obtain = \<lambda>w t. True, env_realpath = \<lambda>w p. Some p, env_access = \<lambda>w p. True,
     env_pidpath = \<lambda>w p. Pid_Path ''/bin/sh'', env_guest_code = \<lambda>w t. None, env_mod_refs = \<lambda>w p. True,
     env_requirement_text = \<lambda>d. Some d, env_double = \<lambda>r. 0, env_real = \<lambda>d. 0, env_atof = \<lambda>s. 0, env_cccrypt = pad_cipher \<rparr>"

lemma plain_env_order_ok: "env_order_ok plain_env"
  by (simp add: env_order_ok_def plain_env_def)

end
