(* ===== verification/CF_Set.thy ===== *)
theory CF_Set
  imports Prelude
begin

text \<open>
  The sets and bags of Core Foundation that hold credentials, processes, tokens and connections.
  They compare their elements by a callback of the element's class, so each operation takes the
  equality as an argument: \<^verbatim>\<open>CFSetAddValue\<close> keeps an equal element that is there, \<^verbatim>\<open>CFSetSetValue\<close>
  replaces it, \<^verbatim>\<open>CFBagAddValue\<close> adds one more reference to it.  The contract of the sets, for an
  equality that is an equivalence, is the locale \<^verbatim>\<open>cf_set\<close>.
\<close>

section \<open>Operations\<close>

definition cfset_contains :: "('a \<Rightarrow> 'a \<Rightarrow> bool) \<Rightarrow> 'a list \<Rightarrow> 'a \<Rightarrow> bool" where
  "cfset_contains eq s x \<longleftrightarrow> (\<exists>y\<in>set s. eq x y)"

definition cfset_get :: "('a \<Rightarrow> 'a \<Rightarrow> bool) \<Rightarrow> 'a list \<Rightarrow> 'a \<Rightarrow> 'a option" where
  "cfset_get eq s x = List.find (eq x) s"

definition cfset_add :: "('a \<Rightarrow> 'a \<Rightarrow> bool) \<Rightarrow> 'a list \<Rightarrow> 'a \<Rightarrow> 'a list" where
  "cfset_add eq s x = (if cfset_contains eq s x then s else s @ [x])"

definition cfset_set :: "('a \<Rightarrow> 'a \<Rightarrow> bool) \<Rightarrow> 'a list \<Rightarrow> 'a \<Rightarrow> 'a list" where
  "cfset_set eq s x = (if cfset_contains eq s x then map (\<lambda>y. if eq x y then x else y) s else s @ [x])"

definition cfset_remove :: "('a \<Rightarrow> 'a \<Rightarrow> bool) \<Rightarrow> 'a list \<Rightarrow> 'a \<Rightarrow> 'a list" where
  "cfset_remove eq s x = filter (\<lambda>y. \<not> eq x y) s"

definition cfbag_add :: "('a \<Rightarrow> 'a \<Rightarrow> bool) \<Rightarrow> 'a list \<Rightarrow> 'a \<Rightarrow> 'a list" where
  "cfbag_add eq b x = b @ [case cfset_get eq b x of Some y \<Rightarrow> y | None \<Rightarrow> x]"

definition cfbag_count_of :: "('a \<Rightarrow> 'a \<Rightarrow> bool) \<Rightarrow> 'a list \<Rightarrow> 'a \<Rightarrow> nat" where
  "cfbag_count_of eq b x = length (filter (eq x) b)"

fun cfbag_remove :: "('a \<Rightarrow> 'a \<Rightarrow> bool) \<Rightarrow> 'a list \<Rightarrow> 'a \<Rightarrow> 'a list" where
  "cfbag_remove eq [] x = []"
| "cfbag_remove eq (y # b) x = (if eq x y then b else y # cfbag_remove eq b x)"

section \<open>The contract of a set\<close>

locale cf_set =
  fixes eq :: "'a \<Rightarrow> 'a \<Rightarrow> bool"
  assumes eq_refl: "eq x x"
    and eq_sym: "eq x y \<Longrightarrow> eq y x"
    and eq_trans: "eq x y \<Longrightarrow> eq y z \<Longrightarrow> eq x z"
begin

text \<open>No two members are equal.\<close>

definition wf :: "'a list \<Rightarrow> bool" where
  "wf s \<longleftrightarrow> sorted_wrt (\<lambda>x y. \<not> eq x y) s"

lemma wf_Nil: "wf []"
  by (simp add: wf_def)

lemma wf_filter: "wf s \<Longrightarrow> wf (filter P s)"
  by (simp add: wf_def sorted_wrt_filter)

lemma wf_add: "wf s \<Longrightarrow> wf (cfset_add eq s x)"
  using eq_sym by (auto simp: wf_def cfset_add_def cfset_contains_def sorted_wrt_append)

lemma wf_remove: "wf s \<Longrightarrow> wf (cfset_remove eq s x)"
  by (simp add: cfset_remove_def wf_filter)

lemma wf_set:
  assumes "wf s"
  shows "wf (cfset_set eq s x)"
proof -
  define f where "f = (\<lambda>y. if eq x y then x else y)"
  have f: "\<not> eq (f y) (f z)" if "\<not> eq y z" for y z
    using that eq_sym [of x y] eq_trans [of y x z] eq_sym [of y x] by (auto simp: f_def)
  have "sorted_wrt (\<lambda>x y. \<not> eq x y) (map f s)"
    using assms f unfolding wf_def by (induction s) auto
  moreover have "wf (s @ [x])" if "\<not> cfset_contains eq s x"
    using that assms eq_sym by (auto simp: wf_def cfset_contains_def sorted_wrt_append)
  ultimately show ?thesis
    by (simp add: cfset_set_def wf_def f_def)
qed

lemma contains_add: "cfset_contains eq (cfset_add eq s x) y \<longleftrightarrow> eq y x \<or> cfset_contains eq s y"
  using eq_trans by (auto simp: cfset_add_def cfset_contains_def)

lemma contains_cong: "eq x y \<Longrightarrow> cfset_contains eq s x \<longleftrightarrow> cfset_contains eq s y"
  unfolding cfset_contains_def by (blast intro: eq_sym eq_trans)

lemma contains_set: "cfset_contains eq (cfset_set eq s x) y \<longleftrightarrow> eq y x \<or> cfset_contains eq s y"
proof (cases "eq y x")
  case True
  then show ?thesis
    by (auto simp: cfset_set_def cfset_contains_def)
next
  case False
  define f where "f = (\<lambda>y. if eq x y then x else y)"
  have "eq y (f z) \<longleftrightarrow> eq y z" for z
    using False eq_trans [of y z x] eq_sym [of x z] by (auto simp: f_def)
  then have "cfset_contains eq (map f s) y \<longleftrightarrow> cfset_contains eq s y"
    by (simp add: cfset_contains_def)
  moreover have "cfset_contains eq (s @ [x]) y \<longleftrightarrow> cfset_contains eq s y"
    using False by (auto simp: cfset_contains_def)
  ultimately show ?thesis
    using False by (simp add: cfset_set_def f_def)
qed

lemma contains_remove: "cfset_contains eq (cfset_remove eq s x) y \<longleftrightarrow> \<not> eq x y \<and> cfset_contains eq s y"
proof -
  have "eq x z \<longleftrightarrow> eq x y" if "eq y z" for z
    using that eq_trans [of x y z] eq_trans [of x z y] eq_sym [of y z] by blast
  then show ?thesis
    unfolding cfset_remove_def cfset_contains_def by auto
qed

lemma set_mem: "x \<in> set (cfset_set eq s x)"
  by (auto simp: cfset_set_def cfset_contains_def)

lemma set_subset: "set (cfset_set eq s x) \<subseteq> insert x (set s)"
  by (auto simp: cfset_set_def)

lemma wf_same: "wf s \<Longrightarrow> y \<in> set s \<Longrightarrow> z \<in> set s \<Longrightarrow> eq y z \<Longrightarrow> y = z"
  using eq_sym unfolding wf_def by (induction s) auto

lemma remove_set: "wf s \<Longrightarrow> x \<in> set s \<Longrightarrow> set (cfset_remove eq s x) = set s - {x}"
  using wf_same eq_refl by (auto simp: cfset_remove_def)

end

text \<open>Pointer equality, the default of the sets without callbacks.\<close>

interpretation pointer_set: cf_set "(=)"
  by unfold_locales auto

lemma pointer_set_wf: "pointer_set.wf s \<longleftrightarrow> distinct s"
  by (induction s) (auto simp: pointer_set.wf_def)

end
