(* ===== verification/Credential.thy ===== *)
theory Credential
  imports Environment CF_Set Auth_Items_Laws
begin

text \<open>
  \<^verbatim>\<open>src/OSX/authd/credential.c\<close>: what the daemon remembers about a user it has authenticated (a uid
  credential) or a right it has granted to a least-privileged client (a right credential).
  Credentials are shared by the sets of sessions, tokens and engines, so they live in a store, a list
  indexed by their addresses; sets of credentials are lists of addresses under the equality of the
  class, which compares hashes.
\<close>

unbundle bit_operations_syntax

section \<open>Credentials\<close>

record credential =
  cr_right :: bool
  cr_uid :: "32 word"
  cr_name :: "string option"
  cr_realName :: "string option"
  cr_creationTime :: real
  cr_valid :: bool
  cr_shared :: bool
  cr_cachedGroups :: "string list"

definition AGENT_USERNAME :: string where "AGENT_USERNAME = ''username''"

definition credential_new :: "('w, 'z) env_scheme \<Rightarrow> 'w \<Rightarrow> credential" where
  "credential_new env w = \<lparr> cr_right = False, cr_uid = 0, cr_name = None, cr_realName = None,
     cr_creationTime = env_now env w, cr_valid = False, cr_shared = False, cr_cachedGroups = [] \<rparr>"

definition credential_create :: "('w, 'z) env_scheme \<Rightarrow> 'w \<Rightarrow> 32 word \<Rightarrow> credential" where
  "credential_create env w uid =
     (let cred = credential_new env w
      in case (if - 1 < sint uid then env_getpwuid env w uid else None) of
           Some pw \<Rightarrow>
             if uid < 500 \<or> pw_passwd pw = None \<or> pw_passwd pw \<noteq> Some ''*'' then
               cred\<lparr> cr_uid := pw_uid pw, cr_name := Some (pw_name pw), cr_realName := pw_gecos pw, cr_valid := True \<rparr>
             else cred\<lparr> cr_uid := - 2, cr_name := Some ''invalid'', cr_valid := False \<rparr>
         | None \<Rightarrow> cred\<lparr> cr_uid := - 3, cr_name := Some ''invalid'', cr_valid := False \<rparr>)"

definition credential_create_fvunlock ::
  "('w, 'z) env_scheme \<Rightarrow> 'w \<Rightarrow> items_heap \<Rightarrow> auth_items \<Rightarrow> bool \<Rightarrow> credential \<times> items_heap" where
  "credential_create_fvunlock env w hp context_items session =
     (let (username, hp') = (if session then (Some ''system session'', hp)
                             else auth_items_get_string hp context_items AGENT_USERNAME)
      in ((credential_new env w)\<lparr> cr_uid := (if session then 0 else - 500), cr_name := username,
            cr_realName := username, cr_valid := False \<rparr>, hp'))"

definition credential_create_with_credential ::
  "('w, 'z) env_scheme \<Rightarrow> 'w \<Rightarrow> credential \<Rightarrow> bool \<Rightarrow> credential" where
  "credential_create_with_credential env w srcCred shared =
     (credential_new env w)\<lparr> cr_uid := cr_uid srcCred, cr_name := cr_name srcCred,
        cr_realName := cr_realName srcCred, cr_valid := cr_valid srcCred, cr_right := cr_right srcCred,
        cr_shared := shared \<rparr>"

definition credential_create_with_right :: "('w, 'z) env_scheme \<Rightarrow> 'w \<Rightarrow> string \<Rightarrow> credential" where
  "credential_create_with_right env w right =
     (credential_new env w)\<lparr> cr_right := True, cr_name := Some right, cr_uid := - 2, cr_valid := True \<rparr>"

definition credential_invalidate :: "credential \<Rightarrow> credential" where
  "credential_invalidate cred = cred\<lparr> cr_valid := False \<rparr>"

text \<open>\<^verbatim>\<open>credential_check_membership\<close>, with its guards as they are written; the answer and the credential
  with its cache of groups.\<close>

definition credential_check_membership ::
  "('w, 'z) env_scheme \<Rightarrow> 'w \<Rightarrow> credential \<Rightarrow> string option \<Rightarrow> bool \<times> credential" where
  "credential_check_membership env w cred grp =
     (if isInFVUnlockOrRecovery env w then (False, cred)
      else case grp of
        None \<Rightarrow> (False, cred)
      | Some g \<Rightarrow>
          if \<not> (cr_uid cred \<noteq> 0 \<or> cr_uid cred \<noteq> - 2) then (False, cred)
          else if cr_right cred then (False, cred)
          else if g \<in> set (cr_cachedGroups cred) then (True, cred)
          else case env_group_uuid env w g of
              None \<Rightarrow> (False, cred)
            | Some group_uuid \<Rightarrow>
                (case env_user_uuid env w (cr_uid cred) of
                   None \<Rightarrow> (False, cred)
                 | Some user_uuid \<Rightarrow>
                     (case env_is_member env w user_uuid group_uuid of
                        None \<Rightarrow> (False, cred)
                      | Some ismember \<Rightarrow>
                          (ismember,
                           if ismember
                           then cred\<lparr> cr_cachedGroups := cfset_set (=) (cr_cachedGroups cred) g \<rparr>
                           else cred))))"

section \<open>Hash and equality\<close>

definition credential_hash :: "credential \<Rightarrow> 64 word" where
  "credential_hash cred =
     (let crc = crc64_init;
          crc = (if cr_right cred then crc64_update crc (case cr_name cred of None \<Rightarrow> [] | Some n \<Rightarrow> n)
                 else crc64_update crc (le_bytes 4 (unat (cr_uid cred))));
          crc = crc64_update crc (bool_bytes (cr_shared cred))
      in crc64_final crc)"

definition credential_equal :: "credential \<Rightarrow> credential \<Rightarrow> bool" where
  "credential_equal c1 c2 \<longleftrightarrow> credential_hash c1 = credential_hash c2"

text \<open>Equality of the credentials at two addresses of the store.\<close>

definition cred_eq :: "credential list \<Rightarrow> nat \<Rightarrow> nat \<Rightarrow> bool" where
  "cred_eq ch a b \<longleftrightarrow> credential_equal (ch ! a) (ch ! b)"

interpretation cred_set: cf_set "cred_eq ch" for ch
  by unfold_locales (simp_all add: cred_eq_def credential_equal_def)

lemma credential_hash_crc64:
  "credential_hash cred =
     crc64 ((if cr_right cred then (case cr_name cred of None \<Rightarrow> [] | Some n \<Rightarrow> n) else le_bytes 4 (unat (cr_uid cred)))
       @ bool_bytes (cr_shared cred))"
  by (simp add: credential_hash_def crc64_def crc64_update_append Let_def)

lemma bool_bytes_inject [simp]: "bool_bytes a = bool_bytes b \<longleftrightarrow> a = b"
  by (simp add: bool_bytes_def)

lemma length_bool_bytes [simp]: "length (bool_bytes b) = 1"
  by (simp add: bool_bytes_def)

lemma le_bytes_word_inject: "le_bytes 4 (unat (a :: 32 word)) = le_bytes 4 (unat b) \<longleftrightarrow> a = b"
proof -
  have "unat a < 256 ^ 4" "unat b < 256 ^ 4"
    using unsigned_less [of a, where 'a = nat] unsigned_less [of b, where 'a = nat] by simp_all
  then show ?thesis
    by (simp add: le_bytes_inject word_unat_eq_iff)
qed

lemma credential_equal_uid:
  "\<not> cr_right c1 \<Longrightarrow> \<not> cr_right c2 \<Longrightarrow>
     credential_equal c1 c2 \<longleftrightarrow> cr_uid c1 = cr_uid c2 \<and> cr_shared c1 = cr_shared c2"
  by (simp add: credential_equal_def credential_hash_crc64 crc64_inject le_bytes_word_inject)

text \<open>C19. Equality of credentials goes through a 64-bit hash, and yet it is exact on uid credentials:
  two of them are equal exactly when they have the same uid and the same sharing.  For right
  credentials it is exact on names of equal length up to seven bytes.  A right credential is taken
  for a uid credential when its name is the four bytes of the uid.\<close>

theorem credential_equal_exact:
  "(\<not> cr_right c1 \<longrightarrow> \<not> cr_right c2 \<longrightarrow>
      (credential_equal c1 c2 \<longleftrightarrow> cr_uid c1 = cr_uid c2 \<and> cr_shared c1 = cr_shared c2)) \<and>
   (cr_right c1 \<longrightarrow> cr_right c2 \<longrightarrow> cr_name c1 = Some n1 \<longrightarrow> cr_name c2 = Some n2 \<longrightarrow>
      length n1 = length n2 \<longrightarrow> length n1 \<le> 7 \<longrightarrow>
      (credential_equal c1 c2 \<longleftrightarrow> n1 = n2 \<and> cr_shared c1 = cr_shared c2)) \<and>
   (cr_right c1 \<longrightarrow> \<not> cr_right c2 \<longrightarrow> cr_name c1 = Some (le_bytes 4 (unat (cr_uid c2))) \<longrightarrow>
      cr_shared c1 = cr_shared c2 \<longrightarrow> credential_equal c1 c2)"
proof (intro conjI impI)
  assume "\<not> cr_right c1" "\<not> cr_right c2"
  then show "credential_equal c1 c2 \<longleftrightarrow> cr_uid c1 = cr_uid c2 \<and> cr_shared c1 = cr_shared c2"
    by (rule credential_equal_uid)
next
  assume "cr_right c1" "cr_right c2" "cr_name c1 = Some n1" "cr_name c2 = Some n2"
    "length n1 = length n2" "length n1 \<le> 7"
  then show "credential_equal c1 c2 \<longleftrightarrow> n1 = n2 \<and> cr_shared c1 = cr_shared c2"
    by (simp add: credential_equal_def credential_hash_crc64 crc64_inject)
next
  assume "cr_right c1" "\<not> cr_right c2" "cr_name c1 = Some (le_bytes 4 (unat (cr_uid c2)))" "cr_shared c1 = cr_shared c2"
  then show "credential_equal c1 c2"
    by (simp add: credential_equal_def credential_hash_crc64)
qed

theorem credential_equal_exact_witness:
  "credential_equal
     \<lparr> cr_right = False, cr_uid = 501, cr_name = Some ''a'', cr_realName = None, cr_creationTime = 0,
       cr_valid = True, cr_shared = False, cr_cachedGroups = [] \<rparr>
     \<lparr> cr_right = False, cr_uid = 501, cr_name = Some ''b'', cr_realName = None, cr_creationTime = 1,
       cr_valid = False, cr_shared = False, cr_cachedGroups = [''admin''] \<rparr> \<and>
   \<not> credential_equal
     \<lparr> cr_right = False, cr_uid = 501, cr_name = Some ''a'', cr_realName = None, cr_creationTime = 0,
       cr_valid = True, cr_shared = False, cr_cachedGroups = [] \<rparr>
     \<lparr> cr_right = False, cr_uid = 502, cr_name = Some ''a'', cr_realName = None, cr_creationTime = 0,
       cr_valid = True, cr_shared = False, cr_cachedGroups = [] \<rparr>"
  using credential_equal_exact
    [of "\<lparr> cr_right = False, cr_uid = 501, cr_name = Some ''a'', cr_realName = None, cr_creationTime = 0,
       cr_valid = True, cr_shared = False, cr_cachedGroups = [] \<rparr>"]
  by auto

text \<open>C20. A membership test answers yes exactly outside FileVault unlock, for a uid credential, when the
  group was cached or the directory says so; the guard on the uid excludes no one, root and nobody
  included.  A yes is final: whatever the directory says later, the same credential is asked again
  only in FileVault unlock.\<close>

theorem credential_check_membership_exact:
  "(fst (credential_check_membership env w cred (Some g)) \<longleftrightarrow>
      \<not> env_fvunlock env w \<and> \<not> cr_right cred \<and>
      (g \<in> set (cr_cachedGroups cred) \<or>
       (\<exists>gu uu. env_group_uuid env w g = Some gu \<and> env_user_uuid env w (cr_uid cred) = Some uu \<and>
          env_is_member env w uu gu = Some True))) \<and>
   (fst (credential_check_membership env w cred (Some g)) \<longrightarrow>
      fst (credential_check_membership env' w' (snd (credential_check_membership env w cred (Some g))) (Some g)) =
        (\<not> env_fvunlock env' w'))"
proof -
  have guard: "cr_uid c \<noteq> 0 \<or> cr_uid c \<noteq> - 2" for c :: credential
    by auto
  have mem: "x \<in> set (cfset_set (=) xs x)" for x :: string and xs
    by (rule pointer_set.set_mem)
  show ?thesis
    using guard mem
    by (auto simp: credential_check_membership_def isInFVUnlockOrRecovery_def split: option.splits)
qed

theorem credential_check_membership_exact_witness:
  "fst (credential_check_membership
     (plain_env\<lparr> env_is_member := \<lambda>w u g. Some w \<rparr>) True
     \<lparr> cr_right = False, cr_uid = 0, cr_name = None, cr_realName = None, cr_creationTime = 0,
       cr_valid = True, cr_shared = False, cr_cachedGroups = [] \<rparr> (Some ''admin''))"
  by (subst credential_check_membership_exact [THEN conjunct1]) (simp add: plain_env_def)

end
