(* ===== verification/Session.thy ===== *)
theory Session
  imports Credential
begin

text \<open>
  \<^verbatim>\<open>src/OSX/authd/session.c\<close>: an audit session with the credentials it shares and the processes that
  belong to it.  Credentials are addresses of the credential store; processes are compared by
  pointer.  An iteration copies the members of the set into an array of at most 128 slots, and writes
  past it when there are more: the iterator returns a flag that is false in that case.
\<close>

unbundle bit_operations_syntax

record session =
  ss_credentials :: "nat list"
  ss_processes :: "nat list"
  ss_auditinfo :: auditinfo

definition session_update :: "('w, 'z) env_scheme \<Rightarrow> 'w \<Rightarrow> session \<Rightarrow> bool \<times> session" where
  "session_update env w session =
     (case env_auditon env w (aia_asid (ss_auditinfo session)) of
        None \<Rightarrow> (False, session)
      | Some info \<Rightarrow> (True, session\<lparr> ss_auditinfo := info \<rparr>))"

definition session_create :: "('w, 'z) env_scheme \<Rightarrow> 'w \<Rightarrow> 32 word \<Rightarrow> session" where
  "session_create env w sid =
     snd (session_update env w
       \<lparr> ss_credentials = [], ss_processes = [],
         ss_auditinfo = \<lparr> aia_asid = sid, aia_auid = 0, aia_flags = 0 \<rparr> \<rparr>)"

definition session_get_attributes :: "('w, 'z) env_scheme \<Rightarrow> 'w \<Rightarrow> session \<Rightarrow> 64 word \<times> session" where
  "session_get_attributes env w session =
     (let s = snd (session_update env w session) in (aia_flags (ss_auditinfo s), s))"

definition set_attributes :: "('w, 'z) env_scheme \<Rightarrow> 'w \<Rightarrow> session \<Rightarrow> 64 word \<Rightarrow> session \<times> 'w" where
  "set_attributes env w session flags =
     (let info = (ss_auditinfo session)\<lparr> aia_flags := flags \<rparr>
      in (session\<lparr> ss_auditinfo := info \<rparr>, env_setaudit env w info))"

definition session_set_attributes :: "('w, 'z) env_scheme \<Rightarrow> 'w \<Rightarrow> session \<Rightarrow> 64 word \<Rightarrow> session \<times> 'w" where
  "session_set_attributes env w session flags =
     (let s = snd (session_update env w session)
      in set_attributes env w s (aia_flags (ss_auditinfo s) OR flags))"

definition session_clear_attributes :: "('w, 'z) env_scheme \<Rightarrow> 'w \<Rightarrow> session \<Rightarrow> 64 word \<Rightarrow> session \<times> 'w" where
  "session_clear_attributes env w session flags =
     (let s = snd (session_update env w session)
      in set_attributes env w s (aia_flags (ss_auditinfo s) AND NOT flags))"

definition session_get_id :: "session \<Rightarrow> 32 word" where
  "session_get_id session = aia_asid (ss_auditinfo session)"

definition session_get_uid :: "session \<Rightarrow> 32 word" where
  "session_get_uid session = aia_auid (ss_auditinfo session)"

definition session_add_process :: "session \<Rightarrow> nat \<Rightarrow> session \<times> nat" where
  "session_add_process session proc =
     (let s = session\<lparr> ss_processes := cfset_add (=) (ss_processes session) proc \<rparr>
      in (s, length (ss_processes s)))"

definition session_remove_process :: "session \<Rightarrow> nat \<Rightarrow> session \<times> nat" where
  "session_remove_process session proc =
     (let s = session\<lparr> ss_processes := cfset_remove (=) (ss_processes session) proc \<rparr>
      in (s, length (ss_processes s)))"

definition session_get_process_count :: "session \<Rightarrow> nat" where
  "session_get_process_count session = length (ss_processes session)"

definition session_set_credential :: "credential list \<Rightarrow> session \<Rightarrow> nat \<Rightarrow> session" where
  "session_set_credential ch session cred =
     (if \<not> cr_valid (ch ! cred) then session
      else session\<lparr> ss_credentials := cfset_set (cred_eq ch) (ss_credentials session) cred \<rparr>)"

text \<open>The members an iteration visits, and whether the array held them all.\<close>

definition iterate_limit :: nat where
  "iterate_limit = 128"

definition session_credentials_iterate ::
  "('w, 'z) env_scheme \<Rightarrow> 'w \<Rightarrow> session \<Rightarrow> (nat \<Rightarrow> 's \<Rightarrow> bool \<times> 's) \<Rightarrow> 's \<Rightarrow> bool \<times> 's \<times> bool" where
  "session_credentials_iterate env w session iter s =
     (let vals = env_order env w (ss_credentials session);
          (result, s') = cf_iterate iter (take iterate_limit vals) False s
      in (result, s', length (ss_credentials session) \<le> iterate_limit))"

definition session_credentials_purge ::
  "('w, 'z) env_scheme \<Rightarrow> 'w \<Rightarrow> credential list \<Rightarrow> session \<Rightarrow> session \<times> bool" where
  "session_credentials_purge env w ch session =
     (case session_credentials_iterate env w session
        (\<lambda>cred s. (True, if \<not> cr_valid (ch ! cred)
                        then s\<lparr> ss_credentials := cfset_remove (cred_eq ch) (ss_credentials s) cred \<rparr> else s))
        session of
      (_, s', ok) \<Rightarrow> (s', ok))"

section \<open>Properties\<close>

lemma purge_fold:
  assumes "cred_set.wf ch creds" "set xs \<subseteq> set creds"
  shows "fold (\<lambda>cred s. if \<not> cr_valid (ch ! cred)
      then s\<lparr> ss_credentials := cfset_remove (cred_eq ch) (ss_credentials s) cred \<rparr> else s) xs
      (session\<lparr> ss_credentials := creds \<rparr>) =
    session\<lparr> ss_credentials := filter (\<lambda>c. c \<notin> set xs \<or> cr_valid (ch ! c)) creds \<rparr>"
  using assms(2)
proof (induction xs rule: rev_induct)
  case Nil
  then show ?case by simp
next
  case (snoc x xs)
  have "cfset_remove (cred_eq ch) (filter (\<lambda>c. c \<notin> set xs \<or> cr_valid (ch ! c)) creds) x =
      filter (\<lambda>c. c \<notin> set (xs @ [x]) \<or> cr_valid (ch ! c)) creds" if "\<not> cr_valid (ch ! x)"
    unfolding cfset_remove_def filter_filter
    using that cred_set.wf_same [OF assms(1), of x] snoc.prems cred_set.eq_refl [of ch x]
    by (intro filter_cong) auto
  moreover have "filter (\<lambda>c. c \<notin> set xs \<or> cr_valid (ch ! c)) creds =
      filter (\<lambda>c. c \<notin> set (xs @ [x]) \<or> cr_valid (ch ! c)) creds" if "cr_valid (ch ! x)"
    using that by (intro filter_cong) auto
  ultimately show ?case
    using snoc by simp
qed

text \<open>C21. A session only takes in valid credentials, and keeps at most one of a kind; a purge of a
  session of at most 128 credentials leaves exactly the valid ones, in place, whatever the order in
  which the set enumerates them and although it removes while it iterates.\<close>

theorem session_credentials_valid:
  assumes "cred_set.wf ch (ss_credentials session)" "env_order_ok env"
    "length (ss_credentials session) \<le> 128"
  shows "session_credentials_purge env w ch session =
      (session\<lparr> ss_credentials := filter (\<lambda>c. cr_valid (ch ! c)) (ss_credentials session) \<rparr>, True) \<and>
    cred_set.wf ch (ss_credentials (session_set_credential ch session cred)) \<and>
    ((\<forall>c\<in>set (ss_credentials session). cr_valid (ch ! c)) \<longrightarrow>
      (\<forall>c\<in>set (ss_credentials (session_set_credential ch session cred)). cr_valid (ch ! c)))"
proof -
  have len: "length (env_order env w (ss_credentials session)) \<le> 128"
    using assms(2,3) by (simp add: env_order_length)
  define f where "f = (\<lambda>cred (s :: session). if \<not> cr_valid (ch ! cred)
      then s\<lparr> ss_credentials := cfset_remove (cred_eq ch) (ss_credentials s) cred \<rparr> else s)"
  have fold: "fold f (env_order env w (ss_credentials session)) session =
      session\<lparr> ss_credentials := filter (\<lambda>c. cr_valid (ch ! c)) (ss_credentials session) \<rparr>"
    using purge_fold [OF assms(1), of "env_order env w (ss_credentials session)" session]
    by (simp add: f_def env_order_set [OF assms(2)] cong: filter_cong)
  have "session_credentials_purge env w ch session =
      (session\<lparr> ss_credentials := filter (\<lambda>c. cr_valid (ch ! c)) (ss_credentials session) \<rparr>, True)"
    using len assms(3)
    by (simp add: session_credentials_purge_def session_credentials_iterate_def Let_def split_def
        cf_iterate_all iterate_limit_def f_def [symmetric] fold)
  moreover have "cred_set.wf ch (ss_credentials (session_set_credential ch session cred))"
    using assms(1) by (simp add: session_set_credential_def cred_set.wf_set)
  moreover have "(\<forall>c\<in>set (ss_credentials session). cr_valid (ch ! c)) \<longrightarrow>
      (\<forall>c\<in>set (ss_credentials (session_set_credential ch session cred)). cr_valid (ch ! c))"
    using cred_set.set_subset [of ch "ss_credentials session" cred]
    by (auto simp: session_set_credential_def)
  ultimately show ?thesis by blast
qed

definition sample_cred :: "32 word \<Rightarrow> bool \<Rightarrow> credential" where
  "sample_cred uid valid = \<lparr> cr_right = False, cr_uid = uid, cr_name = Some ''user'', cr_realName = None,
     cr_creationTime = 0, cr_valid = valid, cr_shared = False, cr_cachedGroups = [] \<rparr>"

definition sample_session :: session where
  "sample_session = \<lparr> ss_credentials = [0, 1], ss_processes = [],
     ss_auditinfo = \<lparr> aia_asid = 1, aia_auid = 501, aia_flags = 0 \<rparr> \<rparr>"

lemma sample_creds_wf: "cred_set.wf [sample_cred 501 True, sample_cred 502 False] [0, 1]"
  by (simp add: cred_set.wf_def cred_eq_def sample_cred_def credential_equal_uid)

theorem session_credentials_valid_witness:
  "ss_credentials (fst (session_credentials_purge plain_env () [sample_cred 501 True, sample_cred 502 False]
     sample_session)) = [0]"
  using session_credentials_valid [OF _ plain_env_order_ok, of "[sample_cred 501 True, sample_cred 502 False]"
      sample_session "()" 0] sample_creds_wf
  by (simp add: sample_session_def sample_cred_def)

end
