(* ===== verification/Process.thy ===== *)
theory Process
  imports Session
begin

text \<open>
  \<^verbatim>\<open>src/OSX/authd/process.c\<close>: a client process with its audit information, its connections, the bag of
  authorization tokens it holds and its code signing identity.  Processes, sessions and tokens are
  addresses of the daemon's stores; what links a process to its tokens changes both sides and stands
  in the theory of the daemon.  Calls of the code signing interface and of \<^verbatim>\<open>libproc\<close> are functions of
  the environment; the requirement texts the code compiles are constants, so compiling them succeeds.
\<close>

unbundle bit_operations_syntax

section \<open>Processes\<close>

record audit_info =
  au_auid :: "32 word"
  au_euid :: "32 word"
  au_egid :: "32 word"
  au_ruid :: "32 word"
  au_rgid :: "32 word"
  au_pid :: "32 word"
  au_asid :: "32 word"
  au_tid :: "32 word"
  au_opaqueToken :: string

record process =
  pr_auditInfo :: audit_info
  pr_session :: nat
  pr_authTokens :: "nat list"
  pr_connections :: "nat list"
  pr_code_url :: string
  pr_code_identifier :: "string option"
  pr_code_requirement_data :: "string option"
  pr_code_entitlements :: "(string \<times> cf) list option"
  pr_bootstrap :: "32 word"
  pr_appStoreSigned :: bool
  pr_firstPartySigned :: bool

abbreviation MACH_PORT_NULL :: "32 word" where "MACH_PORT_NULL \<equiv> 0"

text \<open>The size of the buffer of the code path, \<^verbatim>\<open>PATH_MAX+1\<close>.\<close>

definition code_url_size :: nat where
  "code_url_size = 1025"

definition process_verify_requirement :: "bool \<Rightarrow> bool" where
  "process_verify_requirement satisfied = satisfied"

text \<open>\<^verbatim>\<open>process_create\<close>.  A process whose code is not valid, or whose signing information cannot be read,
  is created without identity.\<close>

definition process_create :: "('w, 'z) env_scheme \<Rightarrow> 'w \<Rightarrow> audit_info \<Rightarrow> nat \<Rightarrow> process option" where
  "process_create env w auditInfo session =
     (let proc = \<lparr> pr_auditInfo = auditInfo, pr_session = session, pr_authTokens = [], pr_connections = [],
            pr_code_url = [], pr_code_identifier = None, pr_code_requirement_data = None,
            pr_code_entitlements = None, pr_bootstrap = MACH_PORT_NULL,
            pr_appStoreSigned = False, pr_firstPartySigned = False \<rparr>
      in case env_pidpath env w (au_pid auditInfo) of
           Pid_NoSuchProcess \<Rightarrow> None
         | pidpath \<Rightarrow>
             let proc = (case pidpath of Pid_Path p \<Rightarrow> proc\<lparr> pr_code_url := strlcpy p code_url_size \<rparr> | _ \<Rightarrow> proc)
             in case env_guest_code env w (au_opaqueToken auditInfo) of
                  None \<Rightarrow> None
                | Some code \<Rightarrow>
                    let proc = (case sc_path code of
                          Some p \<Rightarrow> if length p < code_url_size then proc\<lparr> pr_code_url := p \<rparr> else proc
                        | None \<Rightarrow> proc)
                    in if \<not> sc_valid code then Some proc
                       else case sc_info code of
                         None \<Rightarrow> Some proc
                       | Some info \<Rightarrow>
                           Some (proc\<lparr>
                             pr_code_requirement_data := si_requirement info,
                             pr_code_identifier := (case si_identifier info of
                                 Some (CF_String s) \<Rightarrow> copy_cf_string (Some (CF_String s)) None | _ \<Rightarrow> None),
                             pr_code_entitlements := (case si_entitlements info of
                                 Some (CF_Dict d) \<Rightarrow> Some d | _ \<Rightarrow> None),
                             pr_firstPartySigned := process_verify_requirement (sc_anchor_apple code),
                             pr_appStoreSigned := process_verify_requirement (sc_app_store code) \<rparr>))"

definition process_get_uid :: "process \<Rightarrow> 32 word" where
  "process_get_uid proc = au_euid (pr_auditInfo proc)"

definition process_get_pid :: "process \<Rightarrow> 32 word" where
  "process_get_pid proc = au_pid (pr_auditInfo proc)"

definition process_get_generation :: "process \<Rightarrow> 32 word" where
  "process_get_generation proc = au_tid (pr_auditInfo proc)"

definition process_get_session_id :: "process \<Rightarrow> 32 word" where
  "process_get_session_id proc = au_asid (pr_auditInfo proc)"

text \<open>The key of the process map, as the equality callback of the map compares it.\<close>

definition process_get_key :: "process \<Rightarrow> 32 word \<times> 32 word" where
  "process_get_key proc = (au_pid (pr_auditInfo proc), au_tid (pr_auditInfo proc))"

definition process_add_connection :: "process \<Rightarrow> nat \<Rightarrow> process \<times> nat" where
  "process_add_connection proc conn =
     (let p = proc\<lparr> pr_connections := cfset_add (=) (pr_connections proc) conn \<rparr> in (p, length (pr_connections p)))"

definition process_remove_connection :: "process \<Rightarrow> nat \<Rightarrow> process \<times> nat" where
  "process_remove_connection proc conn =
     (let p = proc\<lparr> pr_connections := cfset_remove (=) (pr_connections proc) conn \<rparr> in (p, length (pr_connections p)))"

definition process_get_connection_count :: "process \<Rightarrow> nat" where
  "process_get_connection_count proc = length (pr_connections proc)"

definition process_get_auth_token_count :: "process \<Rightarrow> nat" where
  "process_get_auth_token_count proc = length (pr_authTokens proc)"

section \<open>Entitlements\<close>

definition process_copy_entitlement_value :: "process \<Rightarrow> string \<Rightarrow> cf option" where
  "process_copy_entitlement_value proc entitlement =
     (case pr_code_entitlements proc of None \<Rightarrow> None | Some d \<Rightarrow> map_of d entitlement)"

definition process_has_entitlement :: "process \<Rightarrow> string \<Rightarrow> bool" where
  "process_has_entitlement proc entitlement =
     (case pr_code_entitlements proc of
        None \<Rightarrow> False
      | Some d \<Rightarrow> (case map_of d entitlement of Some (CF_Bool b) \<Rightarrow> b | _ \<Rightarrow> False))"

fun rights_loop :: "cf list \<Rightarrow> string \<Rightarrow> bool" where
  "rights_loop [] right = False"
| "rights_loop (v # rights) right = (if v = CF_String right then True else rights_loop rights right)"

definition process_has_entitlement_for_right :: "process \<Rightarrow> string \<Rightarrow> bool" where
  "process_has_entitlement_for_right proc right =
     (case pr_code_entitlements proc of
        None \<Rightarrow> False
      | Some d \<Rightarrow> (case map_of d ''com.apple.private.AuthorizationServices'' of
            Some (CF_Array rights) \<Rightarrow> rights_loop rights right
          | _ \<Rightarrow> False))"

definition process_apple_signed :: "process \<Rightarrow> bool" where
  "process_apple_signed proc \<longleftrightarrow> pr_firstPartySigned proc \<or> pr_appStoreSigned proc"

definition process_firstparty_signed :: "process \<Rightarrow> bool" where
  "process_firstparty_signed proc = pr_firstPartySigned proc"

definition process_set_bootstrap :: "process \<Rightarrow> 32 word \<Rightarrow> bool \<times> process" where
  "process_set_bootstrap proc bootstrap =
     (if bootstrap \<noteq> MACH_PORT_NULL then (True, proc\<lparr> pr_bootstrap := bootstrap \<rparr>) else (False, proc))"

section \<open>Properties\<close>

lemma rights_loop_iff: "rights_loop rights right \<longleftrightarrow> CF_String right \<in> set rights"
  by (induction rights) auto

text \<open>The shape of a created process.\<close>

definition process_base :: "audit_info \<Rightarrow> nat \<Rightarrow> string \<Rightarrow> process" where
  "process_base auditInfo session url = \<lparr> pr_auditInfo = auditInfo, pr_session = session, pr_authTokens = [],
     pr_connections = [], pr_code_url = url, pr_code_identifier = None, pr_code_requirement_data = None,
     pr_code_entitlements = None, pr_bootstrap = MACH_PORT_NULL,
     pr_appStoreSigned = False, pr_firstPartySigned = False \<rparr>"

definition process_of_code :: "audit_info \<Rightarrow> nat \<Rightarrow> string \<Rightarrow> sec_code \<Rightarrow> process" where
  "process_of_code auditInfo session url code =
     (if sc_valid code \<and> sc_info code \<noteq> None then
       (let info = the (sc_info code) in (process_base auditInfo session url)\<lparr>
          pr_code_requirement_data := si_requirement info,
          pr_code_identifier := (case si_identifier info of
              Some (CF_String s) \<Rightarrow> copy_cf_string (Some (CF_String s)) None | _ \<Rightarrow> None),
          pr_code_entitlements := (case si_entitlements info of Some (CF_Dict d) \<Rightarrow> Some d | _ \<Rightarrow> None),
          pr_firstPartySigned := sc_anchor_apple code, pr_appStoreSigned := sc_app_store code \<rparr>)
       else process_base auditInfo session url)"

lemma process_create_shape:
  assumes "process_create env w auditInfo session = Some proc"
  shows "\<exists>code url. env_guest_code env w (au_opaqueToken auditInfo) = Some code \<and>
    env_pidpath env w (au_pid auditInfo) \<noteq> Pid_NoSuchProcess \<and>
    proc = process_of_code auditInfo session url code"
proof -
  obtain code where code: "env_guest_code env w (au_opaqueToken auditInfo) = Some code"
    using assms by (auto simp: process_create_def Let_def split: pidpath.splits option.splits)
  have pid: "env_pidpath env w (au_pid auditInfo) \<noteq> Pid_NoSuchProcess"
    using assms by (auto simp: process_create_def Let_def)
  show ?thesis
    using assms code pid
    by (auto simp: process_create_def process_verify_requirement_def Let_def process_base_def
        process_of_code_def split: pidpath.splits option.splits if_splits)
qed

lemma process_create_key:
  assumes "process_create env w info session = Some proc"
  shows "process_get_key proc = (au_pid info, au_tid info) \<and> pr_authTokens proc = [] \<and> pr_connections proc = []"
proof -
  obtain code url where "proc = process_of_code info session url code"
    using process_create_shape [OF assms] by blast
  then show ?thesis
    by (simp add: process_of_code_def process_base_def process_get_key_def Let_def)
qed

text \<open>C18. A process is only entitled, or signed by Apple, when the code signing interface found its code
  valid and gave its signing information: an invalid process that is created has no identifier, no
  requirement and no entitlement whatever the interface would say of it.  A process that the system
  does not know is not created.\<close>

theorem process_create_identity:
  assumes "process_create env w auditInfo session = Some proc"
  shows "(\<exists>code. env_guest_code env w (au_opaqueToken auditInfo) = Some code \<and>
      ((process_apple_signed proc \<or> process_has_entitlement proc e \<or> process_has_entitlement_for_right proc r \<or>
        process_copy_entitlement_value proc e \<noteq> None \<or> pr_code_identifier proc \<noteq> None \<or>
        pr_code_requirement_data proc \<noteq> None) \<longrightarrow> sc_valid code \<and> sc_info code \<noteq> None) \<and>
      (process_firstparty_signed proc \<longleftrightarrow> sc_valid code \<and> sc_info code \<noteq> None \<and> sc_anchor_apple code) \<and>
      (process_has_entitlement_for_right proc r \<longleftrightarrow> sc_valid code \<and> (\<exists>info d rs. sc_info code = Some info \<and>
         si_entitlements info = Some (CF_Dict d) \<and>
         map_of d ''com.apple.private.AuthorizationServices'' = Some (CF_Array rs) \<and> CF_String r \<in> set rs))) \<and>
    env_pidpath env w (au_pid auditInfo) \<noteq> Pid_NoSuchProcess \<and>
    process_get_key proc = (au_pid auditInfo, au_tid auditInfo) \<and> pr_authTokens proc = [] \<and> pr_connections proc = []"
proof -
  obtain code url where code: "env_guest_code env w (au_opaqueToken auditInfo) = Some code"
    and pid: "env_pidpath env w (au_pid auditInfo) \<noteq> Pid_NoSuchProcess"
    and proc: "proc = process_of_code auditInfo session url code"
    using process_create_shape [OF assms] by blast
  show ?thesis
    unfolding proc using code pid
    by (auto simp: process_of_code_def process_base_def Let_def process_apple_signed_def process_has_entitlement_def rights_loop_iff
        process_has_entitlement_for_right_def process_copy_entitlement_value_def process_get_key_def
        process_firstparty_signed_def split: option.splits cf.splits)
qed

definition sample_audit :: "32 word \<Rightarrow> audit_info" where
  "sample_audit pid = \<lparr> au_auid = 501, au_euid = 501, au_egid = 20, au_ruid = 501, au_rgid = 20,
     au_pid = pid, au_asid = 100, au_tid = 7, au_opaqueToken = ''token'' \<rparr>"

definition sample_code :: sec_code where
  "sample_code = \<lparr> sc_path = Some ''/bin/sh'', sc_valid = True,
     sc_info = Some \<lparr> si_requirement = Some ''req'', si_identifier = Some (CF_String ''com.apple.sh''),
       si_entitlements = Some (CF_Dict [(''com.apple.private.AuthorizationServices'', CF_Array [CF_String ''system.privilege.admin''])]) \<rparr>,
     sc_anchor_apple = True, sc_app_store = False \<rparr>"

definition signed_env :: "'w env" where
  "signed_env = plain_env\<lparr> env_guest_code := \<lambda>w t. Some sample_code \<rparr>"

theorem process_create_identity_witness:
  "\<exists>proc. process_create signed_env () (sample_audit 42) 0 = Some proc \<and>
     process_has_entitlement_for_right proc ''system.privilege.admin''"
proof -
  have "\<exists>proc. process_create signed_env () (sample_audit 42) 0 = Some proc"
    by (simp add: process_create_def signed_env_def sample_code_def plain_env_def sample_audit_def Let_def)
  then show ?thesis
    using process_create_identity [of signed_env "()" "sample_audit 42" 0]
    by (auto simp: signed_env_def sample_code_def)
qed

end
