(* ===== verification/Auth_Token.thy ===== *)
theory Auth_Token
  imports Process
begin

text \<open>
  \<^verbatim>\<open>src/OSX/authd/authtoken.c\<close>: the authorization token behind an \<^verbatim>\<open>AuthorizationRef\<close>, named by a random
  blob of eight bytes.  It remembers the processes that hold it, a weak reference to the one that
  created it, the context of the last authorization (items of the daemon's store) and sets of
  credentials (addresses of the credential store).  Tokens are equal when their blobs are.
\<close>

unbundle bit_operations_syntax

section \<open>Tokens\<close>

record auth_token =
  at_blob :: string
  at_state :: "32 word"
  at_auditInfo :: audit_info
  at_processes :: "nat list"
  at_session :: nat
  at_creator :: "nat option"
  at_creator_bootstrap_port :: "32 word"
  at_context :: auth_items
  at_credentials :: "nat list"
  at_authorized_rights :: "nat list"
  at_encryption_key :: "string option"
  at_least_privileged :: bool
  at_appleSigned :: bool
  at_firstPartySigned :: bool
  at_sandboxed :: bool
  at_code_url :: string
  at_auth_index :: "64 word"
  at_credential :: "nat option"

abbreviation auth_token_state_zombie :: "32 word" where "auth_token_state_zombie \<equiv> 1"
abbreviation auth_token_state_registered :: "32 word" where "auth_token_state_registered \<equiv> 2"

definition kCCKeySizeAES256 :: nat where
  "kCCKeySizeAES256 = 32"

text \<open>The allocation half of creation: the blob, then the encryption key.  When no random bytes can be
  had for the key it is released, and its length is set all the same: the last component is false for
  that use of NULL.\<close>

definition auth_token_alloc ::
  "('w, 'z) env_scheme \<Rightarrow> 'w \<Rightarrow> 64 word \<Rightarrow> audit_info \<Rightarrow> bool \<Rightarrow> auth_token option \<times> 'w \<times> 64 word \<times> bool" where
  "auth_token_alloc env w idx auditInfo operateAsLeastPrivileged =
     (case env_random env w 8 of
        (None, w1) \<Rightarrow> (None, w1, idx, True)
      | (Some blob, w1) \<Rightarrow>
          (case env_random env w1 kCCKeySizeAES256 of (key, w2) \<Rightarrow>
            (Some \<lparr> at_blob = blob, at_state = 0, at_auditInfo = auditInfo, at_processes = [], at_session = 0,
                    at_creator = None, at_creator_bootstrap_port = MACH_PORT_NULL, at_context = auth_items_create,
                    at_credentials = [], at_authorized_rights = [], at_encryption_key = key,
                    at_least_privileged = operateAsLeastPrivileged, at_appleSigned = False,
                    at_firstPartySigned = False,
                    at_sandboxed = (\<not> env_sandbox_obtain env w1 (au_opaqueToken auditInfo)),
                    at_code_url = [], at_auth_index = idx, at_credential = None \<rparr>,
             w2, idx + 1, key \<noteq> None)))"

definition auth_token_create ::
  "('w, 'z) env_scheme \<Rightarrow> 'w \<Rightarrow> 64 word \<Rightarrow> process \<Rightarrow> nat \<Rightarrow> bool \<Rightarrow> auth_token option \<times> 'w \<times> 64 word \<times> bool" where
  "auth_token_create env w idx proc proc_addr operateAsLeastPrivileged =
     (case auth_token_alloc env w idx (pr_auditInfo proc) operateAsLeastPrivileged of
        (None, w', c, ok) \<Rightarrow> (None, w', c, ok)
      | (Some auth, w', c, ok) \<Rightarrow>
          (Some (auth\<lparr> at_creator := Some proc_addr, at_session := pr_session proc,
                  at_code_url := pr_code_url proc, at_appleSigned := process_apple_signed proc,
                  at_creator_bootstrap_port :=
                    (if pr_bootstrap proc \<noteq> MACH_PORT_NULL \<and> \<not> env_mod_refs env w' (pr_bootstrap proc)
                     then MACH_PORT_NULL else pr_bootstrap proc) \<rparr>), w', c, ok))"

definition auth_token_get_uid :: "auth_token \<Rightarrow> 32 word" where
  "auth_token_get_uid auth = au_euid (at_auditInfo auth)"

definition auth_token_get_pid :: "auth_token \<Rightarrow> 32 word" where
  "auth_token_get_pid auth = au_pid (at_auditInfo auth)"

section \<open>Processes of a token\<close>

definition auth_token_add_process :: "auth_token \<Rightarrow> nat \<Rightarrow> auth_token \<times> nat" where
  "auth_token_add_process auth proc =
     (let a = auth\<lparr> at_processes := cfset_add (=) (at_processes auth) proc \<rparr> in (a, length (at_processes a)))"

definition auth_token_remove_process :: "auth_token \<Rightarrow> nat \<Rightarrow> auth_token \<times> nat" where
  "auth_token_remove_process auth proc =
     (let a = auth\<lparr> at_creator := (if at_creator auth = Some proc then None else at_creator auth),
                    at_processes := cfset_remove (=) (at_processes auth) proc \<rparr>
      in (a, length (at_processes a)))"

definition auth_token_get_process_count :: "auth_token \<Rightarrow> nat" where
  "auth_token_get_process_count auth = length (at_processes auth)"

definition auth_token_is_creator :: "auth_token \<Rightarrow> nat \<Rightarrow> bool" where
  "auth_token_is_creator auth proc \<longleftrightarrow> at_creator auth = Some proc"

section \<open>Credentials and rights\<close>

definition auth_token_set_credential :: "credential list \<Rightarrow> auth_token \<Rightarrow> nat \<Rightarrow> auth_token" where
  "auth_token_set_credential ch auth cred = auth\<lparr> at_credentials := cfset_set (cred_eq ch) (at_credentials auth) cred \<rparr>"

definition auth_token_credentials_iterate ::
  "('w, 'z) env_scheme \<Rightarrow> 'w \<Rightarrow> auth_token \<Rightarrow> (nat \<Rightarrow> 's \<Rightarrow> bool \<times> 's) \<Rightarrow> 's \<Rightarrow> bool \<times> 's \<times> bool" where
  "auth_token_credentials_iterate env w auth iter s =
     (let vals = env_order env w (at_credentials auth);
          (result, s') = cf_iterate iter (take iterate_limit vals) False s
      in (result, s', length (at_credentials auth) \<le> iterate_limit))"

definition auth_token_set_right :: "credential list \<Rightarrow> auth_token \<Rightarrow> nat \<Rightarrow> auth_token" where
  "auth_token_set_right ch auth right =
     auth\<lparr> at_authorized_rights := cfset_set (cred_eq ch) (at_authorized_rights auth) right \<rparr>"

text \<open>The credential of the creator's uid, created on the first use at the end of the store.\<close>

definition auth_token_get_credential ::
  "('w, 'z) env_scheme \<Rightarrow> 'w \<Rightarrow> credential list \<Rightarrow> auth_token \<Rightarrow> nat \<times> credential list \<times> auth_token" where
  "auth_token_get_credential env w ch auth =
     (case at_credential auth of
        Some c \<Rightarrow> (c, ch, auth)
      | None \<Rightarrow> (length ch, ch @ [credential_create env w (au_euid (at_auditInfo auth))],
                 auth\<lparr> at_credential := Some (length ch) \<rparr>))"

section \<open>Entitlements of the creator\<close>

definition auth_token_copy_entitlement_value :: "process list \<Rightarrow> auth_token \<Rightarrow> string \<Rightarrow> cf option" where
  "auth_token_copy_entitlement_value procs auth entitlement =
     (case at_creator auth of None \<Rightarrow> None | Some p \<Rightarrow> process_copy_entitlement_value (procs ! p) entitlement)"

definition auth_token_has_entitlement :: "process list \<Rightarrow> auth_token \<Rightarrow> string \<Rightarrow> bool" where
  "auth_token_has_entitlement procs auth entitlement =
     (case at_creator auth of None \<Rightarrow> False | Some p \<Rightarrow> process_has_entitlement (procs ! p) entitlement)"

definition auth_token_has_entitlement_for_right :: "process list \<Rightarrow> auth_token \<Rightarrow> string \<Rightarrow> bool" where
  "auth_token_has_entitlement_for_right procs auth right =
     (case at_creator auth of None \<Rightarrow> False | Some p \<Rightarrow> process_has_entitlement_for_right (procs ! p) right)"

section \<open>State\<close>

definition auth_token_set_state :: "auth_token \<Rightarrow> 32 word \<Rightarrow> auth_token" where
  "auth_token_set_state auth st = auth\<lparr> at_state := at_state auth OR st \<rparr>"

definition auth_token_clear_state :: "auth_token \<Rightarrow> 32 word \<Rightarrow> auth_token" where
  "auth_token_clear_state auth st = auth\<lparr> at_state := at_state auth AND NOT st \<rparr>"

definition auth_token_check_state :: "auth_token \<Rightarrow> 32 word \<Rightarrow> bool" where
  "auth_token_check_state auth st = (if st \<noteq> 0 then at_state auth AND st \<noteq> 0 else at_state auth = 0)"

definition auth_token_equal :: "auth_token \<Rightarrow> auth_token \<Rightarrow> bool" where
  "auth_token_equal auth1 auth2 \<longleftrightarrow> at_blob auth1 = at_blob auth2"

text \<open>Equality of the tokens at two addresses.\<close>

definition token_eq :: "auth_token list \<Rightarrow> nat \<Rightarrow> nat \<Rightarrow> bool" where
  "token_eq tokens a b \<longleftrightarrow> auth_token_equal (tokens ! a) (tokens ! b)"

interpretation token_set: cf_set "token_eq tokens" for tokens
  by unfold_locales (simp_all add: token_eq_def auth_token_equal_def)

end
