(* ===== verification/Database.thy ===== *)
theory Database
  imports Auth_Items_Laws
begin

text \<open>
  The authorization database behind \<^verbatim>\<open>src/OSX/authd/authdb.c\<close>: its tables, the statements the daemon
  runs on them, and the conversion of result rows to items.  SQLite itself is a library: a table is
  the list of its rows, a statement is the list operation its SQL text denotes, with the constraints
  of the schema (\<^verbatim>\<open>authdb_upgrade_sql\<close>) deciding whether an insertion or update succeeds, and foreign
  keys cascading on deletion.  Busy and corrupt databases are not modelled.

  Rows become dictionaries of items with a store of their own (\<^verbatim>\<open>pdict\<close>): the rules and mechanisms
  built from them share no item with the rest of the daemon, so each of them keeps its own store.
\<close>

unbundle bit_operations_syntax

section \<open>Private dictionaries\<close>

type_synonym pdict = "items_heap \<times> auth_items"

definition pd_empty :: pdict where
  "pd_empty = (hp_empty, auth_items_create)"

definition pd_set_string :: "pdict \<Rightarrow> string \<Rightarrow> string \<Rightarrow> pdict" where
  "pd_set_string d key v = auth_items_set_string (fst d) (snd d) key v"

definition pd_set_int64 :: "pdict \<Rightarrow> string \<Rightarrow> 64 word \<Rightarrow> pdict" where
  "pd_set_int64 d key v = auth_items_set_int64 (fst d) (snd d) key v"

definition pd_set_double :: "pdict \<Rightarrow> string \<Rightarrow> 64 word \<Rightarrow> pdict" where
  "pd_set_double d key v = auth_items_set_double (fst d) (snd d) key v"

definition pd_set_data :: "pdict \<Rightarrow> string \<Rightarrow> string \<Rightarrow> pdict" where
  "pd_set_data d key v = auth_items_set_data (fst d) (snd d) key v"

definition pd_int64 :: "pdict \<Rightarrow> string \<Rightarrow> 64 word" where
  "pd_int64 d key = fst (auth_items_get_int64 (fst d) (snd d) key)"

definition pd_string :: "pdict \<Rightarrow> string \<Rightarrow> string option" where
  "pd_string d key = fst (auth_items_get_string (fst d) (snd d) key)"

definition pd_double :: "(string \<Rightarrow> 64 word) \<Rightarrow> pdict \<Rightarrow> string \<Rightarrow> 64 word" where
  "pd_double atof d key = fst (auth_items_get_double atof (fst d) (snd d) key)"

definition pd_data :: "pdict \<Rightarrow> string \<Rightarrow> string option" where
  "pd_data d key = (case auth_items_get_data (fst d) (snd d) key of None \<Rightarrow> None | Some (v, _) \<Rightarrow> v)"

text \<open>\<^verbatim>\<open>auth_items_copy\<close> from a dictionary whose store ends with the copy: its items move.\<close>

definition pd_copy :: "pdict \<Rightarrow> pdict \<Rightarrow> pdict" where
  "pd_copy d src =
     fold (\<lambda>(k, a) (hp, its). (hp_alloc (hp_get (fst src) a) hp, AList.update k (hp_next hp) its)) (snd src) d"

text \<open>A fault: the program dereferences NULL on the way.\<close>

definition pd_check :: "bool \<Rightarrow> pdict \<Rightarrow> pdict" where
  "pd_check ok d = (hp_check ok (fst d), snd d)"

definition pd_fault :: "pdict \<Rightarrow> bool" where
  "pd_fault d \<longleftrightarrow> hp_fault (fst d)"

section \<open>Values and rows\<close>

datatype sqlval = SQL_Null | SQL_Int "64 word" | SQL_Real "64 word" | SQL_Text string | SQL_Blob string

type_synonym row = "(string \<times> sqlval) list"

definition row_get :: "row \<Rightarrow> string \<Rightarrow> sqlval" where
  "row_get r col = (case map_of r col of None \<Rightarrow> SQL_Null | Some v \<Rightarrow> v)"

definition row_id :: "row \<Rightarrow> 64 word" where
  "row_id r = (case row_get r ''id'' of SQL_Int i \<Rightarrow> i | _ \<Rightarrow> 0)"

text \<open>\<^verbatim>\<open>_parseItemsAtIndex\<close> on one column, and the loop of \<^verbatim>\<open>authdb_step\<close> over the columns of a row.\<close>

fun parseItemsAtIndex :: "pdict \<Rightarrow> string \<Rightarrow> sqlval \<Rightarrow> pdict" where
  "parseItemsAtIndex items key (SQL_Real d) = pd_set_double items key d"
| "parseItemsAtIndex items key (SQL_Int i) = pd_set_int64 items key i"
| "parseItemsAtIndex items key (SQL_Blob b) = pd_set_data items key b"
| "parseItemsAtIndex items key SQL_Null = items"
| "parseItemsAtIndex items key (SQL_Text s) = pd_set_string items key (cstr s)"

definition parse_row :: "row \<Rightarrow> pdict" where
  "parse_row r = fold (\<lambda>(col, v) items. parseItemsAtIndex items col v) r pd_empty"

text \<open>\<^verbatim>\<open>_bindItemsAtIndex\<close>: the value bound for an item of a dictionary.\<close>

definition bindItemsAtIndex :: "(string \<Rightarrow> 64 word) \<Rightarrow> pdict \<Rightarrow> string \<Rightarrow> sqlval" where
  "bindItemsAtIndex atof d key =
     (let hp = fst d; items = snd d; t = auth_items_get_type hp items key
      in if t = AI_TYPE_INT then SQL_Int (scast (fst (auth_items_get_int hp items key)))
         else if t = AI_TYPE_UINT then SQL_Int (ucast (fst (auth_items_get_uint hp items key)))
         else if t = AI_TYPE_INT64 then SQL_Int (fst (auth_items_get_int64 hp items key))
         else if t = AI_TYPE_UINT64 then SQL_Int (fst (auth_items_get_uint64 hp items key))
         else if t = AI_TYPE_DOUBLE then SQL_Real (fst (auth_items_get_double atof hp items key))
         else if t = AI_TYPE_BOOL then SQL_Int (if fst (auth_items_get_bool hp items key) then 1 else 0)
         else if t = AI_TYPE_DATA then
           (case auth_items_get_data hp items key of Some (Some b, _) \<Rightarrow> SQL_Blob b | _ \<Rightarrow> SQL_Null)
         else if t = AI_TYPE_STRING then
           (case fst (auth_items_get_string hp items key) of Some s \<Rightarrow> SQL_Text s | None \<Rightarrow> SQL_Null)
         else SQL_Null)"

section \<open>Tables\<close>

record db =
  db_rules :: "row list"
  db_mechanisms :: "row list"
  db_mechanisms_map :: "(64 word \<times> 64 word \<times> nat) list"
  db_delegates_map :: "(64 word \<times> 64 word \<times> nat) list"
  db_prompts :: "(64 word \<times> string \<times> string) list"
  db_buttons :: "(64 word \<times> string \<times> string) list"
  db_config :: "(string \<times> sqlval) list"
  db_history :: "(string \<times> string \<times> nat \<times> 64 word) list"
  db_rules_seq :: "64 word"
  db_mechanisms_seq :: "64 word"

text \<open>\<^verbatim>\<open>authdb_upgrade_sql\<close>: the tables as they are created.\<close>

definition db_initial :: db where
  "db_initial = \<lparr> db_rules = [], db_mechanisms = [], db_mechanisms_map = [], db_delegates_map = [],
     db_prompts = [], db_buttons = [], db_config = [(''version'', SQL_Text ''1'')], db_history = [],
     db_rules_seq = 0, db_mechanisms_seq = 0 \<rparr>"

definition rows_by_name :: "db \<Rightarrow> string option \<Rightarrow> row list" where
  "rows_by_name dbase name =
     (case name of None \<Rightarrow> [] | Some n \<Rightarrow> take 1 (filter (\<lambda>r. row_get r ''name'' = SQL_Text n) (db_rules dbase)))"

text \<open>The two joins that fetch the mechanisms and the delegates of a rule in their order.\<close>

definition join_map :: "row list \<Rightarrow> (64 word \<times> 64 word \<times> nat) list \<Rightarrow> 64 word \<Rightarrow> row list" where
  "join_map rows m r_id =
     concat (map (\<lambda>(r, t, ord). filter (\<lambda>row. row_id row = t) rows)
       (sort_key (\<lambda>(r, t, ord). ord) (filter (\<lambda>(r, t, ord). r = r_id) m)))"

definition select_mechanisms :: "db \<Rightarrow> 64 word \<Rightarrow> row list" where
  "select_mechanisms dbase r_id = join_map (db_mechanisms dbase) (db_mechanisms_map dbase) r_id"

definition select_delegates :: "db \<Rightarrow> 64 word \<Rightarrow> row list" where
  "select_delegates dbase r_id = join_map (db_rules dbase) (db_delegates_map dbase) r_id"

text \<open>\<^verbatim>\<open>authdb_transaction\<close>: what a block did is kept when it returns true and undone otherwise.\<close>

definition authdb_transaction :: "(db \<Rightarrow> bool \<times> db \<times> 'a) \<Rightarrow> db \<Rightarrow> bool \<times> db \<times> 'a" where
  "authdb_transaction t dbase =
     (case t dbase of (commit, db', x) \<Rightarrow> if commit then (True, db', x) else (False, dbase, x))"

text \<open>\<^verbatim>\<open>authdb_get_key_value\<close> and \<^verbatim>\<open>authdb_set_key_value\<close> on the configuration table.\<close>

definition authdb_get_key_value :: "db \<Rightarrow> pdict" where
  "authdb_get_key_value dbase = fold (\<lambda>(k, v) items. parseItemsAtIndex items k v) (db_config dbase) pd_empty"

definition authdb_set_key_value :: "(string \<Rightarrow> 64 word) \<Rightarrow> db \<Rightarrow> pdict \<Rightarrow> db" where
  "authdb_set_key_value atof dbase d =
     dbase\<lparr> db_config := snd (auth_items_iterate (fst d) (snd d)
       (\<lambda>key c. (True, AList.update key (bindItemsAtIndex atof d key) c)) (db_config dbase)) \<rparr>"

section \<open>Laws of private dictionaries\<close>

text \<open>A private dictionary is a map from keys to items; setters update the map at their key, getters
  look at the item under theirs.\<close>

definition pd_item :: "pdict \<Rightarrow> string \<Rightarrow> auth_item option" where
  "pd_item d k = map_option (hp_get (fst d)) (find_item (snd d) k)"

definition item_int64 :: "auth_item option \<Rightarrow> 64 word" where
  "item_int64 i = (case i of None \<Rightarrow> 0 | Some item \<Rightarrow>
     if ai_type item = AI_TYPE_STRING then atoll (cstr (the (ai_value (item_with_nul item))))
     else (case ai_value item of None \<Rightarrow> 0 | Some v \<Rightarrow>
       if ai_valueLength item = 8 then word_of_nat (le_val (take 8 v)) else 0))"

definition item_string :: "auth_item option \<Rightarrow> string option" where
  "item_string i = (case i of None \<Rightarrow> None | Some item \<Rightarrow> map_option cstr (ai_value (item_with_nul item)))"

text \<open>What the setters build: integers have their size, strings room for
  their terminating NUL, data their bytes.\<close>

definition item_ok :: "auth_item \<Rightarrow> bool" where
  "item_ok i \<longleftrightarrow>
     (ai_type i \<in> {AI_TYPE_INT64, AI_TYPE_DOUBLE} \<longrightarrow>
        ai_valueLength i = 8 \<and> (\<exists>v. ai_value i = Some v \<and> length v = 8)) \<and>
     (ai_type i = AI_TYPE_STRING \<longrightarrow>
        ai_valueLength i < ai_bufLen i \<and> (\<exists>v. ai_value i = Some v \<and> ai_bufLen i = length v)) \<and>
     (ai_type i = AI_TYPE_DATA \<longrightarrow>
        ai_valueLength i \<le> ai_bufLen i \<and> (\<exists>v. ai_value i = Some v \<and> ai_bufLen i = length v))"

definition pd_ok :: "pdict \<Rightarrow> bool" where
  "pd_ok d \<longleftrightarrow> items_wf (fst d) (snd d) \<and> \<not> hp_fault (fst d) \<and> (\<forall>k i. pd_item d k = Some i \<longrightarrow> item_ok i)"

lemma pd_okD: "pd_ok d \<Longrightarrow> pd_item d k = Some i \<Longrightarrow> item_ok i"
  by (simp add: pd_ok_def)

lemma pd_ok_empty [simp]: "pd_ok pd_empty" "pd_item pd_empty = Map.empty"
  by (auto simp: pd_ok_def pd_empty_def auth_items_create_def pd_item_def find_item_def hp_empty_def)

lemma pd_int64_item:
  "pd_ok d \<Longrightarrow> pd_int64 d k = item_int64 (pd_item d k)"
  using pd_okD [of d k]
  by (cases "find_item (snd d) k")
     (auto simp: pd_int64_def auth_items_get_int64_def auth_items_get_scalar_def pd_item_def item_int64_def
       auth_items_get_string_def auth_item_get_string_def item_with_nul_def item_ok_def Let_def split: option.splits)

lemma pd_string_item: "pd_string d k = item_string (pd_item d k)"
  by (cases "find_item (snd d) k")
     (simp_all add: pd_string_def auth_items_get_string_def auth_item_get_string_def pd_item_def item_string_def Let_def)

lemma items_addr_inject:
  "items_wf hp items \<Longrightarrow> find_item items k = Some a \<Longrightarrow> find_item items k' = Some a \<Longrightarrow> k = k'"
  using items_wfD by metis

lemma pd_item_set_cell:
  assumes "items_wf hp items" "find_item items k = Some a"
  shows "pd_item (hp_check b (hp_set a i hp), items) = (pd_item (hp, items))(k \<mapsto> i)"
proof
  fix k'
  show "pd_item (hp_check b (hp_set a i hp), items) k' = ((pd_item (hp, items))(k \<mapsto> i)) k'"
    using items_addr_inject [OF assms(1,2), of k'] items_wfD [OF assms] assms(2)
    by (cases "find_item items k'") (auto simp: pd_item_def)
qed

lemma pd_item_add_new:
  assumes "items_wf hp items" "items_add_new hp items (Some i) = (hp', items')"
  shows "pd_item (hp', items') = (pd_item (hp, items))(ai_name i \<mapsto> i)"
proof
  fix k
  have *: "hp' = hp_alloc i hp" "items' = AList.update (ai_name i) (hp_next hp) items"
    using assms(2) by (auto simp: items_add_new_def auth_items_add_item_def)
  show "pd_item (hp', items') k = ((pd_item (hp, items))(ai_name i \<mapsto> i)) k"
    using items_wfD [OF assms(1), of k] unfolding *
    by (cases "find_item items k") (auto simp: pd_item_def)
qed

definition pd_wf :: "pdict \<Rightarrow> bool" where
  "pd_wf d \<longleftrightarrow> items_wf (fst d) (snd d)"

lemma pd_wf_set_scalar: "pd_wf d \<Longrightarrow> pd_wf (auth_items_set_scalar t bs (fst d) (snd d) key)"
  using auth_items_set_scalar_wf [of "fst d" "snd d" t bs key]
  by (cases "auth_items_set_scalar t bs (fst d) (snd d) key") (simp add: pd_wf_def)

lemma pd_wf_set:
  "pd_wf d \<Longrightarrow> pd_wf (pd_set_string d key v)"
  "pd_wf d \<Longrightarrow> pd_wf (pd_set_int64 d key i)"
  "pd_wf d \<Longrightarrow> pd_wf (pd_set_double d key i)"
  using auth_items_set_string_wf [of "fst d" "snd d" key v]
  by (cases "auth_items_set_string (fst d) (snd d) key v")
     (simp_all add: pd_wf_def pd_set_string_def pd_set_int64_def pd_set_double_def auth_items_set_int64_def
       auth_items_set_double_def pd_wf_set_scalar [unfolded pd_wf_def])

lemma pd_wf_set_data: "pd_wf d \<Longrightarrow> pd_wf (pd_set_data d key v)"
  using auth_items_set_data_wf [of "fst d" "snd d" key v]
  by (cases "auth_items_set_data (fst d) (snd d) key v") (simp add: pd_wf_def pd_set_data_def)

lemma pd_ok_upd:
  assumes "pd_ok d" "items_wf (fst d') (snd d')" "\<not> hp_fault (fst d')" "pd_item d' = (pd_item d)(k \<mapsto> i)" "item_ok i"
  shows "pd_ok d'"
  using assms by (auto simp: pd_ok_def split: if_splits)

text \<open>Integers and doubles are written as eight bytes.\<close>

lemma pd_set_scalar_item:
  assumes ok: "pd_ok d" and t: "t \<in> {AI_TYPE_INT64, AI_TYPE_DOUBLE}" and bs: "length bs = 8"
  shows "\<exists>i. pd_item (auth_items_set_scalar t bs (fst d) (snd d) k) = (pd_item d)(k \<mapsto> i) \<and> item_ok i \<and>
    ai_type i = t \<and> ai_value i = Some bs \<and> ai_valueLength i = 8 \<and>
    \<not> hp_fault (fst (auth_items_set_scalar t bs (fst d) (snd d) k))"
proof -
  obtain hp its where d: "d = (hp, its)" by (cases d)
  have wf: "items_wf hp its" and nf: "\<not> hp_fault hp"
    using ok by (simp_all add: d pd_ok_def)
  define new where "new = \<lparr> ai_name = k, ai_value = Some bs, ai_valueLength = 8, ai_flags = 0,
    ai_type = t, ai_bufLen = 8 \<rparr>"
  have new: "item_ok new" "ai_name new = k" "ai_type new = t" "ai_value new = Some bs" "ai_valueLength new = 8"
    using bs t by (auto simp: new_def item_ok_def)
  have create: "auth_item_create t (Some k) (Some bs) (length bs) 0 = Some new"
    using bs t by (auto simp: auth_item_create_def new_def)
  show ?thesis
  proof (cases "\<exists>a. find_item its k = Some a \<and> ai_type (hp_get hp a) = t")
    case True
    then obtain a where a: "find_item its k = Some a" "ai_type (hp_get hp a) = t" by auto
    then have "item_ok (hp_get hp a)"
      using pd_okD [OF ok, of k] by (simp add: pd_item_def d)
    then obtain b where b: "ai_value (hp_get hp a) = Some b" "length b = 8" "ai_valueLength (hp_get hp a) = 8"
      using a(2) t by (auto simp: item_ok_def)
    let ?i = "(hp_get hp a)\<lparr> ai_value := Some bs \<rparr>"
    have "auth_items_set_scalar t bs hp its k = (hp_check True (hp_set a ?i hp), its)"
      using a b bs by (simp add: auth_items_set_scalar_def buf_fits_def buf_write_def Let_def)
    moreover have "item_ok ?i"
      using a b bs t by (auto simp: item_ok_def)
    ultimately show ?thesis
      using pd_item_set_cell [OF wf a(1), of True ?i] nf a b by (auto simp: d)
  next
    case False
    then have "auth_items_set_scalar t bs hp its k = items_add_new hp its (Some new)"
      by (auto simp: auth_items_set_scalar_def Let_def create split: option.splits)
    then show ?thesis
      using pd_item_add_new [OF wf, of new] new nf
      by (cases "items_add_new hp its (Some new)") (auto simp: d items_add_new_def)
  qed
qed

lemma pd_set_int64_item:
  assumes "pd_ok d"
  shows "\<exists>i. pd_item (pd_set_int64 d k v) = (pd_item d)(k \<mapsto> i) \<and> item_ok i \<and> item_int64 (Some i) = v \<and>
    ai_type i = AI_TYPE_INT64 \<and> \<not> hp_fault (fst (pd_set_int64 d k v))"
proof -
  have "word_of_nat (le_val (le_bytes 8 (unat v))) = v"
    by (simp only: of_nat_le_val_64)
  moreover obtain i where i: "pd_item (pd_set_int64 d k v) = (pd_item d)(k \<mapsto> i)" "item_ok i" "ai_type i = AI_TYPE_INT64"
    "ai_value i = Some (le_bytes 8 (unat v))" "ai_valueLength i = 8" "\<not> hp_fault (fst (pd_set_int64 d k v))"
    using pd_set_scalar_item [OF assms, of AI_TYPE_INT64 "le_bytes 8 (unat v)" k]
    by (auto simp: pd_set_int64_def auth_items_set_int64_def)
  ultimately have "item_int64 (Some i) = v"
    by (simp add: item_int64_def)
  with i show ?thesis by blast
qed

lemma pd_set_double_item:
  assumes "pd_ok d"
  shows "\<exists>i. pd_item (pd_set_double d k v) = (pd_item d)(k \<mapsto> i) \<and> item_ok i \<and>
    ai_type i = AI_TYPE_DOUBLE \<and> ai_value i = Some (le_bytes 8 (unat v)) \<and> ai_valueLength i = 8 \<and>
    \<not> hp_fault (fst (pd_set_double d k v))"
  using pd_set_scalar_item [OF assms, of AI_TYPE_DOUBLE "le_bytes 8 (unat v)" k]
  by (auto simp: pd_set_double_def auth_items_set_double_def)

lemma pd_set_data_item:
  assumes ok: "pd_ok d" and v: "v \<noteq> []"
  shows "\<exists>i. pd_item (pd_set_data d k v) = (pd_item d)(k \<mapsto> i) \<and> item_ok i \<and> ai_type i = AI_TYPE_DATA \<and>
    (\<exists>b. ai_value i = Some b \<and> take (ai_valueLength i) b = v) \<and> ai_valueLength i = length v \<and>
    \<not> hp_fault (fst (pd_set_data d k v))"
proof -
  obtain hp its where d: "d = (hp, its)" by (cases d)
  have wf: "items_wf hp its" and nf: "\<not> hp_fault hp"
    using ok by (simp_all add: d pd_ok_def)
  define new where "new = \<lparr> ai_name = k, ai_value = Some v, ai_valueLength = length v, ai_flags = 0,
    ai_type = AI_TYPE_DATA, ai_bufLen = length v \<rparr>"
  have new: "item_ok new" "ai_name new = k" "ai_type new = AI_TYPE_DATA" "ai_value new = Some v" "ai_valueLength new = length v"
    by (simp_all add: new_def item_ok_def)
  have create: "auth_item_create AI_TYPE_DATA (Some k) (Some v) (length v) 0 = Some new"
    using v by (simp add: auth_item_create_def new_def)
  show ?thesis
  proof (cases "\<exists>a. find_item its k = Some a \<and> ai_type (hp_get hp a) = AI_TYPE_DATA \<and> length v \<le> ai_bufLen (hp_get hp a)")
    case True
    then obtain a where a: "find_item its k = Some a" "ai_type (hp_get hp a) = AI_TYPE_DATA"
      "length v \<le> ai_bufLen (hp_get hp a)" by auto
    then have "item_ok (hp_get hp a)"
      using pd_okD [OF ok, of k] by (simp add: pd_item_def d)
    then obtain b where b: "ai_value (hp_get hp a) = Some b" "ai_bufLen (hp_get hp a) = length b"
      using a(2) by (auto simp: item_ok_def)
    let ?i = "(hp_get hp a)\<lparr> ai_value := Some (v @ drop (length v) b), ai_valueLength := length v \<rparr>"
    have "auth_items_set_data hp its k v = (hp_check True (hp_set a ?i hp), its)"
      using a b v by (simp add: auth_items_set_data_def buf_fits_def buf_write_def Let_def)
    moreover have "item_ok ?i"
      using a b by (simp add: item_ok_def)
    ultimately show ?thesis
      using pd_item_set_cell [OF wf a(1), of True ?i] nf a b by (auto simp: d pd_set_data_def)
  next
    case False
    then have "auth_items_set_data hp its k v = items_add_new hp its (Some new)"
      using v by (auto simp: auth_items_set_data_def Let_def create split: option.splits)
    then show ?thesis
      using pd_item_add_new [OF wf, of new] new nf
      by (cases "items_add_new hp its (Some new)") (auto simp: d items_add_new_def pd_set_data_def)
  qed
qed

lemma pd_set_string_item:
  assumes "pd_ok d" "NUL \<notin> set v"
  shows "\<exists>i. pd_item (pd_set_string d k v) = (pd_item d)(k \<mapsto> i) \<and> item_ok i \<and> item_string (Some i) = Some v \<and>
    ai_type i = AI_TYPE_STRING \<and> \<not> hp_fault (fst (pd_set_string d k v))"
proof -
  obtain hp its where d: "d = (hp, its)" by (cases d)
  have wf: "items_wf hp its" and nf: "\<not> hp_fault hp"
    using assms by (simp_all add: d pd_ok_def)
  define new where "new = \<lparr> ai_name = k, ai_value = Some (v @ [NUL]), ai_valueLength = length v, ai_flags = 0,
    ai_type = AI_TYPE_STRING, ai_bufLen = Suc (length v) \<rparr>"
  have new: "item_ok new" "item_string (Some new) = Some v" "ai_name new = k" "ai_type new = AI_TYPE_STRING"
    using assms(2) by (simp_all add: new_def item_ok_def item_string_def item_with_nul_def)
  have create: "auth_item_create AI_TYPE_STRING (Some k) (Some v) (length v) 0 = Some new"
    by (simp add: auth_item_create_def new_def)
  show ?thesis
  proof (cases "\<exists>a. find_item its k = Some a \<and> ai_type (hp_get hp a) = AI_TYPE_STRING \<and> length v < ai_bufLen (hp_get hp a)")
    case True
    then obtain a where a: "find_item its k = Some a" "ai_type (hp_get hp a) = AI_TYPE_STRING"
      "length v < ai_bufLen (hp_get hp a)" by auto
    then have "item_ok (hp_get hp a)"
      using pd_okD [OF assms(1), of k] by (simp add: pd_item_def d)
    then obtain b where b: "ai_value (hp_get hp a) = Some b" "ai_bufLen (hp_get hp a) = length b"
      using a(2) by (auto simp: item_ok_def)
    let ?i = "(hp_get hp a)\<lparr> ai_value := Some (v @ NUL # drop (Suc (length v)) b), ai_valueLength := length v \<rparr>"
    have "pd_set_string d k v = (hp_check True (hp_set a ?i hp), its)"
      using a b by (simp add: d pd_set_string_def auth_items_set_string_def buf_fits_def buf_write_def Let_def)
    moreover have "item_ok ?i" "item_string (Some ?i) = Some v" "ai_type ?i = AI_TYPE_STRING"
      using a b assms(2) by (simp_all add: item_ok_def item_string_def item_with_nul_def)
    ultimately show ?thesis
      using pd_item_set_cell [OF wf a(1), of True ?i] nf by (auto simp: d)
  next
    case False
    then have "pd_set_string d k v = items_add_new hp its (Some new)"
      by (auto simp: d pd_set_string_def auth_items_set_string_def Let_def create split: option.splits)
    then show ?thesis
      using pd_item_add_new [OF wf, of new] new nf
      by (cases "items_add_new hp its (Some new)") (auto simp: d items_add_new_def)
  qed
qed

lemma pd_ok_set_int64 [simp]: "pd_ok d \<Longrightarrow> pd_ok (pd_set_int64 d k v)"
  using pd_set_int64_item [of d k v] pd_wf_set(2) [of d k v]
  by (auto simp: pd_wf_def intro: pd_ok_upd) (auto simp: pd_ok_def)

lemma pd_ok_set_string [simp]: "pd_ok d \<Longrightarrow> NUL \<notin> set v \<Longrightarrow> pd_ok (pd_set_string d k v)"
  using pd_set_string_item [of d v k] pd_wf_set(1) [of d k v]
  by (auto simp: pd_wf_def intro: pd_ok_upd) (auto simp: pd_ok_def)

lemma pd_ok_set_double [simp]: "pd_ok d \<Longrightarrow> pd_ok (pd_set_double d k v)"
  using pd_set_double_item [of d k v] pd_wf_set(3) [of d k v]
  by (auto simp: pd_wf_def intro: pd_ok_upd) (auto simp: pd_ok_def)

lemma pd_ok_set_data [simp]: "pd_ok d \<Longrightarrow> pd_ok (pd_set_data d k v)"
proof (cases "v = []")
  case True
  then show "pd_ok d \<Longrightarrow> ?thesis" by (simp add: pd_set_data_def auth_items_set_data_def)
next
  case False
  then show "pd_ok d \<Longrightarrow> ?thesis"
    using pd_set_data_item [of d v k] pd_wf_set_data [of d k v]
    by (auto simp: pd_wf_def intro: pd_ok_upd) (auto simp: pd_ok_def)
qed

text \<open>The contract the rule and mechanism layers rely on, for the two kinds of field they keep: a value
  that was put is read back, the other fields stay, and the dictionary stays well-formed.\<close>

locale kv_store =
  fixes ok :: "'d \<Rightarrow> bool"
    and valid :: "'v \<Rightarrow> bool"
    and put :: "'d \<Rightarrow> 'k \<Rightarrow> 'v \<Rightarrow> 'd"
    and get :: "'d \<Rightarrow> 'k \<Rightarrow> 'r"
    and view :: "'v \<Rightarrow> 'r"
  assumes ok_put: "ok d \<Longrightarrow> valid v \<Longrightarrow> ok (put d k v)"
    and get_put: "ok d \<Longrightarrow> valid v \<Longrightarrow> get (put d k v) k' = (if k' = k then view v else get d k')"
begin

lemma ok_puts: "ok d \<Longrightarrow> \<forall>kv\<in>set kvs. valid (snd kv) \<Longrightarrow> ok (fold (\<lambda>(k, v) d. put d k v) kvs d)"
  by (induction kvs arbitrary: d) (auto simp: ok_put)

lemma get_puts:
  "ok d \<Longrightarrow> \<forall>kv\<in>set kvs. valid (snd kv) \<Longrightarrow> distinct (map fst kvs) \<Longrightarrow>
   get (fold (\<lambda>(k, v) d. put d k v) kvs d) k = (case map_of kvs k of Some v \<Rightarrow> view v | None \<Rightarrow> get d k)"
proof (induction kvs arbitrary: d)
  case Nil
  then show ?case by simp
next
  case (Cons kv kvs)
  obtain k' v where kv: "kv = (k', v)" by (cases kv)
  then have "ok (put d k' v)" "valid v"
    using Cons.prems by (auto simp: ok_put)
  moreover have "map_of kvs k' = None"
    using Cons.prems(3) kv by (simp add: map_of_eq_None_iff)
  ultimately show ?case
    using Cons.IH [of "put d k' v"] Cons.prems kv by (auto simp: get_put split: option.splits)
qed

end

lemma item_int64_upd:
  assumes "pd_ok d" "pd_ok d'" "pd_item d' = (pd_item d)(k \<mapsto> i)"
  shows "pd_int64 d' k' = (if k' = k then item_int64 (Some i) else pd_int64 d k')"
  using assms by (simp add: pd_int64_item)

lemma pd_int64_set_int64: "pd_ok d \<Longrightarrow> pd_int64 (pd_set_int64 d k v) k' = (if k' = k then v else pd_int64 d k')"
  using pd_set_int64_item [of d k v] item_int64_upd [of d "pd_set_int64 d k v" k _ k'] by auto

lemma pd_string_set_int64: "pd_ok d \<Longrightarrow> k' \<noteq> k \<Longrightarrow> pd_string (pd_set_int64 d k v) k' = pd_string d k'"
  using pd_set_int64_item [of d k v] by (auto simp: pd_string_item)

lemma pd_string_set_string:
  "pd_ok d \<Longrightarrow> NUL \<notin> set v \<Longrightarrow> pd_string (pd_set_string d k v) k' = (if k' = k then Some v else pd_string d k')"
  using pd_set_string_item [of d v k] by (auto simp: pd_string_item)

lemma pd_int64_set_string:
  "pd_ok d \<Longrightarrow> NUL \<notin> set v \<Longrightarrow> k' \<noteq> k \<Longrightarrow> pd_int64 (pd_set_string d k v) k' = pd_int64 d k'"
  using pd_set_string_item [of d v k] item_int64_upd [of d "pd_set_string d k v" k _ k'] by auto

interpretation int64_store: kv_store pd_ok "\<lambda>_. True" pd_set_int64 pd_int64 id
  by unfold_locales (simp_all add: pd_int64_set_int64)

interpretation string_store: kv_store pd_ok "\<lambda>v. NUL \<notin> set v" pd_set_string pd_string Some
  by unfold_locales (simp_all add: pd_string_set_string)

lemmas pd_laws = pd_int64_set_int64 pd_string_set_int64 pd_string_set_string pd_int64_set_string

text \<open>A copy overrides the fields that the source has.\<close>

lemma pd_copy_step:
  assumes "items_wf hp its" "ai_name i = k"
  shows "items_wf (hp_alloc i hp) (AList.update k (hp_next hp) its)"
    "pd_item (hp_alloc i hp, AList.update k (hp_next hp) its) = (pd_item (hp, its))(k \<mapsto> i)"
  using pd_item_add_new [OF assms(1), of i "hp_alloc i hp" "AList.update k (hp_next hp) its"]
    items_add_new_wf [OF assms(1), of "Some i" "hp_alloc i hp" "AList.update k (hp_next hp) its"] assms(2)
  by (simp_all add: items_add_new_def auth_items_add_item_def)

lemma pd_copy_item:
  assumes "pd_ok d" "pd_ok src"
  shows "pd_item (pd_copy d src) = pd_item d ++ pd_item src" "pd_ok (pd_copy d src)"
proof -
  define f where "f = (\<lambda>(k :: string, a) (hp, its). (hp_alloc (hp_get (fst src) a) hp, AList.update k (hp_next hp) its))"
  define m where "m = (\<lambda>xs (k :: string). map_option (hp_get (fst src)) (map_of xs k))"
  have srcwf: "items_wf (fst src) (snd src)"
    using assms(2) by (simp add: pd_ok_def)
  have "items_wf (fst (fold f xs d)) (snd (fold f xs d)) \<and> \<not> hp_fault (fst (fold f xs d)) \<and>
      pd_item (fold f xs d) = pd_item d ++ m xs"
    if "set xs \<subseteq> set (snd src)" "distinct (map fst xs)" for xs
    using that
  proof (induction xs rule: rev_induct)
    case Nil
    then show ?case
      using assms(1) by (simp add: pd_ok_def m_def map_add_def)
  next
    case (snoc x xs)
    obtain k a where x: "x = (k, a)" by (cases x)
    then have name: "ai_name (hp_get (fst src) a) = k"
      using snoc.prems(1) items_wf_name [OF srcwf] by auto
    obtain hp its where s: "fold f xs d = (hp, its)" by (cases "fold f xs d")
    have wf: "items_wf hp its" and IH: "\<not> hp_fault hp" "pd_item (hp, its) = pd_item d ++ m xs"
      using snoc.IH snoc.prems s by simp_all
    have k: "k \<notin> fst ` set xs"
      using snoc.prems(2) x by auto
    then have "map_of xs k = None"
      by (simp add: map_of_eq_None_iff)
    then have "m (xs @ [x]) = (m xs)(k \<mapsto> hp_get (fst src) a)"
      by (auto simp: m_def x map_add_def fun_eq_iff split: option.splits)
    then have "pd_item d ++ m (xs @ [x]) = (pd_item d ++ m xs)(k \<mapsto> hp_get (fst src) a)"
      by (simp only: map_add_upd)
    then show ?case
      using pd_copy_step [OF wf name] IH s by (simp add: f_def x)
  qed
  from this [of "snd src"] srcwf have *: "items_wf (fst (pd_copy d src)) (snd (pd_copy d src))"
    "\<not> hp_fault (fst (pd_copy d src))" "pd_item (pd_copy d src) = pd_item d ++ m (snd src)"
    by (simp_all add: pd_copy_def f_def items_wf_distinct)
  moreover have "m (snd src) = pd_item src"
    by (simp add: pd_item_def find_item_def fun_eq_iff m_def)
  ultimately show item: "pd_item (pd_copy d src) = pd_item d ++ pd_item src"
    by simp
  show "pd_ok (pd_copy d src)"
    using *(1,2) assms unfolding pd_ok_def item by (auto simp: map_add_Some_iff)
qed

lemma pd_copy_get:
  assumes "pd_ok d" "pd_ok src"
  shows "pd_int64 (pd_copy d src) k = (if pd_item src k = None then pd_int64 d k else pd_int64 src k)"
    "pd_string (pd_copy d src) k = (if pd_item src k = None then pd_string d k else pd_string src k)"
  using pd_copy_item [OF assms] assms
  by (auto simp: pd_int64_item pd_string_item map_add_def split: option.splits)

section \<open>Rows as dictionaries\<close>

text \<open>What an item says of the value it was parsed from.\<close>

fun item_reads :: "sqlval \<Rightarrow> auth_item option \<Rightarrow> bool" where
  "item_reads SQL_Null i \<longleftrightarrow> i = None"
| "item_reads (SQL_Int x) i \<longleftrightarrow> i \<noteq> None \<and> item_int64 i = x \<and> ai_type (the i) = AI_TYPE_INT64"
| "item_reads (SQL_Real x) i \<longleftrightarrow> i \<noteq> None \<and> ai_type (the i) = AI_TYPE_DOUBLE \<and>
     ai_value (the i) = Some (le_bytes 8 (unat x)) \<and> ai_valueLength (the i) = 8"
| "item_reads (SQL_Text s) i \<longleftrightarrow> i \<noteq> None \<and> item_string i = Some (cstr s) \<and> ai_type (the i) = AI_TYPE_STRING"
| "item_reads (SQL_Blob b) i \<longleftrightarrow> (if b = [] then i = None else i \<noteq> None \<and> ai_type (the i) = AI_TYPE_DATA \<and>
     (\<exists>v. ai_value (the i) = Some v \<and> take (ai_valueLength (the i)) v = b) \<and> ai_valueLength (the i) = length b)"

lemma parseItemsAtIndex_item:
  assumes "pd_ok d"
  shows "pd_ok (parseItemsAtIndex d col v) \<and>
    (\<forall>k. k \<noteq> col \<longrightarrow> pd_item (parseItemsAtIndex d col v) k = pd_item d k) \<and>
    (pd_item d col = None \<longrightarrow> item_reads v (pd_item (parseItemsAtIndex d col v) col))"
proof (cases v)
  case (SQL_Text s)
  have nul: "NUL \<notin> set (cstr s)" by simp
  show ?thesis
    using SQL_Text assms pd_set_string_item [OF assms nul, of col] by auto
next
  case (SQL_Blob b)
  show ?thesis
  proof (cases "b = []")
    case True
    then show ?thesis using SQL_Blob assms by (simp add: pd_set_data_def auth_items_set_data_def)
  next
    case False
    then show ?thesis using SQL_Blob assms pd_set_data_item [OF assms False, of col] by auto
  qed
next
  case (SQL_Int x)
  then show ?thesis using assms pd_set_int64_item [OF assms, of col x] by auto
next
  case (SQL_Real x)
  then show ?thesis using assms pd_set_double_item [OF assms, of col x] by auto
qed (use assms in simp)

lemma parse_row_items:
  assumes "distinct (map fst r)"
  shows "pd_ok (parse_row r) \<and> (\<forall>k. item_reads (row_get r k) (pd_item (parse_row r) k))"
  using assms
proof (induction r rule: rev_induct)
  case Nil
  then show ?case by (simp add: parse_row_def row_get_def)
next
  case (snoc x r)
  obtain col v where x: "x = (col, v)" by (cases x)
  have IH: "pd_ok (parse_row r)" "\<And>k. item_reads (row_get r k) (pd_item (parse_row r) k)"
    using snoc by auto
  have col: "map_of r col = None"
    using snoc.prems x by (auto simp: map_of_eq_None_iff)
  then have "pd_item (parse_row r) col = None"
    using IH(2) [of col] by (simp add: row_get_def)
  moreover have "row_get (r @ [x]) k = (if k = col then v else row_get r k)" for k
    using col by (auto simp: row_get_def x map_add_def split: option.splits)
  moreover have "parse_row (r @ [x]) = parseItemsAtIndex (parse_row r) col v"
    by (simp add: parse_row_def x)
  ultimately show ?case
    using parseItemsAtIndex_item [OF IH(1), of col v] IH(2) by auto
qed

lemma parse_row_reads:
  assumes "distinct (map fst r)"
  shows "row_get r k = SQL_Int x \<Longrightarrow> pd_int64 (parse_row r) k = x"
    "row_get r k = SQL_Null \<Longrightarrow> pd_int64 (parse_row r) k = 0"
    "row_get r k = SQL_Null \<Longrightarrow> pd_string (parse_row r) k = None"
    "row_get r k = SQL_Text s \<Longrightarrow> pd_string (parse_row r) k = Some (cstr s)"
    "row_get r k = SQL_Null \<Longrightarrow> pd_item (parse_row r) k = None"
    "row_get r k \<noteq> SQL_Null \<Longrightarrow> row_get r k \<noteq> SQL_Blob [] \<Longrightarrow> pd_item (parse_row r) k \<noteq> None"
  using parse_row_items [OF assms]
  by (auto simp: pd_int64_item pd_string_item item_int64_def [of None] item_string_def [of None]
      dest!: spec [of _ k] split: if_splits elim: item_reads.elims)

text \<open>A copy of a row reads like the row where the row has a value.\<close>

lemma pd_copy_row:
  assumes "pd_ok d" "distinct (map fst r)"
  shows "pd_ok (pd_copy d (parse_row r))"
    "row_get r k = SQL_Int x \<Longrightarrow> pd_int64 (pd_copy d (parse_row r)) k = x"
    "row_get r k = SQL_Text s \<Longrightarrow> pd_string (pd_copy d (parse_row r)) k = Some (cstr s)"
    "row_get r k = SQL_Null \<Longrightarrow> pd_item (pd_copy d (parse_row r)) k = pd_item d k"
proof -
  have row: "pd_ok (parse_row r)" "item_reads (row_get r k) (pd_item (parse_row r) k)"
    using parse_row_items [OF assms(2)] by auto
  note item = pd_copy_item(1) [OF assms(1) row(1)] and ok = pd_copy_item(2) [OF assms(1) row(1)]
  show "pd_ok (pd_copy d (parse_row r))" by (rule ok)
  show "row_get r k = SQL_Int x \<Longrightarrow> pd_int64 (pd_copy d (parse_row r)) k = x"
    using row(2) ok by (auto simp: pd_int64_item item map_add_def)
  show "row_get r k = SQL_Text s \<Longrightarrow> pd_string (pd_copy d (parse_row r)) k = Some (cstr s)"
    using row(2) by (auto simp: pd_string_item item map_add_def)
  show "row_get r k = SQL_Null \<Longrightarrow> pd_item (pd_copy d (parse_row r)) k = pd_item d k"
    using row(2) by (auto simp: item map_add_def)
qed

end
