(* ===== verification/Daemon.thy ===== *)
theory Daemon
  imports Auth_Token Database
begin

text \<open>
  The state of the daemon and the life of its objects: the maps of sessions, processes and tokens of
  \<^verbatim>\<open>src/OSX/authd/server.c\<close>, the connections of \<^verbatim>\<open>connection.c\<close>, and the operations of \<^verbatim>\<open>process.c\<close> that link
  processes and tokens.  Objects are addresses of stores that only grow; a process whose last
  reference is gone is finalized and its address recorded as freed.

  What runs on the server's queue is one step.  What the code defers is a step of its own: the removal
  of a token from the map (\<^verbatim>\<open>dispatch_async\<close>) waits in a list, and the release of a connection follows
  its unregistration off the queue.  A released connection is referenced by nothing else, as no engine
  runs on it any more.
\<close>

unbundle bit_operations_syntax

section \<open>State\<close>

datatype conn_state = Conn_Live | Conn_Released | Conn_Gone

record connection =
  cn_proc :: nat
  cn_state :: conn_state
  cn_sent_syslog_warn :: bool

record 'w daemon =
  dm_world :: 'w
  dm_items :: items_heap
  dm_creds :: "credential list"
  dm_sessions :: "session list"
  dm_procs :: "process list"
  dm_tokens :: "auth_token list"
  dm_conns :: "connection list"
  dm_session_map :: "(32 word, nat) dict"
  dm_process_map :: "(32 word \<times> 32 word, nat) dict"
  dm_token_map :: "(string, nat) dict"
  dm_pending :: "string list"
  dm_freed :: "nat list"
  dm_transaction :: bool
  dm_auth_count :: "64 word"
  dm_fault :: bool
  dm_db :: db

text \<open>The maps as \<^verbatim>\<open>server_init\<close> creates them.\<close>

definition daemon_empty :: "'w \<Rightarrow> db \<Rightarrow> 'w daemon" where
  "daemon_empty w dbase = \<lparr> dm_world = w, dm_items = hp_empty, dm_creds = [], dm_sessions = [], dm_procs = [],
     dm_tokens = [], dm_conns = [], dm_session_map = [], dm_process_map = [], dm_token_map = [], dm_pending = [],
     dm_freed = [], dm_transaction = False, dm_auth_count = 0, dm_fault = False, dm_db = dbase \<rparr>"

abbreviation kAuthorizationFlagInteractionAllowed :: "32 word" where "kAuthorizationFlagInteractionAllowed \<equiv> 1"
abbreviation kAuthorizationFlagExtendRights :: "32 word" where "kAuthorizationFlagExtendRights \<equiv> 2"
abbreviation kAuthorizationFlagPartialRights :: "32 word" where "kAuthorizationFlagPartialRights \<equiv> 4"
abbreviation kAuthorizationFlagDestroyRights :: "32 word" where "kAuthorizationFlagDestroyRights \<equiv> 8"
abbreviation kAuthorizationFlagPreAuthorize :: "32 word" where "kAuthorizationFlagPreAuthorize \<equiv> 16"
abbreviation kAuthorizationFlagLeastPrivileged :: "32 word" where "kAuthorizationFlagLeastPrivileged \<equiv> 32"
abbreviation kAuthorizationFlagSheet :: "32 word" where "kAuthorizationFlagSheet \<equiv> 64"
abbreviation kAuthorizationFlagIgnorePasswordOnly :: "32 word" where "kAuthorizationFlagIgnorePasswordOnly \<equiv> 128"
abbreviation kAuthorizationFlagIgnoreDarkWake :: "32 word" where "kAuthorizationFlagIgnoreDarkWake \<equiv> 256"
abbreviation kAuthorizationFlagSkipInternalAuth :: "32 word" where "kAuthorizationFlagSkipInternalAuth \<equiv> 512"
abbreviation kAuthorizationFlagNoData :: "32 word" where "kAuthorizationFlagNoData \<equiv> 1048576"

definition upd_proc :: "nat \<Rightarrow> (process \<Rightarrow> process) \<Rightarrow> 'w daemon \<Rightarrow> 'w daemon" where
  "upd_proc p f d = d\<lparr> dm_procs := (dm_procs d)[p := f (dm_procs d ! p)] \<rparr>"

definition upd_token :: "nat \<Rightarrow> (auth_token \<Rightarrow> auth_token) \<Rightarrow> 'w daemon \<Rightarrow> 'w daemon" where
  "upd_token a f d = d\<lparr> dm_tokens := (dm_tokens d)[a := f (dm_tokens d ! a)] \<rparr>"

definition upd_session :: "nat \<Rightarrow> (session \<Rightarrow> session) \<Rightarrow> 'w daemon \<Rightarrow> 'w daemon" where
  "upd_session s f d = d\<lparr> dm_sessions := (dm_sessions d)[s := f (dm_sessions d ! s)] \<rparr>"

section \<open>Tokens in the server's map\<close>

definition server_register_auth_token :: "'w daemon \<Rightarrow> nat \<Rightarrow> 'w daemon" where
  "server_register_auth_token d auth =
     upd_token auth (\<lambda>a. auth_token_set_state a auth_token_state_registered)
       (d\<lparr> dm_token_map := AList.update (at_blob (dm_tokens d ! auth)) auth (dm_token_map d) \<rparr>)"

text \<open>\<^verbatim>\<open>server_unregister_auth_token\<close> copies the blob and defers the removal.\<close>

definition server_unregister_auth_token :: "'w daemon \<Rightarrow> nat \<Rightarrow> 'w daemon" where
  "server_unregister_auth_token d auth = d\<lparr> dm_pending := dm_pending d @ [at_blob (dm_tokens d ! auth)] \<rparr>"

definition run_pending :: "'w daemon \<Rightarrow> 'w daemon" where
  "run_pending d =
     (case dm_pending d of
        [] \<Rightarrow> d
      | blob # rest \<Rightarrow> d\<lparr> dm_pending := rest, dm_token_map := AList.delete blob (dm_token_map d) \<rparr>)"

definition server_find_copy_auth_token :: "'w daemon \<Rightarrow> string \<Rightarrow> nat option" where
  "server_find_copy_auth_token d blob = map_of (dm_token_map d) blob"

section \<open>Processes and their tokens\<close>

definition process_add_auth_token :: "'w daemon \<Rightarrow> nat \<Rightarrow> nat \<Rightarrow> 'w daemon" where
  "process_add_auth_token d proc auth =
     (let eq = token_eq (dm_tokens d);
          bag = cfbag_add eq (pr_authTokens (dm_procs d ! proc)) auth;
          d1 = upd_proc proc (\<lambda>p. p\<lparr> pr_authTokens := bag \<rparr>) d
      in if cfbag_count_of eq bag auth = 1 then upd_token auth (\<lambda>a. fst (auth_token_add_process a proc)) d1 else d1)"

text \<open>\<^verbatim>\<open>_destroy_zombie_tokens\<close>: the tokens the process created and freed while others held them leave its
  bag once no one else does.\<close>

definition destroy_zombie_step :: "nat \<Rightarrow> nat \<Rightarrow> 'w daemon \<Rightarrow> 'w daemon" where
  "destroy_zombie_step proc auth d =
     (let a = dm_tokens d ! auth
      in if auth_token_is_creator a proc \<and> auth_token_check_state a auth_token_state_zombie \<and>
            auth_token_get_process_count a = 1
         then upd_proc proc (\<lambda>p. p\<lparr> pr_authTokens := cfbag_remove (token_eq (dm_tokens d)) (pr_authTokens p) auth \<rparr>) d
         else d)"

definition destroy_zombie_tokens :: "('w, 'z) env_scheme \<Rightarrow> 'w daemon \<Rightarrow> nat \<Rightarrow> 'w daemon" where
  "destroy_zombie_tokens env d proc =
     snd (cf_iterate (\<lambda>auth d. (True, destroy_zombie_step proc auth d))
       (env_order env (dm_world d) (pr_authTokens (dm_procs d ! proc))) False d)"

definition process_remove_auth_token ::
  "('w, 'z) env_scheme \<Rightarrow> 'w daemon \<Rightarrow> nat \<Rightarrow> nat \<Rightarrow> 32 word \<Rightarrow> 'w daemon" where
  "process_remove_auth_token env d proc auth flags =
     (let eq = token_eq (dm_tokens d);
          a = dm_tokens d ! auth;
          creator = auth_token_is_creator a proc;
          cnt = auth_token_get_process_count a;
          (destroy, d1) =
            (if cnt = 1 \<or> flags AND kAuthorizationFlagDestroyRights \<noteq> 0 then (True, d)
             else if creator then
               (if cfbag_count_of eq (pr_authTokens (dm_procs d ! proc)) auth = 1
                then (False, upd_token auth (\<lambda>a. auth_token_set_state a auth_token_state_zombie) d)
                else (True, d))
             else (True, d));
          d2 =
            (if destroy then
               let bag = cfbag_remove eq (pr_authTokens (dm_procs d1 ! proc)) auth;
                   d' = upd_proc proc (\<lambda>p. p\<lparr> pr_authTokens := bag \<rparr>) d1
               in if \<not> cfset_contains eq bag auth then
                    let d'' = upd_token auth (\<lambda>a. fst (auth_token_remove_process a proc)) d'
                    in if cnt = 1 \<and> auth_token_check_state (dm_tokens d'' ! auth) auth_token_state_registered
                       then server_unregister_auth_token d'' auth else d''
                  else d'
             else d1)
      in destroy_zombie_tokens env d2 proc)"

definition process_find_copy_auth_token :: "('w, 'z) env_scheme \<Rightarrow> 'w daemon \<Rightarrow> nat \<Rightarrow> string \<Rightarrow> nat option" where
  "process_find_copy_auth_token env d proc blob =
     snd (cf_iterate (\<lambda>iter r. if blob = at_blob (dm_tokens d ! iter) then (False, Some iter) else (True, r))
       (env_order env (dm_world d) (pr_authTokens (dm_procs d ! proc))) False None)"

text \<open>\<^verbatim>\<open>_unregister_auth_tokens\<close> and \<^verbatim>\<open>_process_finalize\<close>.\<close>

definition unregister_auth_tokens :: "nat \<Rightarrow> nat \<Rightarrow> 'w daemon \<Rightarrow> 'w daemon" where
  "unregister_auth_tokens proc auth d =
     (case auth_token_remove_process (dm_tokens d ! auth) proc of
        (a, cnt) \<Rightarrow>
          let d' = upd_token auth (\<lambda>_. a) d
          in if cnt = 0 \<and> auth_token_check_state a auth_token_state_registered
             then server_unregister_auth_token d' auth else d')"

definition process_finalize :: "('w, 'z) env_scheme \<Rightarrow> 'w daemon \<Rightarrow> nat \<Rightarrow> 'w daemon" where
  "process_finalize env d proc =
     (let d1 = fold (unregister_auth_tokens proc) (env_order env (dm_world d) (pr_authTokens (dm_procs d ! proc))) d;
          d2 = upd_session (pr_session (dm_procs d ! proc)) (\<lambda>s. fst (session_remove_process s proc)) d1
      in (upd_proc proc (\<lambda>p. p\<lparr> pr_authTokens := [], pr_connections := [] \<rparr>) d2)\<lparr> dm_freed := proc # dm_freed d2 \<rparr>)"

text \<open>A process is referenced by the process map and by the connections that are not gone.\<close>

definition process_referenced :: "'w daemon \<Rightarrow> nat \<Rightarrow> bool" where
  "process_referenced d proc \<longleftrightarrow>
     proc \<in> snd ` set (dm_process_map d) \<or> (\<exists>c\<in>set (dm_conns d). cn_state c \<noteq> Conn_Gone \<and> cn_proc c = proc)"

definition process_release :: "('w, 'z) env_scheme \<Rightarrow> 'w daemon \<Rightarrow> nat \<Rightarrow> 'w daemon" where
  "process_release env d proc =
     (if process_referenced d proc \<or> proc \<in> set (dm_freed d) then d else process_finalize env d proc)"

section \<open>Connections\<close>

definition connection_create :: "'w daemon \<Rightarrow> nat \<Rightarrow> nat \<times> 'w daemon" where
  "connection_create d proc =
     (length (dm_conns d),
      d\<lparr> dm_conns := dm_conns d @ [\<lparr> cn_proc = proc, cn_state = Conn_Live, cn_sent_syslog_warn = False \<rparr>] \<rparr>)"

text \<open>\<^verbatim>\<open>server_find_copy_session\<close>.\<close>

definition server_find_copy_session ::
  "('w, 'z) env_scheme \<Rightarrow> 'w daemon \<Rightarrow> 32 word \<Rightarrow> bool \<Rightarrow> nat option \<times> 'w daemon" where
  "server_find_copy_session env d sid create =
     (case map_of (dm_session_map d) sid of
        Some s \<Rightarrow> (Some s, d)
      | None \<Rightarrow>
          if create then
            let session = session_create env (dm_world d) sid; s = length (dm_sessions d)
            in (Some s, d\<lparr> dm_sessions := dm_sessions d @ [session],
                           dm_session_map := AList.update (session_get_id session) s (dm_session_map d) \<rparr>)
          else (None, d))"

definition server_register_connection ::
  "('w, 'z) env_scheme \<Rightarrow> 'w daemon \<Rightarrow> audit_info \<Rightarrow> nat option \<times> 'w daemon" where
  "server_register_connection env d info =
     (case server_find_copy_session env d (au_asid info) True of
        (s, d1) \<Rightarrow>
          let session = the s;
              (conn, d2) =
                (case map_of (dm_process_map d1) (au_pid info, au_tid info) of
                   Some proc \<Rightarrow>
                     (case connection_create d1 proc of
                        (conn, d') \<Rightarrow> (Some conn, upd_proc proc (\<lambda>p. fst (process_add_connection p conn)) d'))
                 | None \<Rightarrow>
                     (case process_create env (dm_world d1) info session of
                        None \<Rightarrow> (None, d1)
                      | Some p \<Rightarrow>
                          let proc = length (dm_procs d1)
                          in case connection_create (d1\<lparr> dm_procs := dm_procs d1 @ [p] \<rparr>) proc of
                               (conn, d') \<Rightarrow>
                                 (Some conn,
                                  (upd_session session (\<lambda>s. fst (session_add_process s proc))
                                    (upd_proc proc (\<lambda>p. fst (process_add_connection p conn)) d'))
                                  \<lparr> dm_process_map := AList.update (process_get_key p) proc (dm_process_map d1) \<rparr>)))
          in (conn, d2\<lparr> dm_transaction := True \<rparr>))"

text \<open>\<^verbatim>\<open>server_unregister_connection\<close>: the part on the queue, and the release of the connection after it
  (\<^verbatim>\<open>_connection_finalize\<close>).\<close>

definition server_unregister_connection :: "('w, 'z) env_scheme \<Rightarrow> 'w daemon \<Rightarrow> nat \<Rightarrow> 'w daemon" where
  "server_unregister_connection env d conn =
     (let proc = cn_proc (dm_conns d ! conn);
          d1 = (if process_get_connection_count (dm_procs d ! proc) = 1
                then d\<lparr> dm_process_map := AList.delete (process_get_key (dm_procs d ! proc)) (dm_process_map d) \<rparr>
                else d);
          d2 = (if dm_process_map d1 = [] then d1\<lparr> dm_transaction := False \<rparr> else d1)
      in d2\<lparr> dm_conns := (dm_conns d2)[conn := (dm_conns d2 ! conn)\<lparr> cn_state := Conn_Released \<rparr>] \<rparr>)"

definition connection_finalize :: "('w, 'z) env_scheme \<Rightarrow> 'w daemon \<Rightarrow> nat \<Rightarrow> 'w daemon" where
  "connection_finalize env d conn =
     (let proc = cn_proc (dm_conns d ! conn);
          d1 = upd_proc proc (\<lambda>p. fst (process_remove_connection p conn)) d;
          d2 = d1\<lparr> dm_conns := (dm_conns d1)[conn := (dm_conns d1 ! conn)\<lparr> cn_state := Conn_Gone \<rparr>] \<rparr>
      in process_release env d2 proc)"

section \<open>Creation of tokens\<close>

text \<open>The part of \<^verbatim>\<open>authorization_create\<close> before the authorization: a token at the end of the store, held by
  its creator unless the client asks for no data.\<close>

definition new_auth_token :: "('w, 'z) env_scheme \<Rightarrow> 'w daemon \<Rightarrow> nat \<Rightarrow> bool \<Rightarrow> nat option \<times> 'w daemon" where
  "new_auth_token env d proc least =
     (case auth_token_create env (dm_world d) (dm_auth_count d) (dm_procs d ! proc) proc least of
        (auth, w', c, ok) \<Rightarrow>
          let d' = d\<lparr> dm_world := w', dm_auth_count := c, dm_fault := dm_fault d \<or> \<not> ok \<rparr>
          in case auth of
               None \<Rightarrow> (None, d')
             | Some a \<Rightarrow> (Some (length (dm_tokens d)), d'\<lparr> dm_tokens := dm_tokens d @ [a] \<rparr>))"

end
