(* ===== verification/Daemon_Laws.thy ===== *)
theory Daemon_Laws
  imports Daemon
begin

text \<open>
  The life of processes, tokens and connections as a transition system: the steps clients and the
  system can take, an invariant of every reachable state by rule induction, and the two ways in which
  the code loses track of an object.  The steps are those of the life cycle; the requests that authorize are no steps of
  it, nor is the connection that an authorization by smart card makes for itself, so what is reachable here is the state
  before any authorization has run.
\<close>

unbundle bit_operations_syntax

section \<open>Steps\<close>

text \<open>A process is a client while one of its connections is live.\<close>

definition client :: "'w daemon \<Rightarrow> nat \<Rightarrow> bool" where
  "client d proc \<longleftrightarrow> (\<exists>c\<in>set (dm_conns d). cn_state c = Conn_Live \<and> cn_proc c = proc)"

text \<open>The blob of a new token differs from those of the tokens there are: sixty-four random bits.\<close>

inductive daemon_step :: "('w, 'z) env_scheme \<Rightarrow> 'w daemon \<Rightarrow> 'w daemon \<Rightarrow> bool" for env where
  register: "daemon_step env d (snd (server_register_connection env d info))"
| create: "client d p \<Longrightarrow> new_auth_token env d p least = (Some a, d') \<Longrightarrow>
    at_blob (dm_tokens d' ! a) \<notin> at_blob ` set (dm_tokens d) \<Longrightarrow>
    daemon_step env d (if nodata then d' else process_add_auth_token d' p a)"
| free: "client d p \<Longrightarrow> process_find_copy_auth_token env d p blob = Some a \<Longrightarrow>
    daemon_step env d (process_remove_auth_token env d p a flags)"
| export: "client d p \<Longrightarrow> process_find_copy_auth_token env d p blob = Some a \<Longrightarrow>
    daemon_step env d (server_register_auth_token d a)"
| import: "client d p \<Longrightarrow> server_find_copy_auth_token d blob = Some a \<Longrightarrow>
    daemon_step env d (process_add_auth_token d p a)"
| pending: "daemon_step env d (run_pending d)"
| unregister: "c < length (dm_conns d) \<Longrightarrow> cn_state (dm_conns d ! c) = Conn_Live \<Longrightarrow>
    daemon_step env d (server_unregister_connection env d c)"
| finalize: "c < length (dm_conns d) \<Longrightarrow> cn_state (dm_conns d ! c) = Conn_Released \<Longrightarrow>
    daemon_step env d (connection_finalize env d c)"

definition reachable :: "('w, 'z) env_scheme \<Rightarrow> 'w daemon \<Rightarrow> bool" where
  "reachable env d \<longleftrightarrow> (\<exists>w dbase. (daemon_step env)\<^sup>*\<^sup>* (daemon_empty w dbase) d)"

section \<open>The invariant\<close>

definition blobs_ok :: "auth_token list \<Rightarrow> bool" where
  "blobs_ok toks \<longleftrightarrow> distinct (map at_blob toks)"

text \<open>What a process has in its bag is a token that lists the process (processes of \<^term>\<open>X\<close> apart).\<close>

definition bags_ok :: "nat set \<Rightarrow> process list \<Rightarrow> auth_token list \<Rightarrow> bool" where
  "bags_ok X procs toks \<longleftrightarrow> (\<forall>p<length procs. p \<notin> X \<longrightarrow>
     (\<forall>a\<in>set (pr_authTokens (procs ! p)). a < length toks \<and> p \<in> set (at_processes (toks ! a))))"

definition token_map_ok :: "(string, nat) dict \<Rightarrow> auth_token list \<Rightarrow> bool" where
  "token_map_ok m toks \<longleftrightarrow> (\<forall>(b, a)\<in>set m. a < length toks \<and> at_blob (toks ! a) = b \<and>
     auth_token_check_state (toks ! a) auth_token_state_registered)"

definition process_map_ok :: "(32 word \<times> 32 word, nat) dict \<Rightarrow> process list \<Rightarrow> nat list \<Rightarrow> bool" where
  "process_map_ok m procs freed \<longleftrightarrow> distinct (map fst m) \<and> set freed \<subseteq> {..<length procs} \<and>
     (\<forall>(k, p)\<in>set m. p < length procs \<and> p \<notin> set freed \<and> process_get_key (procs ! p) = k)"

text \<open>The connections of a process that is not freed are those of its set, and they are not gone.\<close>

definition conns_ok :: "connection list \<Rightarrow> process list \<Rightarrow> nat list \<Rightarrow> bool" where
  "conns_ok conns procs freed \<longleftrightarrow>
     (\<forall>i<length conns. cn_proc (conns ! i) < length procs \<and>
        (cn_state (conns ! i) \<noteq> Conn_Gone \<longrightarrow>
           cn_proc (conns ! i) \<notin> set freed \<and> i \<in> set (pr_connections (procs ! cn_proc (conns ! i))))) \<and>
     (\<forall>p<length procs. distinct (pr_connections (procs ! p)) \<and>
        (\<forall>i\<in>set (pr_connections (procs ! p)). i < length conns \<and> cn_proc (conns ! i) = p \<and> cn_state (conns ! i) \<noteq> Conn_Gone))"

definition daemon_inv_ex :: "nat set \<Rightarrow> 'w daemon \<Rightarrow> bool" where
  "daemon_inv_ex X d \<longleftrightarrow> blobs_ok (dm_tokens d) \<and> bags_ok X (dm_procs d) (dm_tokens d) \<and>
     token_map_ok (dm_token_map d) (dm_tokens d) \<and>
     process_map_ok (dm_process_map d) (dm_procs d) (dm_freed d) \<and>
     conns_ok (dm_conns d) (dm_procs d) (dm_freed d)"

abbreviation daemon_inv :: "'w daemon \<Rightarrow> bool" where
  "daemon_inv d \<equiv> daemon_inv_ex {} d"

section \<open>Fields under updates\<close>

named_theorems daemon_simps \<open>fields of the daemon after an update of an object\<close>

lemma upd_simps [daemon_simps]:
  "dm_procs (upd_proc p f d) = (dm_procs d)[p := f (dm_procs d ! p)]" "dm_tokens (upd_proc p f d) = dm_tokens d"
  "dm_conns (upd_proc p f d) = dm_conns d" "dm_token_map (upd_proc p f d) = dm_token_map d"
  "dm_process_map (upd_proc p f d) = dm_process_map d" "dm_freed (upd_proc p f d) = dm_freed d"
  "dm_world (upd_proc p f d) = dm_world d" "dm_pending (upd_proc p f d) = dm_pending d"
  "dm_procs (upd_token a g d) = dm_procs d" "dm_tokens (upd_token a g d) = (dm_tokens d)[a := g (dm_tokens d ! a)]"
  "dm_conns (upd_token a g d) = dm_conns d" "dm_token_map (upd_token a g d) = dm_token_map d"
  "dm_process_map (upd_token a g d) = dm_process_map d" "dm_freed (upd_token a g d) = dm_freed d"
  "dm_world (upd_token a g d) = dm_world d" "dm_pending (upd_token a g d) = dm_pending d"
  "dm_procs (upd_session s h d) = dm_procs d" "dm_tokens (upd_session s h d) = dm_tokens d"
  "dm_conns (upd_session s h d) = dm_conns d" "dm_token_map (upd_session s h d) = dm_token_map d"
  "dm_process_map (upd_session s h d) = dm_process_map d" "dm_freed (upd_session s h d) = dm_freed d"
  "dm_world (upd_session s h d) = dm_world d" "dm_pending (upd_session s h d) = dm_pending d"
  by (simp_all add: upd_proc_def upd_token_def upd_session_def)

lemma unregister_token_simps [daemon_simps]:
  "dm_procs (server_unregister_auth_token d a) = dm_procs d" "dm_tokens (server_unregister_auth_token d a) = dm_tokens d"
  "dm_conns (server_unregister_auth_token d a) = dm_conns d" "dm_token_map (server_unregister_auth_token d a) = dm_token_map d"
  "dm_process_map (server_unregister_auth_token d a) = dm_process_map d" "dm_freed (server_unregister_auth_token d a) = dm_freed d"
  "dm_world (server_unregister_auth_token d a) = dm_world d"
  by (simp_all add: server_unregister_auth_token_def)

lemma token_field_simps [daemon_simps]:
  "at_blob (fst (auth_token_add_process a p)) = at_blob a" "at_state (fst (auth_token_add_process a p)) = at_state a"
  "at_blob (fst (auth_token_remove_process a p)) = at_blob a" "at_state (fst (auth_token_remove_process a p)) = at_state a"
  "at_processes (fst (auth_token_add_process a p)) = cfset_add (=) (at_processes a) p"
  "at_processes (fst (auth_token_remove_process a p)) = cfset_remove (=) (at_processes a) p"
  "at_blob (auth_token_set_state a st) = at_blob a" "at_processes (auth_token_set_state a st) = at_processes a"
  by (simp_all add: auth_token_add_process_def auth_token_remove_process_def auth_token_set_state_def Let_def)

lemma set_cfset_add [simp]: "set (cfset_add (=) s x) = insert x (set s)"
  by (auto simp: cfset_add_def cfset_contains_def)

lemma set_cfset_remove [simp]: "set (cfset_remove (=) s x) = set s - {x}"
  by (auto simp: cfset_remove_def)

lemma distinct_cfset_add [simp]: "distinct s \<Longrightarrow> distinct (cfset_add (=) s x)"
  by (auto simp: cfset_add_def cfset_contains_def)

lemma distinct_cfset_remove [simp]: "distinct s \<Longrightarrow> distinct (cfset_remove (=) s x)"
  by (simp add: cfset_remove_def)

lemma set_cfbag_remove_subset: "set (cfbag_remove eq b x) \<subseteq> set b"
  by (induction b) auto

lemma registered_cong: "at_state a = at_state b \<Longrightarrow> auth_token_check_state a s = auth_token_check_state b s"
  by (simp add: auth_token_check_state_def)

lemma check_state_set: "auth_token_check_state a s \<Longrightarrow> s \<noteq> 0 \<Longrightarrow> auth_token_check_state (auth_token_set_state a s') s"
  by (auto simp: auth_token_check_state_def auth_token_set_state_def bit_simps bit_eq_iff)

lemma check_state_set_same: "s \<noteq> 0 \<Longrightarrow> auth_token_check_state (auth_token_set_state a s) s"
  by (auto simp: auth_token_check_state_def auth_token_set_state_def flag_simps)

section \<open>The components of the invariant under updates\<close>

lemma blobs_ok_upd: "blobs_ok toks \<Longrightarrow> at_blob t = at_blob (toks ! a) \<Longrightarrow> blobs_ok (toks[a := t])"
  unfolding blobs_ok_def map_update by (metis list_update_id list_update_overwrite map_update)

lemma token_eq_iff:
  "blobs_ok toks \<Longrightarrow> a < length toks \<Longrightarrow> b < length toks \<Longrightarrow> token_eq toks a b \<longleftrightarrow> a = b"
  by (auto simp: token_eq_def auth_token_equal_def blobs_ok_def distinct_conv_nth)

lemma cfset_contains_token:
  "blobs_ok toks \<Longrightarrow> a < length toks \<Longrightarrow> \<forall>x\<in>set b. x < length toks \<Longrightarrow> cfset_contains (token_eq toks) b a \<longleftrightarrow> a \<in> set b"
  by (auto simp: cfset_contains_def token_eq_iff)

lemma cfbag_add_token:
  "blobs_ok toks \<Longrightarrow> a < length toks \<Longrightarrow> \<forall>x\<in>set b. x < length toks \<Longrightarrow> cfbag_add (token_eq toks) b a = b @ [a]"
  unfolding cfbag_add_def cfset_get_def
  by (auto simp: token_eq_iff find_Some_iff split: option.splits)

lemma cfbag_count_token:
  "blobs_ok toks \<Longrightarrow> a < length toks \<Longrightarrow> \<forall>x\<in>set b. x < length toks \<Longrightarrow> cfbag_count_of (token_eq toks) b a = count_list b a"
  by (induction b) (auto simp: cfbag_count_of_def token_eq_iff)

lemma cfbag_remove_token:
  "blobs_ok toks \<Longrightarrow> a < length toks \<Longrightarrow> \<forall>x\<in>set b. x < length toks \<Longrightarrow> cfbag_remove (token_eq toks) b a = remove1 a b"
  by (induction b) (auto simp: token_eq_iff)

lemma bags_okD:
  "bags_ok X procs toks \<Longrightarrow> p < length procs \<Longrightarrow> p \<notin> X \<Longrightarrow> a \<in> set (pr_authTokens (procs ! p)) \<Longrightarrow>
     a < length toks \<and> p \<in> set (at_processes (toks ! a))"
  by (auto simp: bags_ok_def)

lemma nth_upd: "xs[i := x] ! j = (if i = j \<and> i < length xs then x else xs ! j)"
  by (cases "i < length xs") (simp_all add: nth_list_update list_update_beyond)

lemma bags_ok_shrink:
  assumes "bags_ok X procs toks" "p < length procs" "set (pr_authTokens pr) \<subseteq> set (pr_authTokens (procs ! p))"
  shows "bags_ok X (procs[p := pr]) toks"
  using assms unfolding bags_ok_def by (auto simp: nth_upd)

lemma bags_ok_token:
  assumes "bags_ok X procs toks" "\<And>q. q \<notin> X \<Longrightarrow> q \<in> set (at_processes (toks ! a)) \<Longrightarrow> q \<in> set (at_processes t)"
  shows "bags_ok X procs (toks[a := t])"
  using assms unfolding bags_ok_def by (simp add: nth_upd)

lemma token_map_ok_upd:
  assumes "token_map_ok m toks" "at_blob t = at_blob (toks ! a)"
    "auth_token_check_state (toks ! a) auth_token_state_registered \<Longrightarrow> auth_token_check_state t auth_token_state_registered"
  shows "token_map_ok m (toks[a := t])"
  unfolding token_map_ok_def
proof (clarify)
  fix b x assume "(b, x) \<in> set m"
  then have "x < length toks \<and> at_blob (toks ! x) = b \<and> auth_token_check_state (toks ! x) auth_token_state_registered"
    using assms(1) by (auto simp: token_map_ok_def)
  then show "x < length (toks[a := t]) \<and> at_blob (toks[a := t] ! x) = b \<and>
      auth_token_check_state (toks[a := t] ! x) auth_token_state_registered"
    using assms(2,3) by (simp add: nth_upd)
qed

lemma process_map_ok_upd:
  assumes "process_map_ok m procs freed" "pr_auditInfo pr = pr_auditInfo (procs ! p)"
  shows "process_map_ok m (procs[p := pr]) freed"
proof -
  have "process_get_key (procs[p := pr] ! q) = process_get_key (procs ! q)" for q
    using assms(2) by (simp add: nth_upd process_get_key_def)
  then show ?thesis
    using assms(1) by (simp add: process_map_ok_def)
qed

lemma conns_ok_upd:
  assumes "conns_ok conns procs freed" "pr_connections pr = pr_connections (procs ! p)"
  shows "conns_ok conns (procs[p := pr]) freed"
proof -
  have "pr_connections (procs[p := pr] ! q) = pr_connections (procs ! q)" for q
    using assms(2) by (simp add: nth_upd)
  then show ?thesis
    using assms(1) by (simp add: conns_ok_def)
qed

lemma daemon_inv_upd_proc:
  assumes "daemon_inv_ex X d" "\<And>pr. pr_auditInfo (f pr) = pr_auditInfo pr" "\<And>pr. pr_connections (f pr) = pr_connections pr"
    "p \<notin> X \<Longrightarrow> \<forall>a\<in>set (pr_authTokens (f (dm_procs d ! p))). a < length (dm_tokens d) \<and> p \<in> set (at_processes (dm_tokens d ! a))"
  shows "daemon_inv_ex X (upd_proc p f d)"
  using assms by (simp add: daemon_inv_ex_def daemon_simps process_map_ok_upd conns_ok_upd) (simp add: bags_ok_def nth_upd)

lemma daemon_inv_upd_token:
  assumes "daemon_inv_ex X d" "\<And>t. at_blob (f t) = at_blob t"
    "\<And>t. auth_token_check_state t auth_token_state_registered \<Longrightarrow> auth_token_check_state (f t) auth_token_state_registered"
    "\<And>q. q \<notin> X \<Longrightarrow> q \<in> set (at_processes (dm_tokens d ! a)) \<Longrightarrow> q \<in> set (at_processes (f (dm_tokens d ! a)))"
  shows "daemon_inv_ex X (upd_token a f d)"
  using assms by (simp add: daemon_inv_ex_def daemon_simps blobs_ok_upd bags_ok_token token_map_ok_upd)

lemma daemon_inv_fill:
  assumes "daemon_inv_ex {p} d"
    "\<forall>a\<in>set (pr_authTokens (dm_procs d ! p)). a < length (dm_tokens d) \<and> p \<in> set (at_processes (dm_tokens d ! a))"
  shows "daemon_inv d"
  using assms by (auto simp: daemon_inv_ex_def bags_ok_def)

lemma daemon_inv_weaken: "daemon_inv d \<Longrightarrow> daemon_inv_ex X d"
  by (simp add: daemon_inv_ex_def bags_ok_def)

lemma daemon_inv_pending: "daemon_inv_ex X d \<Longrightarrow> daemon_inv_ex X (server_unregister_auth_token d a)"
  by (simp add: daemon_inv_ex_def daemon_simps)

lemma daemon_inv_bag:
  "daemon_inv d \<Longrightarrow> p < length (dm_procs d) \<Longrightarrow> a \<in> set (pr_authTokens (dm_procs d ! p)) \<Longrightarrow>
     a < length (dm_tokens d) \<and> p \<in> set (at_processes (dm_tokens d ! a))"
  by (auto simp: daemon_inv_ex_def bags_ok_def)

lemma daemon_inv_blobs: "daemon_inv_ex X d \<Longrightarrow> blobs_ok (dm_tokens d)"
  by (simp add: daemon_inv_ex_def)

lemma daemon_inv_client: "daemon_inv d \<Longrightarrow> client d p \<Longrightarrow> p < length (dm_procs d) \<and> p \<notin> set (dm_freed d)"
  by (auto simp: daemon_inv_ex_def conns_ok_def client_def in_set_conv_nth)

section \<open>The steps preserve the invariant\<close>

lemma inv_process_add_auth_token:
  assumes inv: "daemon_inv d" and p: "p < length (dm_procs d)" and a: "a < length (dm_tokens d)"
  shows "daemon_inv (process_add_auth_token d p a)"
proof -
  define bag where "bag = pr_authTokens (dm_procs d ! p)"
  have bag: "\<forall>x\<in>set bag. x < length (dm_tokens d) \<and> p \<in> set (at_processes (dm_tokens d ! x))"
    using daemon_inv_bag [OF inv p] by (simp add: bag_def)
  have eqs: "cfbag_add (token_eq (dm_tokens d)) bag a = bag @ [a]"
    "cfbag_count_of (token_eq (dm_tokens d)) (bag @ [a]) a = count_list bag a + 1"
    using bag a daemon_inv_blobs [OF inv] by (simp_all add: cfbag_add_token cfbag_count_token)
  have comm: "upd_token a f (upd_proc p (\<lambda>pr. pr\<lparr> pr_authTokens := b \<rparr>) d) =
      upd_proc p (\<lambda>pr. pr\<lparr> pr_authTokens := b \<rparr>) (upd_token a f d)" for f b
    by (simp add: upd_token_def upd_proc_def)
  show ?thesis
  proof (cases "a \<in> set bag")
    case True
    then have "process_add_auth_token d p a = upd_proc p (\<lambda>pr. pr\<lparr> pr_authTokens := bag @ [a] \<rparr>) d"
      using eqs by (simp add: process_add_auth_token_def bag_def [symmetric] Let_def count_list_0_iff)
    then show ?thesis
      using inv bag True by (auto intro!: daemon_inv_upd_proc)
  next
    case False
    define d' where "d' = upd_token a (\<lambda>t. fst (auth_token_add_process t p)) d"
    have "process_add_auth_token d p a = upd_proc p (\<lambda>pr. pr\<lparr> pr_authTokens := bag @ [a] \<rparr>) d'"
      using False eqs comm by (simp add: process_add_auth_token_def bag_def [symmetric] Let_def d'_def)
    moreover have "daemon_inv d'"
      unfolding d'_def by (intro daemon_inv_upd_token [OF inv]) (simp_all add: daemon_simps cong: registered_cong)
    ultimately show ?thesis
      using bag a by (auto intro!: daemon_inv_upd_proc simp: d'_def daemon_simps nth_upd)
  qed
qed

lemma inv_destroy_zombie_step:
  assumes "daemon_inv d" "p < length (dm_procs d)"
  shows "daemon_inv (destroy_zombie_step p a d)"
proof -
  have "daemon_inv (upd_proc p (\<lambda>pr. pr\<lparr> pr_authTokens := cfbag_remove (token_eq (dm_tokens d)) (pr_authTokens pr) a \<rparr>) d)"
  proof (rule daemon_inv_upd_proc [OF assms(1)])
    show "\<forall>x\<in>set (pr_authTokens ((dm_procs d ! p)\<lparr> pr_authTokens :=
        cfbag_remove (token_eq (dm_tokens d)) (pr_authTokens (dm_procs d ! p)) a \<rparr>)).
      x < length (dm_tokens d) \<and> p \<in> set (at_processes (dm_tokens d ! x))"
      using daemon_inv_bag [OF assms]
        set_cfbag_remove_subset [of "token_eq (dm_tokens d)" "pr_authTokens (dm_procs d ! p)" a] by auto
  qed simp_all
  then show ?thesis
    using assms(1) by (simp add: destroy_zombie_step_def Let_def)
qed

lemma inv_destroy_zombie_tokens:
  assumes "daemon_inv d" "p < length (dm_procs d)"
  shows "daemon_inv (destroy_zombie_tokens env d p)"
proof -
  have len: "length (dm_procs (destroy_zombie_step p a d')) = length (dm_procs d')" for a d'
    by (simp add: destroy_zombie_step_def Let_def daemon_simps)
  have "daemon_inv (fold (destroy_zombie_step p) xs d') \<and> length (dm_procs (fold (destroy_zombie_step p) xs d')) = length (dm_procs d')"
    if "daemon_inv d'" "p < length (dm_procs d')" for xs d'
    using that by (induction xs arbitrary: d') (simp_all add: inv_destroy_zombie_step len)
  from this [OF assms] show ?thesis
    by (simp add: destroy_zombie_tokens_def cf_iterate_all)
qed

lemma inv_remove_process:
  assumes inv: "daemon_inv d" and p: "p < length (dm_procs d)" and a: "a \<notin> set (pr_authTokens (dm_procs d ! p))"
  shows "daemon_inv (upd_token a (\<lambda>t. fst (auth_token_remove_process t p)) d)"
proof (rule daemon_inv_fill)
  show "daemon_inv_ex {p} (upd_token a (\<lambda>t. fst (auth_token_remove_process t p)) d)"
    by (rule daemon_inv_upd_token [OF daemon_inv_weaken [OF inv]]) (simp_all add: daemon_simps cong: registered_cong)
  show "\<forall>x\<in>set (pr_authTokens (dm_procs (upd_token a (\<lambda>t. fst (auth_token_remove_process t p)) d) ! p)).
      x < length (dm_tokens (upd_token a (\<lambda>t. fst (auth_token_remove_process t p)) d)) \<and>
      p \<in> set (at_processes (dm_tokens (upd_token a (\<lambda>t. fst (auth_token_remove_process t p)) d) ! x))"
    using daemon_inv_bag [OF inv p] a by (auto simp: daemon_simps nth_upd)
qed

lemma remove_cases:
  fixes d :: "'w daemon" and p a flags
  defines "eq \<equiv> token_eq (dm_tokens d)"
  defines "bag \<equiv> cfbag_remove (token_eq (dm_tokens d)) (pr_authTokens (dm_procs d ! p)) a"
  defines "zombie \<equiv> upd_token a (\<lambda>t. auth_token_set_state t auth_token_state_zombie) d"
  defines "removed \<equiv> upd_proc p (\<lambda>pr. pr\<lparr> pr_authTokens := bag \<rparr>) d"
  defines "gone \<equiv> upd_token a (\<lambda>t. fst (auth_token_remove_process t p)) removed"
  shows "process_remove_auth_token env d p a flags = destroy_zombie_tokens env
   (if auth_token_get_process_count (dm_tokens d ! a) = 1 \<or> flags AND kAuthorizationFlagDestroyRights \<noteq> 0 \<or>
        \<not> auth_token_is_creator (dm_tokens d ! a) p \<or> cfbag_count_of eq (pr_authTokens (dm_procs d ! p)) a \<noteq> 1
      then if cfset_contains eq bag a then removed
        else if auth_token_get_process_count (dm_tokens d ! a) = 1 \<and>
          auth_token_check_state (dm_tokens gone ! a) auth_token_state_registered
        then server_unregister_auth_token gone a else gone
      else zombie) p"
  unfolding process_remove_auth_token_def Let_def assms
  by (cases "auth_token_get_process_count (dm_tokens d ! a) = 1";
     cases "flags AND kAuthorizationFlagDestroyRights \<noteq> 0";
     cases "auth_token_is_creator (dm_tokens d ! a) p";
     cases "cfbag_count_of (token_eq (dm_tokens d)) (pr_authTokens (dm_procs d ! p)) a = 1";
     cases "cfset_contains (token_eq (dm_tokens d)) (cfbag_remove (token_eq (dm_tokens d)) (pr_authTokens (dm_procs d ! p)) a) a";
     simp only: if_True if_False simp_thms prod.case)

lemma remove_outcomes:
  fixes d :: "'w daemon" and p a flags
  defines "bag \<equiv> cfbag_remove (token_eq (dm_tokens d)) (pr_authTokens (dm_procs d ! p)) a"
  defines "removed \<equiv> upd_proc p (\<lambda>pr. pr\<lparr> pr_authTokens := bag \<rparr>) d"
  defines "gone \<equiv> upd_token a (\<lambda>t. fst (auth_token_remove_process t p)) removed"
  shows "\<exists>d2. process_remove_auth_token env d p a flags = destroy_zombie_tokens env d2 p \<and>
    (d2 = upd_token a (\<lambda>t. auth_token_set_state t auth_token_state_zombie) d \<or>
     cfset_contains (token_eq (dm_tokens d)) bag a \<and> d2 = removed \<or>
     \<not> cfset_contains (token_eq (dm_tokens d)) bag a \<and> (d2 = gone \<or> d2 = server_unregister_auth_token gone a))"
  unfolding assms by (rule exI, rule conjI [OF remove_cases]) (simp split: if_split)

lemma inv_process_remove_auth_token:
  assumes inv: "daemon_inv d" and p: "p < length (dm_procs d)" and a: "a < length (dm_tokens d)"
    and held: "a \<in> set (pr_authTokens (dm_procs d ! p))"
  shows "daemon_inv (process_remove_auth_token env d p a flags)"
proof -
  define bag where "bag = cfbag_remove (token_eq (dm_tokens d)) (pr_authTokens (dm_procs d ! p)) a"
  define zombie where "zombie = upd_token a (\<lambda>t. auth_token_set_state t auth_token_state_zombie) d"
  define removed where "removed = upd_proc p (\<lambda>pr. pr\<lparr> pr_authTokens := bag \<rparr>) d"
  define gone where "gone = upd_token a (\<lambda>t. fst (auth_token_remove_process t p)) removed"
  have sub: "set bag \<subseteq> set (pr_authTokens (dm_procs d ! p))"
    unfolding bag_def by (rule set_cfbag_remove_subset)
  have zombie: "daemon_inv zombie"
    unfolding zombie_def by (intro daemon_inv_upd_token [OF inv]) (simp_all add: daemon_simps check_state_set)
  have removed: "daemon_inv removed"
    unfolding removed_def using daemon_inv_bag [OF inv p] subsetD [OF sub] by (intro daemon_inv_upd_proc [OF inv]) simp_all
  have mem: "cfset_contains (token_eq (dm_tokens d)) bag a \<longleftrightarrow> a \<in> set bag"
    using a subsetD [OF sub] daemon_inv_bag [OF inv p] daemon_inv_blobs [OF inv]
    by (intro cfset_contains_token) auto
  have gone: "daemon_inv gone" if "a \<notin> set bag"
    unfolding gone_def using that p by (intro inv_remove_process removed) (simp_all add: removed_def daemon_simps)
  obtain d2 where d2: "process_remove_auth_token env d p a flags = destroy_zombie_tokens env d2 p"
    "d2 = zombie \<or> cfset_contains (token_eq (dm_tokens d)) bag a \<and> d2 = removed \<or>
      \<not> cfset_contains (token_eq (dm_tokens d)) bag a \<and> (d2 = gone \<or> d2 = server_unregister_auth_token gone a)"
    using remove_outcomes [of env d p a flags] unfolding zombie_def bag_def gone_def removed_def by blast
  have "daemon_inv d2 \<and> length (dm_procs d2) = length (dm_procs d)"
    using d2(2) zombie removed gone mem daemon_inv_pending [of "{}" gone a]
    by (elim disjE conjE) (simp_all add: zombie_def removed_def gone_def daemon_simps)
  then show ?thesis
    using p by (simp add: d2(1) inv_destroy_zombie_tokens)
qed

lemma find_loop_Some:
  "snd (cf_iterate (\<lambda>x r. if P x then (False, Some x) else (True, r)) xs b r0) = Some a \<Longrightarrow> r0 = None \<Longrightarrow> a \<in> set xs \<and> P a"
  by (induction xs arbitrary: b) (auto split: if_splits)

lemma find_loop_None:
  "snd (cf_iterate (\<lambda>x r. if P x then (False, Some x) else (True, r)) xs b None) = None \<longleftrightarrow> (\<forall>x\<in>set xs. \<not> P x)"
  by (induction xs arbitrary: b) auto

lemma process_find_copy_Some:
  assumes "env_order_ok env" "process_find_copy_auth_token env d p blob = Some a"
  shows "a \<in> set (pr_authTokens (dm_procs d ! p)) \<and> at_blob (dm_tokens d ! a) = blob"
  using find_loop_Some [OF assms(2) [unfolded process_find_copy_auth_token_def] refl] env_order_set [OF assms(1)] by auto

lemma inv_find_token:
  "env_order_ok env \<Longrightarrow> daemon_inv d \<Longrightarrow> client d p \<Longrightarrow> process_find_copy_auth_token env d p blob = Some a \<Longrightarrow>
   p < length (dm_procs d) \<and> a \<in> set (pr_authTokens (dm_procs d ! p)) \<and> a < length (dm_tokens d)"
  using daemon_inv_client [of d p] process_find_copy_Some [of env d p blob a] daemon_inv_bag [of d p a] by auto

lemma token_map_of: "daemon_inv d \<Longrightarrow> server_find_copy_auth_token d blob = Some a \<Longrightarrow>
    a < length (dm_tokens d) \<and> at_blob (dm_tokens d ! a) = blob \<and>
    auth_token_check_state (dm_tokens d ! a) auth_token_state_registered"
  unfolding server_find_copy_auth_token_def daemon_inv_ex_def token_map_ok_def by (auto dest: map_of_SomeD)

lemma set_update_subset: "set (AList.update k v xs) \<subseteq> insert (k, v) (set xs)"
  by (induction xs) auto

lemma set_delete_subset: "set (AList.delete k xs) \<subseteq> set xs"
  by (induction xs) auto

lemma inv_server_register_auth_token:
  assumes inv: "daemon_inv d" and a: "a < length (dm_tokens d)"
  shows "daemon_inv (server_register_auth_token d a)"
proof -
  define toks where "toks = (dm_tokens d)[a := auth_token_set_state (dm_tokens d ! a) auth_token_state_registered]"
  have "token_map_ok (dm_token_map d) toks"
    unfolding toks_def using inv
    by (intro token_map_ok_upd) (auto simp: daemon_inv_ex_def daemon_simps check_state_set)
  then have "token_map_ok (AList.update (at_blob (dm_tokens d ! a)) a (dm_token_map d)) toks"
    using set_update_subset [of "at_blob (dm_tokens d ! a)" a "dm_token_map d"] a
    by (fastforce simp: token_map_ok_def toks_def nth_upd daemon_simps check_state_set_same)
  then show ?thesis
    using inv by (simp add: daemon_inv_ex_def server_register_auth_token_def daemon_simps toks_def blobs_ok_upd bags_ok_token)
qed

lemma inv_run_pending: "daemon_inv d \<Longrightarrow> daemon_inv (run_pending d)"
  using set_delete_subset
  by (fastforce simp: run_pending_def daemon_inv_ex_def token_map_ok_def split: list.splits)

lemma inv_new_auth_token:
  assumes inv: "daemon_inv d" and new: "new_auth_token env d p least = (Some a, d')"
    and fresh: "at_blob (dm_tokens d' ! a) \<notin> at_blob ` set (dm_tokens d)"
  shows "daemon_inv d' \<and> a < length (dm_tokens d') \<and> dm_procs d' = dm_procs d"
proof -
  obtain t where t: "dm_tokens d' = dm_tokens d @ [t]" "a = length (dm_tokens d)" "dm_procs d' = dm_procs d"
    "dm_conns d' = dm_conns d" "dm_process_map d' = dm_process_map d" "dm_freed d' = dm_freed d"
    "dm_token_map d' = dm_token_map d"
    using new by (auto simp: new_auth_token_def Let_def split: prod.splits option.splits)
  have "blobs_ok (dm_tokens d @ [t])"
    using inv fresh t by (auto simp: daemon_inv_ex_def blobs_ok_def)
  moreover have "bags_ok {} (dm_procs d) (dm_tokens d @ [t])"
    using inv by (auto simp: daemon_inv_ex_def bags_ok_def nth_append less_SucI)
  moreover have "token_map_ok (dm_token_map d) (dm_tokens d @ [t])"
    using inv by (fastforce simp: daemon_inv_ex_def token_map_ok_def nth_append)
  ultimately show ?thesis
    using inv by (simp add: daemon_inv_ex_def t)
qed

text \<open>Freeing a process: its tokens forget it, and it must be referenced by nothing.\<close>

lemma inv_unregister_auth_tokens:
  assumes "daemon_inv_ex {p} d"
  shows "daemon_inv_ex {p} (unregister_auth_tokens p a d)"
proof -
  have "daemon_inv_ex {p} (upd_token a (\<lambda>t. fst (auth_token_remove_process t p)) d)"
    by (rule daemon_inv_upd_token [OF assms]) (simp_all add: daemon_simps cong: registered_cong)
  then show ?thesis
    by (simp add: unregister_auth_tokens_def upd_token_def split_def Let_def daemon_inv_pending)
qed

lemma unregister_auth_tokens_fields:
  "dm_procs (unregister_auth_tokens p a d) = dm_procs d \<and> dm_process_map (unregister_auth_tokens p a d) = dm_process_map d \<and>
   dm_conns (unregister_auth_tokens p a d) = dm_conns d \<and> dm_freed (unregister_auth_tokens p a d) = dm_freed d \<and>
   length (dm_tokens (unregister_auth_tokens p a d)) = length (dm_tokens d)"
  by (simp add: unregister_auth_tokens_def split_def Let_def daemon_simps)

lemma unregister_fold:
  assumes "daemon_inv_ex {p} d"
  shows "daemon_inv_ex {p} (fold (unregister_auth_tokens p) xs d) \<and>
    dm_procs (fold (unregister_auth_tokens p) xs d) = dm_procs d \<and>
    dm_process_map (fold (unregister_auth_tokens p) xs d) = dm_process_map d \<and>
    dm_conns (fold (unregister_auth_tokens p) xs d) = dm_conns d \<and> dm_freed (fold (unregister_auth_tokens p) xs d) = dm_freed d"
  using assms
  by (induction xs arbitrary: d) (simp_all add: inv_unregister_auth_tokens unregister_auth_tokens_fields)

lemma inv_process_release:
  assumes "daemon_inv d" "p < length (dm_procs d)"
  shows "daemon_inv (process_release env d p)"
proof (cases "process_referenced d p \<or> p \<in> set (dm_freed d)")
  case True
  then show ?thesis using assms by (simp add: process_release_def)
next
  case False
  define d1 where "d1 = fold (unregister_auth_tokens p) (env_order env (dm_world d) (pr_authTokens (dm_procs d ! p))) d"
  define procs where "procs = (dm_procs d)[p := (dm_procs d ! p)\<lparr> pr_authTokens := [], pr_connections := [] \<rparr>]"
  have d1: "daemon_inv_ex {p} d1" "dm_procs d1 = dm_procs d" "dm_process_map d1 = dm_process_map d"
    "dm_conns d1 = dm_conns d" "dm_freed d1 = dm_freed d"
    using unregister_fold [OF daemon_inv_weaken [OF assms(1)], of p] by (simp_all add: d1_def)
  have fin: "process_release env d p =
      (upd_proc p (\<lambda>p. p\<lparr> pr_authTokens := [], pr_connections := [] \<rparr>)
        (upd_session (pr_session (dm_procs d ! p)) (\<lambda>s. fst (session_remove_process s p)) d1))\<lparr> dm_freed := p # dm_freed d \<rparr>"
    using False by (simp add: process_release_def process_finalize_def d1_def [symmetric] Let_def daemon_simps d1)
  have "bags_ok {} procs (dm_tokens d1)"
    using d1 by (auto simp: daemon_inv_ex_def bags_ok_def procs_def nth_upd)
  moreover have "process_map_ok (dm_process_map d) procs (p # dm_freed d)"
  proof -
    have "process_map_ok (dm_process_map d) procs (dm_freed d)"
      unfolding procs_def using assms(1) by (intro process_map_ok_upd) (auto simp: daemon_inv_ex_def)
    moreover have "p < length procs"
      using assms(2) by (simp add: procs_def)
    moreover have "q \<noteq> p" if "(k, q) \<in> set (dm_process_map d)" for k q
      using False that by (force simp: process_referenced_def)
    ultimately show ?thesis
      unfolding process_map_ok_def by auto
  qed
  moreover have "conns_ok (dm_conns d) procs (p # dm_freed d)"
  proof -
    have gone: "cn_proc c \<noteq> p" if "c \<in> set (dm_conns d)" "cn_state c \<noteq> Conn_Gone" for c
      using False that by (auto simp: process_referenced_def)
    have old: "conns_ok (dm_conns d) (dm_procs d) (dm_freed d)"
      using assms(1) by (simp add: daemon_inv_ex_def)
    have "cn_proc (dm_conns d ! i) \<noteq> p" if "i < length (dm_conns d)" "cn_state (dm_conns d ! i) \<noteq> Conn_Gone" for i
      using gone [of "dm_conns d ! i"] that by simp
    moreover have "procs ! q = dm_procs d ! q" if "q \<noteq> p" for q
      using that by (simp add: procs_def)
    moreover have "pr_connections (procs ! p) = []" "length procs = length (dm_procs d)"
      using assms(2) by (simp_all add: procs_def)
    ultimately show ?thesis
      using old unfolding conns_ok_def by (smt (verit) empty_iff distinct.simps(1) list.set(1) set_ConsD)
  qed
  ultimately show ?thesis
    using d1 by (simp add: fin daemon_inv_ex_def daemon_simps procs_def)
qed

lemma conns_ok_add:
  assumes ok: "conns_ok conns procs freed" and p: "p < length procs" "p \<notin> set freed" and c: "cn_proc c = p" "cn_state c = Conn_Live"
  shows "conns_ok (conns @ [c]) (procs[p := fst (process_add_connection (procs ! p) (length conns))]) freed"
proof -
  define procs' where "procs' = procs[p := fst (process_add_connection (procs ! p) (length conns))]"
  have pc: "pr_connections (procs' ! q) = (if q = p then cfset_add (=) (pr_connections (procs ! p)) (length conns) else pr_connections (procs ! q))" for q
    using p by (simp add: procs'_def nth_upd process_add_connection_def Let_def)
  have len: "length procs' = length procs" by (simp add: procs'_def)
  have "conns_ok (conns @ [c]) procs' freed"
    unfolding conns_ok_def len pc
  proof (intro conjI allI impI ballI)
    fix i assume "i < length (conns @ [c])"
    then show "cn_proc ((conns @ [c]) ! i) < length procs"
      using ok p c by (cases "i < length conns") (auto simp: conns_ok_def nth_append)
  next
    fix i assume i: "i < length (conns @ [c])" and live: "cn_state ((conns @ [c]) ! i) \<noteq> Conn_Gone"
    show "cn_proc ((conns @ [c]) ! i) \<notin> set freed"
      using ok p c i live by (cases "i < length conns") (auto simp: conns_ok_def nth_append)
    show "i \<in> set (if cn_proc ((conns @ [c]) ! i) = p then cfset_add (=) (pr_connections (procs ! p)) (length conns)
        else pr_connections (procs ! cn_proc ((conns @ [c]) ! i)))"
    proof (cases "i < length conns")
      case True
      then have "i \<in> set (pr_connections (procs ! cn_proc (conns ! i)))"
        using ok live by (simp add: conns_ok_def nth_append)
      with True show ?thesis
        by (auto simp: nth_append)
    next
      case False
      then have "i = length conns" using i by simp
      then show ?thesis using c by simp
    qed
  next
    fix q assume "q < length procs"
    then show "distinct (if q = p then cfset_add (=) (pr_connections (procs ! p)) (length conns) else pr_connections (procs ! q))"
      using ok p by (auto simp: conns_ok_def)
  next
    fix q i assume q: "q < length procs"
      and i: "i \<in> set (if q = p then cfset_add (=) (pr_connections (procs ! p)) (length conns) else pr_connections (procs ! q))"
    have "i = length conns \<and> q = p \<or> i < length conns \<and> cn_proc (conns ! i) = q \<and> cn_state (conns ! i) \<noteq> Conn_Gone"
      using ok q i by (cases "q = p") (auto simp: conns_ok_def)
    then show "i < length (conns @ [c])" "cn_proc ((conns @ [c]) ! i) = q" "cn_state ((conns @ [c]) ! i) \<noteq> Conn_Gone"
      using c by (auto simp: nth_append)
  qed
  then show ?thesis by (simp add: procs'_def)
qed

lemma conns_ok_release:
  assumes "conns_ok conns procs freed" "cn_state (conns ! c) \<noteq> Conn_Gone"
  shows "conns_ok (conns[c := (conns ! c)\<lparr> cn_state := Conn_Released \<rparr>]) procs freed"
proof -
  have "cn_proc (conns[c := (conns ! c)\<lparr> cn_state := Conn_Released \<rparr>] ! i) = cn_proc (conns ! i) \<and>
      (cn_state (conns[c := (conns ! c)\<lparr> cn_state := Conn_Released \<rparr>] ! i) = Conn_Gone \<longleftrightarrow> cn_state (conns ! i) = Conn_Gone)" for i
    using assms(2) by (auto simp: nth_upd)
  then show ?thesis
    using assms(1) by (simp add: conns_ok_def)
qed

lemma conns_ok_gone:
  assumes ok: "conns_ok conns procs freed" and c: "c < length conns"
  shows "conns_ok (conns[c := (conns ! c)\<lparr> cn_state := Conn_Gone \<rparr>])
    (procs[cn_proc (conns ! c) := fst (process_remove_connection (procs ! cn_proc (conns ! c)) c)]) freed"
proof -
  define p where "p = cn_proc (conns ! c)"
  define procs' where "procs' = procs[p := fst (process_remove_connection (procs ! p) c)]"
  define conns' where "conns' = conns[c := (conns ! c)\<lparr> cn_state := Conn_Gone \<rparr>]"
  have p: "p < length procs"
    using ok c by (simp add: conns_ok_def p_def)
  have pc: "pr_connections (procs' ! q) = (if q = p then cfset_remove (=) (pr_connections (procs ! p)) c else pr_connections (procs ! q))" for q
    using p by (simp add: procs'_def nth_upd process_remove_connection_def Let_def)
  have cc: "cn_proc (conns' ! i) = cn_proc (conns ! i)"
    "cn_state (conns' ! i) \<noteq> Conn_Gone \<longleftrightarrow> i \<noteq> c \<and> cn_state (conns ! i) \<noteq> Conn_Gone" for i
    using c by (simp_all add: conns'_def nth_upd)
  have len: "length conns' = length conns" "length procs' = length procs"
    by (simp_all add: conns'_def procs'_def)
  have mem: "i \<in> set (pr_connections (procs' ! q)) \<longleftrightarrow> i \<in> set (pr_connections (procs ! q)) \<and> \<not> (q = p \<and> i = c)" for q i
    by (simp add: pc)
  have "distinct (pr_connections (procs' ! q))" if "q < length procs" for q
    using ok that p by (simp add: pc conns_ok_def)
  moreover have ne: "i \<noteq> c" if i: "i \<in> set (pr_connections (procs' ! q))" and q: "q < length procs" for i q
  proof
    assume "i = c"
    then have "c \<in> set (pr_connections (procs ! q))" "q \<noteq> p"
      using i mem [of i q] by simp_all
    then show False
      using ok q by (simp add: conns_ok_def p_def)
  qed
  moreover have "i < length conns \<and> cn_proc (conns ! i) = q \<and> cn_state (conns ! i) \<noteq> Conn_Gone"
    if "i \<in> set (pr_connections (procs' ! q))" "q < length procs" for i q
    using ok that mem [of i q] by (simp add: conns_ok_def)
  moreover have "i \<in> set (pr_connections (procs' ! cn_proc (conns ! i)))"
    if "i < length conns" "i \<noteq> c" "cn_state (conns ! i) \<noteq> Conn_Gone" for i
    using ok that mem [of i "cn_proc (conns ! i)"] by (simp add: conns_ok_def)
  moreover have "cn_proc (conns ! i) < length procs \<and> (cn_state (conns ! i) \<noteq> Conn_Gone \<longrightarrow> cn_proc (conns ! i) \<notin> set freed)"
    if "i < length conns" for i
    using ok that by (simp add: conns_ok_def)
  ultimately have "conns_ok conns' procs' freed"
    unfolding conns_ok_def cc len by simp
  then show ?thesis
    by (simp add: conns'_def procs'_def p_def)
qed

lemma process_map_ok_delete: "process_map_ok m procs freed \<Longrightarrow> process_map_ok (AList.delete k m) procs freed"
  using set_delete_subset [of k m] unfolding process_map_ok_def by (auto simp: distinct_delete)

lemma process_map_ok_append: "process_map_ok m procs freed \<Longrightarrow> process_map_ok m (procs @ [pr]) freed"
  unfolding process_map_ok_def by (fastforce simp: nth_append)

lemma process_map_ok_insert:
  assumes "process_map_ok m procs freed" "p < length procs" "p \<notin> set freed" "process_get_key (procs ! p) = k"
  shows "process_map_ok (AList.update k p m) procs freed"
  using assms set_update_subset [of k p m] unfolding process_map_ok_def by (auto simp: distinct_update)

lemma conns_ok_append:
  "conns_ok conns procs freed \<Longrightarrow> pr_connections pr = [] \<Longrightarrow> conns_ok conns (procs @ [pr]) freed"
  unfolding conns_ok_def by (auto simp: nth_append less_Suc_eq)

lemma bags_ok_append: "bags_ok X procs toks \<Longrightarrow> pr_authTokens pr = [] \<Longrightarrow> bags_ok X (procs @ [pr]) toks"
  unfolding bags_ok_def by (auto simp: nth_append less_Suc_eq)

lemma daemon_inv_upd_session: "daemon_inv_ex X (upd_session s f d) \<longleftrightarrow> daemon_inv_ex X d"
  by (simp add: daemon_inv_ex_def daemon_simps)

lemma inv_server_find_copy_session:
  "daemon_inv d \<Longrightarrow> daemon_inv (snd (server_find_copy_session env d sid create))"
  by (simp add: server_find_copy_session_def daemon_inv_ex_def Let_def split: option.split)

lemma inv_process_map:
  "daemon_inv d \<Longrightarrow> map_of (dm_process_map d) k = Some p \<Longrightarrow>
     p < length (dm_procs d) \<and> p \<notin> set (dm_freed d) \<and> process_get_key (dm_procs d ! p) = k"
  unfolding daemon_inv_ex_def process_map_ok_def by (auto dest!: map_of_SomeD)

lemma inv_new_connection:
  assumes inv: "daemon_inv d" and p: "p < length (dm_procs d)" "p \<notin> set (dm_freed d)"
  shows "daemon_inv (upd_proc p (\<lambda>pr. fst (process_add_connection pr (length (dm_conns d)))) (snd (connection_create d p)))"
proof -
  have "conns_ok (dm_conns d @ [\<lparr> cn_proc = p, cn_state = Conn_Live, cn_sent_syslog_warn = False \<rparr>])
      ((dm_procs d)[p := fst (process_add_connection (dm_procs d ! p) (length (dm_conns d)))]) (dm_freed d)"
    using inv p by (intro conns_ok_add) (simp_all add: daemon_inv_ex_def)
  moreover have "process_map_ok (dm_process_map d)
      ((dm_procs d)[p := fst (process_add_connection (dm_procs d ! p) (length (dm_conns d)))]) (dm_freed d)"
    using inv by (intro process_map_ok_upd) (simp_all add: daemon_inv_ex_def process_add_connection_def Let_def)
  moreover have "bags_ok {} ((dm_procs d)[p := fst (process_add_connection (dm_procs d ! p) (length (dm_conns d)))]) (dm_tokens d)"
    using inv p by (intro bags_ok_shrink) (simp_all add: daemon_inv_ex_def process_add_connection_def Let_def)
  ultimately show ?thesis
    using inv by (simp add: daemon_inv_ex_def daemon_simps connection_create_def)
qed

lemma inv_server_register_connection:
  assumes inv: "daemon_inv d"
  shows "daemon_inv (snd (server_register_connection env d info))"
proof -
  obtain s d1 where d1: "server_find_copy_session env d (au_asid info) True = (s, d1)"
    by (cases "server_find_copy_session env d (au_asid info) True")
  have inv1: "daemon_inv d1"
    using inv_server_find_copy_session [OF inv, of env "au_asid info" True] d1 by simp
  have trans: "daemon_inv (x\<lparr> dm_transaction := True \<rparr>) \<longleftrightarrow> daemon_inv x" for x :: "'a daemon"
    by (simp add: daemon_inv_ex_def)
  have fst_create: "fst (connection_create x q) = length (dm_conns x)" for x :: "'a daemon" and q
    by (simp add: connection_create_def)
  show ?thesis
  proof (cases "map_of (dm_process_map d1) (au_pid info, au_tid info)")
    case (Some p)
    then show ?thesis
      using inv_new_connection [OF inv1, of p] inv_process_map [OF inv1 Some]
      by (simp add: server_register_connection_def d1 Let_def split_def trans fst_create)
  next
    case None
    show ?thesis
    proof (cases "process_create env (dm_world d1) info (the s)")
      case None
      then show ?thesis
        using \<open>map_of _ _ = None\<close> inv1 by (simp add: server_register_connection_def d1 Let_def trans)
    next
      case (Some pr)
      define p where "p = length (dm_procs d1)"
      define d2 where "d2 = d1\<lparr> dm_procs := dm_procs d1 @ [pr] \<rparr>"
      define d3 where "d3 = upd_proc p (\<lambda>q. fst (process_add_connection q (length (dm_conns d2)))) (snd (connection_create d2 p))"
      note key = process_create_key [OF Some]
      have p: "p < length (dm_procs d2)" "p \<notin> set (dm_freed d2)"
        using inv1 by (auto simp: p_def d2_def daemon_inv_ex_def process_map_ok_def)
      have "daemon_inv d2"
        using inv1 key by (simp add: daemon_inv_ex_def d2_def bags_ok_append process_map_ok_append conns_ok_append)
      then have inv3: "daemon_inv d3"
        unfolding d3_def by (intro inv_new_connection p)
      have d3: "process_get_key (dm_procs d3 ! p) = (au_pid info, au_tid info)" "p < length (dm_procs d3)"
        "p \<notin> set (dm_freed d3)" "dm_process_map d3 = dm_process_map d1"
        using key p by (simp_all add: d3_def d2_def daemon_simps connection_create_def p_def nth_upd
            process_add_connection_def process_get_key_def Let_def)
      have "process_map_ok (AList.update (au_pid info, au_tid info) p (dm_process_map d1)) (dm_procs d3) (dm_freed d3)"
        using inv3 d3 by (intro process_map_ok_insert) (simp_all add: daemon_inv_ex_def)
      then have inv4: "daemon_inv (d3\<lparr> dm_process_map := AList.update (au_pid info, au_tid info) p (dm_process_map d1) \<rparr>)"
        using inv3 by (simp add: daemon_inv_ex_def)
      have upd: "(upd_session s' f x)\<lparr> dm_process_map := m \<rparr> = upd_session s' f (x\<lparr> dm_process_map := m \<rparr>)" for s' f m and x :: "'a daemon"
        by (simp add: upd_session_def)
      have "snd (server_register_connection env d info) =
          (upd_session (the s) (\<lambda>s. fst (session_add_process s p)) d3)
            \<lparr> dm_process_map := AList.update (au_pid info, au_tid info) p (dm_process_map d1), dm_transaction := True \<rparr>"
        using None Some key
        by (simp add: server_register_connection_def d1 Let_def split_def fst_create p_def d2_def d3_def)
      then show ?thesis
        using inv4 by (simp add: trans upd daemon_inv_upd_session)
    qed
  qed
qed

lemma inv_server_unregister_connection:
  assumes inv: "daemon_inv d" and c: "c < length (dm_conns d)" "cn_state (dm_conns d ! c) = Conn_Live"
  shows "daemon_inv (server_unregister_connection env d c)"
proof -
  have "process_map_ok [] (dm_procs d) (dm_freed d)"
    using inv by (simp add: daemon_inv_ex_def process_map_ok_def)
  then show ?thesis
    using inv c
    by (simp add: server_unregister_connection_def Let_def daemon_inv_ex_def conns_ok_release process_map_ok_delete)
qed

lemma inv_connection_finalize:
  assumes inv: "daemon_inv d" and c: "c < length (dm_conns d)"
  shows "daemon_inv (connection_finalize env d c)"
proof -
  define p where "p = cn_proc (dm_conns d ! c)"
  define d1 where "d1 = (upd_proc p (\<lambda>pr. fst (process_remove_connection pr c)) d)
      \<lparr> dm_conns := (dm_conns d)[c := (dm_conns d ! c)\<lparr> cn_state := Conn_Gone \<rparr>] \<rparr>"
  have p: "p < length (dm_procs d)"
    using inv c by (simp add: daemon_inv_ex_def conns_ok_def p_def)
  have "bags_ok {} ((dm_procs d)[p := fst (process_remove_connection (dm_procs d ! p) c)]) (dm_tokens d)"
    using inv p by (intro bags_ok_shrink) (simp_all add: daemon_inv_ex_def process_remove_connection_def Let_def)
  moreover have "process_map_ok (dm_process_map d) ((dm_procs d)[p := fst (process_remove_connection (dm_procs d ! p) c)]) (dm_freed d)"
    using inv by (intro process_map_ok_upd) (simp_all add: daemon_inv_ex_def process_remove_connection_def Let_def)
  moreover have "conns_ok ((dm_conns d)[c := (dm_conns d ! c)\<lparr> cn_state := Conn_Gone \<rparr>])
      ((dm_procs d)[p := fst (process_remove_connection (dm_procs d ! p) c)]) (dm_freed d)"
    unfolding p_def using inv c by (intro conns_ok_gone) (simp_all add: daemon_inv_ex_def)
  ultimately have "daemon_inv d1"
    using inv by (simp add: daemon_inv_ex_def daemon_simps d1_def)
  moreover have "connection_finalize env d c = process_release env d1 p"
    by (simp add: connection_finalize_def d1_def p_def Let_def daemon_simps)
  ultimately show ?thesis
    using p by (simp add: inv_process_release d1_def daemon_simps)
qed

lemma inv_step:
  assumes "daemon_step env d d'" "env_order_ok env" "daemon_inv d"
  shows "daemon_inv d'"
  using assms
proof (induction rule: daemon_step.induct)
  case (register d info)
  then show ?case by (simp add: inv_server_register_connection)
next
  case (create d p least a d' nodata)
  then show ?case
    using inv_new_auth_token [OF create.prems(2) create.hyps(2,3)] daemon_inv_client [of d p]
    by (simp add: inv_process_add_auth_token)
next
  case (free d p blob a flags)
  then show ?case
    using inv_find_token [of env d p blob a] by (simp add: inv_process_remove_auth_token)
next
  case (export d p blob a)
  then show ?case
    using inv_find_token [of env d p blob a] by (simp add: inv_server_register_auth_token)
next
  case (import d p blob a)
  then show ?case
    using daemon_inv_client [of d p] token_map_of [of d blob a] by (simp add: inv_process_add_auth_token)
next
  case (pending d)
  then show ?case by (simp add: inv_run_pending)
next
  case (unregister c d)
  then show ?case by (simp add: inv_server_unregister_connection)
next
  case (finalize c d)
  then show ?case by (simp add: inv_connection_finalize)
qed

lemma inv_init: "daemon_inv (daemon_empty w dbase)"
  by (simp add: daemon_inv_ex_def daemon_empty_def blobs_ok_def bags_ok_def token_map_ok_def process_map_ok_def conns_ok_def)

lemma inv_reachable:
  assumes "reachable env d" "env_order_ok env"
  shows "daemon_inv d"
proof -
  obtain w dbase where "(daemon_step env)\<^sup>*\<^sup>* (daemon_empty w dbase) d"
    using assms(1) by (auto simp: reachable_def)
  then show ?thesis
  proof (induction rule: rtranclp_induct)
    case base
    then show ?case by (rule inv_init)
  next
    case (step y z)
    then show ?case using inv_step [OF _ assms(2)] by blast
  qed
qed

section \<open>Properties of reachable states\<close>

text \<open>C15. In every reachable state a process that holds a token is recorded with the token, a token that is
  found in the server's map has the blob it was asked for and is registered, a process found in the map
  of processes has the identity it was asked for, and no client and no process in the map has been
  freed.  When the last process of a token frees it, no other process holds it: the token that is then
  unregistered has no user.\<close>

theorem daemon_links:
  assumes "reachable env d" "env_order_ok env"
  shows "(\<forall>p a. p < length (dm_procs d) \<longrightarrow> a \<in> set (pr_authTokens (dm_procs d ! p)) \<longrightarrow>
      p \<in> set (at_processes (dm_tokens d ! a)) \<and>
      (auth_token_get_process_count (dm_tokens d ! a) = 1 \<longrightarrow>
        (\<forall>q<length (dm_procs d). a \<in> set (pr_authTokens (dm_procs d ! q)) \<longrightarrow> q = p))) \<and>
    (\<forall>blob a. server_find_copy_auth_token d blob = Some a \<longrightarrow>
      at_blob (dm_tokens d ! a) = blob \<and> auth_token_check_state (dm_tokens d ! a) auth_token_state_registered) \<and>
    (\<forall>k p. map_of (dm_process_map d) k = Some p \<longrightarrow> p \<notin> set (dm_freed d) \<and> process_get_key (dm_procs d ! p) = k) \<and>
    (\<forall>p. client d p \<longrightarrow> p \<notin> set (dm_freed d))"
proof -
  note inv = inv_reachable [OF assms]
  have sole: "q = p" if "auth_token_get_process_count (dm_tokens d ! a) = 1" "p < length (dm_procs d)"
    "a \<in> set (pr_authTokens (dm_procs d ! p))" "q < length (dm_procs d)" "a \<in> set (pr_authTokens (dm_procs d ! q))" for p q a
    using that daemon_inv_bag [OF inv, of p a] daemon_inv_bag [OF inv, of q a]
    by (auto simp: auth_token_get_process_count_def length_Suc_conv)
  show ?thesis
    using daemon_inv_bag [OF inv] sole token_map_of [OF inv] inv_process_map [OF inv] daemon_inv_client [OF inv]
    by auto
qed

section \<open>Runs\<close>

text \<open>A world that counts: every request of random bytes gives new ones, for the length of the runs below.\<close>

definition counting_env :: "nat env" where
  "counting_env = plain_env\<lparr> env_pidpath := \<lambda>w p. Pid_Error,
     env_guest_code := \<lambda>w t. Some (sample_code\<lparr> sc_path := None \<rparr>),
     env_random := \<lambda>w n. (Some (replicate n (''abcdef'' ! w)), Suc w) \<rparr>"

lemma counting_env_order_ok: "env_order_ok counting_env"
  by (simp add: env_order_ok_def counting_env_def plain_env_def)

text \<open>A run is a list of events, each with the check that it is a step.\<close>

datatype event = Ev_Register "32 word" | Ev_Create nat | Ev_Free nat string | Ev_Export nat string
  | Ev_Import nat string | Ev_Pending | Ev_Unregister nat | Ev_Finalize nat

fun event_step :: "event \<Rightarrow> nat daemon \<Rightarrow> nat daemon option" where
  "event_step (Ev_Register pid) d = Some (snd (server_register_connection counting_env d (sample_audit pid)))"
| "event_step (Ev_Create p) d =
     (case new_auth_token counting_env d p False of
        (Some a, d') \<Rightarrow> if list_ex (\<lambda>c. cn_state c = Conn_Live \<and> cn_proc c = p) (dm_conns d) \<and>
            list_all (\<lambda>t. at_blob (dm_tokens d' ! a) \<noteq> at_blob t) (dm_tokens d)
          then Some (process_add_auth_token d' p a) else None
      | _ \<Rightarrow> None)"
| "event_step (Ev_Free p blob) d =
     (case process_find_copy_auth_token counting_env d p blob of
        Some a \<Rightarrow> if list_ex (\<lambda>c. cn_state c = Conn_Live \<and> cn_proc c = p) (dm_conns d)
          then Some (process_remove_auth_token counting_env d p a 0) else None
      | None \<Rightarrow> None)"
| "event_step (Ev_Export p blob) d =
     (case process_find_copy_auth_token counting_env d p blob of
        Some a \<Rightarrow> if list_ex (\<lambda>c. cn_state c = Conn_Live \<and> cn_proc c = p) (dm_conns d)
          then Some (server_register_auth_token d a) else None
      | None \<Rightarrow> None)"
| "event_step (Ev_Import p blob) d =
     (case server_find_copy_auth_token d blob of
        Some a \<Rightarrow> if list_ex (\<lambda>c. cn_state c = Conn_Live \<and> cn_proc c = p) (dm_conns d)
          then Some (process_add_auth_token d p a) else None
      | None \<Rightarrow> None)"
| "event_step Ev_Pending d = Some (run_pending d)"
| "event_step (Ev_Unregister c) d =
     (if c < length (dm_conns d) \<and> cn_state (dm_conns d ! c) = Conn_Live
      then Some (server_unregister_connection counting_env d c) else None)"
| "event_step (Ev_Finalize c) d =
     (if c < length (dm_conns d) \<and> cn_state (dm_conns d ! c) = Conn_Released
      then Some (connection_finalize counting_env d c) else None)"

fun run :: "event list \<Rightarrow> nat daemon \<Rightarrow> nat daemon option" where
  "run [] d = Some d"
| "run (e # es) d = (case event_step e d of None \<Rightarrow> None | Some d' \<Rightarrow> run es d')"

lemma client_list_ex: "list_ex (\<lambda>c. cn_state c = Conn_Live \<and> cn_proc c = p) (dm_conns d) \<longleftrightarrow> client d p"
  by (simp add: client_def list_ex_iff)

lemma event_step_step:
  assumes "event_step e d = Some d'"
  shows "daemon_step counting_env d d'"
proof (cases e)
  case (Ev_Create p)
  then obtain a d0 where new: "new_auth_token counting_env d p False = (Some a, d0)" and "client d p"
    "d' = process_add_auth_token d0 p a" "at_blob (dm_tokens d0 ! a) \<notin> at_blob ` set (dm_tokens d)"
    using assms by (auto simp: client_list_ex split: option.splits prod.splits if_splits)
      (auto simp: list_all_iff)
  then show ?thesis
    using daemon_step.create [OF _ new, where nodata = False] by simp
qed (use assms in \<open>auto simp: client_list_ex split: option.splits if_splits intro: daemon_step.intros\<close>)

lemma run_reachable:
  assumes "run es (daemon_empty 0 db_initial) = Some d"
  shows "reachable counting_env d"
proof -
  have "run es d0 = Some d \<Longrightarrow> (daemon_step counting_env)\<^sup>*\<^sup>* d0 d" for d0
    by (induction es arbitrary: d0)
       (auto split: option.splits intro: converse_rtranclp_into_rtranclp event_step_step)
  then show ?thesis
    using assms unfolding reachable_def by blast
qed

text \<open>Two connections of one process, unregistered one after the other before either is released.\<close>

definition leak_events :: "event list" where
  "leak_events = [Ev_Register 1, Ev_Register 1, Ev_Unregister 0, Ev_Unregister 1, Ev_Finalize 0, Ev_Finalize 1]"

text \<open>Process 0 creates a token and exports it, process 1 imports it, process 0 frees it first (it becomes a
  zombie), process 1 frees it, and process 0 creates and frees another token: the zombie leaves its bag.
  Then process 0 ends.\<close>

definition zombie_events :: "string \<Rightarrow> string \<Rightarrow> event list" where
  "zombie_events blob other = [Ev_Register 1, Ev_Register 2, Ev_Create 0, Ev_Export 0 blob, Ev_Import 1 blob, Ev_Free 0 blob,
     Ev_Free 1 blob, Ev_Create 0, Ev_Free 0 other, Ev_Unregister 0, Ev_Finalize 0]"

lemma leak_run:
  "case run leak_events (daemon_empty 0 db_initial) of None \<Rightarrow> False | Some d \<Rightarrow>
     map_of (dm_process_map d) (1, 7) = Some 0 \<and> pr_connections (dm_procs d ! 0) = [] \<and>
     list_all (\<lambda>c. cn_state c = Conn_Gone) (dm_conns d) \<and> dm_transaction d"
  by code_simp

lemma zombie_run:
  "case run (zombie_events ''aaaaaaaa'' ''cccccccc'') (daemon_empty 0 db_initial) of None \<Rightarrow> False | Some d \<Rightarrow>
     server_find_copy_auth_token d ''aaaaaaaa'' = Some 0 \<and> at_creator (dm_tokens d ! 0) = Some 0 \<and>
     dm_freed d = [0] \<and> list_ex (\<lambda>c. cn_state c = Conn_Live \<and> cn_proc c = 1) (dm_conns d)"
  by code_simp

lemma run_of_case:
  assumes "case run es (daemon_empty 0 db_initial) of None \<Rightarrow> False | Some d \<Rightarrow> P d"
  shows "\<exists>d. reachable counting_env d \<and> P d"
  using assms run_reachable by (auto split: option.splits)

theorem daemon_links_witness:
  "\<exists>d. reachable counting_env d \<and> server_find_copy_auth_token d ''aaaaaaaa'' = Some 0 \<and>
     at_blob (dm_tokens d ! 0) = ''aaaaaaaa''"
proof -
  obtain d where d: "reachable counting_env d" "server_find_copy_auth_token d ''aaaaaaaa'' = Some 0"
    using run_of_case [OF zombie_run] by blast
  then show ?thesis
    using daemon_links [OF d(1) counting_env_order_ok] by auto
qed

text \<open>C17. When two connections of a process end at the same time, the count of connections is read twice
  before either is released, so neither takes the process out of the map: a state is reachable in which
  the map has a process with no connection left, and the daemon still holds its transaction open.\<close>

theorem unregister_race_leaks_process:
  "\<exists>d. reachable counting_env d \<and> map_of (dm_process_map d) (1, 7) = Some 0 \<and>
     process_get_connection_count (dm_procs d ! 0) = 0 \<and> list_all (\<lambda>c. cn_state c = Conn_Gone) (dm_conns d) \<and> dm_transaction d"
  using run_of_case [OF leak_run] by (simp add: process_get_connection_count_def list_all_iff)

text \<open>C16. A token that its creator frees while others hold it is a zombie; once the others have freed it, it
  leaves the bag of its creator but not the server's map, and it keeps the weak pointer to its creator.
  A state is reachable in which a live client is handed such a token by its blob after the creator has
  been freed: the creator the entitlement checks of the token follow is a dangling pointer.\<close>

theorem zombie_token_dangling_creator:
  "\<exists>d a p q. reachable counting_env d \<and> client d q \<and> server_find_copy_auth_token d ''aaaaaaaa'' = Some a \<and>
     auth_token_is_creator (dm_tokens d ! a) p \<and> p \<in> set (dm_freed d)"
  using run_of_case [OF zombie_run] by (force simp: client_list_ex auth_token_is_creator_def)

end
