(* ===== verification/Mechanism.thy ===== *)
theory Mechanism
  imports Database Environment
begin

text \<open>
  \<^verbatim>\<open>src/OSX/authd/mechanism.c\<close>: the mechanisms of a rule, written \<^verbatim>\<open>plugin:param,privileged\<close>.  A
  mechanism keeps its fields in a private dictionary; a NULL plugin or parameter that the code
  compares or hashes is a fault of the dictionary.
\<close>

unbundle bit_operations_syntax

section \<open>Mechanisms\<close>

record mechanism =
  me_data :: pdict
  me_valid :: bool
  me_string :: "string option"
  me_type :: "64 word"

abbreviation kMechanismTypeEntitled :: "64 word" where "kMechanismTypeEntitled \<equiv> 1"

definition BuiltinMechanismPrefix :: string where
  "BuiltinMechanismPrefix = ''builtin''"

definition mechTypeMap :: "(string \<times> 64 word) list" where
  "mechTypeMap = [(''entitled'', kMechanismTypeEntitled)]"

definition mechanism_get_id :: "mechanism \<Rightarrow> 64 word" where
  "mechanism_get_id mech = pd_int64 (me_data mech) ''id''"

definition mechanism_get_plugin :: "mechanism \<Rightarrow> string option" where
  "mechanism_get_plugin mech = pd_string (me_data mech) ''plugin''"

definition mechanism_get_param :: "mechanism \<Rightarrow> string option" where
  "mechanism_get_param mech = pd_string (me_data mech) ''param''"

definition mechanism_is_privileged :: "mechanism \<Rightarrow> bool" where
  "mechanism_is_privileged mech \<longleftrightarrow> pd_int64 (me_data mech) ''privileged'' \<noteq> 0"

definition mechanism_get_type :: "mechanism \<Rightarrow> 64 word" where
  "mechanism_get_type mech = me_type mech"

definition mechanism_equal :: "mechanism \<Rightarrow> mechanism \<Rightarrow> bool" where
  "mechanism_equal mech1 mech2 \<longleftrightarrow>
     compare_string (mechanism_get_plugin mech1) (mechanism_get_plugin mech2) \<and>
     compare_string (mechanism_get_param mech1) (mechanism_get_param mech2) \<and>
     mechanism_is_privileged mech1 = mechanism_is_privileged mech2"

text \<open>\<^verbatim>\<open>_mechanism_hash\<close> takes the plugin twice; \<^term>\<open>None\<close> when there is none to take the length of.\<close>

definition mechanism_hash :: "mechanism \<Rightarrow> 64 word option" where
  "mechanism_hash mech =
     (case mechanism_get_plugin mech of
        None \<Rightarrow> None
      | Some str \<Rightarrow>
          let crc = crc64_init;
              crc = crc64_update crc str;
              crc = crc64_update crc str;
              crc = crc64_update crc (bool_bytes (mechanism_is_privileged mech))
          in Some (crc64_final crc))"

definition mechanism_new :: mechanism where
  "mechanism_new = \<lparr> me_data = pd_empty, me_valid = False, me_string = None, me_type = 0 \<rparr>"

definition mechanism_fault :: "mechanism \<Rightarrow> bool" where
  "mechanism_fault mech = pd_fault (me_data mech)"

definition is_builtin :: "string \<Rightarrow> bool" where
  "is_builtin plugin = strncase_eq plugin BuiltinMechanismPrefix 8"

fun find_type :: "(string \<times> 64 word) list \<Rightarrow> string \<Rightarrow> 64 word option" where
  "find_type [] param = None"
| "find_type ((name, t) # items) param = (if strcase_eq name param then Some t else find_type items param)"

definition mechanism_set_type :: "mechanism \<Rightarrow> mechanism" where
  "mechanism_set_type mech =
     (let crash = mech\<lparr> me_data := pd_check False (me_data mech) \<rparr>
      in case mechanism_get_plugin mech of
           None \<Rightarrow> crash
         | Some plugin \<Rightarrow>
             if is_builtin plugin then
               (case mechanism_get_param mech of
                  None \<Rightarrow> crash
                | Some param \<Rightarrow> (case find_type mechTypeMap param of None \<Rightarrow> mech | Some t \<Rightarrow> mech\<lparr> me_type := t \<rparr>))
             else mech)"

definition mechanism_create_with_sql :: "pdict \<Rightarrow> mechanism option" where
  "mechanism_create_with_sql sql =
     (if pd_int64 sql ''id'' = 0 then None
      else Some (mechanism_set_type (mechanism_new\<lparr> me_data := pd_copy pd_empty sql \<rparr>)))"

section \<open>The database\<close>

text \<open>A text parameter that is NULL matches nothing.\<close>

definition sql_text :: "string option \<Rightarrow> sqlval" where
  "sql_text s = (case s of None \<Rightarrow> SQL_Null | Some s \<Rightarrow> SQL_Text s)"

definition sql_eq :: "sqlval \<Rightarrow> sqlval \<Rightarrow> bool" where
  "sql_eq a b \<longleftrightarrow> a = b \<and> a \<noteq> SQL_Null"

definition sql_bool :: "bool \<Rightarrow> sqlval" where
  "sql_bool b = SQL_Int (if b then 1 else 0)"

definition mechanism_row_matches :: "mechanism \<Rightarrow> row \<Rightarrow> bool" where
  "mechanism_row_matches mech r \<longleftrightarrow>
     sql_eq (row_get r ''plugin'') (sql_text (mechanism_get_plugin mech)) \<and>
     sql_eq (row_get r ''param'') (sql_text (mechanism_get_param mech)) \<and>
     sql_eq (row_get r ''privileged'') (sql_bool (mechanism_is_privileged mech))"

definition mechanism_sql_fetch :: "mechanism \<Rightarrow> db \<Rightarrow> bool \<times> mechanism" where
  "mechanism_sql_fetch mech dbconn =
     (case filter (mechanism_row_matches mech) (db_mechanisms dbconn) of
        [] \<Rightarrow> (False, mech)
      | r # _ \<Rightarrow> (True, mech\<lparr> me_data := pd_copy (me_data mech) (parse_row [(''id'', row_get r ''id'')]) \<rparr>))"

text \<open>An insertion fails on a NULL plugin or parameter, on a duplicate of the unique index, and when the
  identifiers are exhausted.\<close>

definition mechanism_sql_commit :: "mechanism \<Rightarrow> db \<Rightarrow> bool \<times> db" where
  "mechanism_sql_commit mech dbconn =
     (let i = db_mechanisms_seq dbconn + 1
      in if mechanism_get_plugin mech = None \<or> mechanism_get_param mech = None \<or>
            (\<exists>r\<in>set (db_mechanisms dbconn). mechanism_row_matches mech r) \<or> \<not> 0 <s i
         then (False, dbconn)
         else (True, dbconn\<lparr> db_mechanisms := db_mechanisms dbconn @
                 [[(''id'', SQL_Int i), (''plugin'', sql_text (mechanism_get_plugin mech)),
                   (''param'', sql_text (mechanism_get_param mech)),
                   (''privileged'', sql_bool (mechanism_is_privileged mech))]],
                 db_mechanisms_seq := i \<rparr>))"

section \<open>Parsing and printing\<close>

text \<open>The tokens \<^verbatim>\<open>strtok\<close> gives one after the other.\<close>

function strtok_all :: "(char \<Rightarrow> bool) \<Rightarrow> string \<Rightarrow> string list" where
  "strtok_all delim s =
     (let t = dropWhile delim s
      in if t = [] then [] else takeWhile (\<lambda>c. \<not> delim c) t # strtok_all delim (dropWhile (\<lambda>c. \<not> delim c) t))"
  by pat_completeness auto

termination
proof (relation "measure (\<lambda>(delim, s). length s)")
  fix delim :: "char \<Rightarrow> bool" and s t assume t: "t = dropWhile delim s" "t \<noteq> []"
  then have "\<not> delim (hd t)"
    using hd_dropWhile [of delim s] by simp
  then have "length (dropWhile (\<lambda>c. \<not> delim c) t) < length t"
    using t(2) length_dropWhile_le [of "\<lambda>c. \<not> delim c" "tl t"] by (cases t) (auto simp: less_Suc_eq_le)
  moreover have "length t \<le> length s"
    using t(1) length_dropWhile_le [of delim s] by simp
  ultimately show "((delim, dropWhile (\<lambda>c. \<not> delim c) t), (delim, s)) \<in> measure (\<lambda>(delim, s). length s)"
    by simp
qed simp

declare strtok_all.simps [simp del]

definition mech_delim :: "char \<Rightarrow> bool" where
  "mech_delim c \<longleftrightarrow> c = CHR '':'' \<or> c = CHR '',''"

definition mechanism_create_with_string :: "string option \<Rightarrow> db option \<Rightarrow> mechanism option" where
  "mechanism_create_with_string str dbconn =
     (case str of
        None \<Rightarrow> None
      | Some s \<Rightarrow>
          if CHR '':'' \<notin> set s then None
          else
            let toks = strtok_all mech_delim s;
                d = pd_empty;
                d = (if 0 < length toks then pd_set_string d ''plugin'' (toks ! 0) else d);
                d = (if 1 < length toks then pd_set_string d ''param'' (toks ! 1) else d);
                d = (if 2 < length toks
                     then pd_set_int64 d ''privileged'' (if strcase_eq ''privileged'' (toks ! 2) then 1 else 0) else d);
                mech = mechanism_new\<lparr> me_data := d \<rparr>;
                mech = (case dbconn of None \<Rightarrow> mech | Some db \<Rightarrow> snd (mechanism_sql_fetch mech db))
            in Some (mechanism_set_type mech))"

text \<open>\<^verbatim>\<open>asprintf\<close> prints a NULL string as \<^verbatim>\<open>(null)\<close>.\<close>

definition printf_string :: "string option \<Rightarrow> string" where
  "printf_string s = (case s of None \<Rightarrow> ''(null)'' | Some s \<Rightarrow> s)"

definition mechanism_get_string :: "mechanism \<Rightarrow> string \<times> mechanism" where
  "mechanism_get_string mech =
     (case me_string mech of
        Some s \<Rightarrow> (s, mech)
      | None \<Rightarrow>
          let s = printf_string (mechanism_get_plugin mech) @ '':'' @ printf_string (mechanism_get_param mech) @
                (if mechanism_is_privileged mech then '',privileged'' else '''')
          in (s, mech\<lparr> me_string := Some s \<rparr>))"

section \<open>Plugins on disk\<close>

definition SystemPlugins :: string where
  "SystemPlugins = ''/System/Library/CoreServices/SecurityAgentPlugins''"

definition LibraryPlugins :: string where
  "LibraryPlugins = ''/Library/Security/SecurityAgentPlugins''"

definition pluginExists :: "('w, 'z) env_scheme \<Rightarrow> 'w \<Rightarrow> string \<Rightarrow> string \<Rightarrow> bool" where
  "pluginExists env w plugin base =
     (let filePath = take 1023 (base @ ''/'' @ plugin @ ''.bundle'')
      in case env_realpath env w filePath of
           None \<Rightarrow> False
         | Some realPath \<Rightarrow> strn_eq realPath base (length base) \<and> env_access env w filePath)"

definition mechanism_exists :: "('w, 'z) env_scheme \<Rightarrow> 'w \<Rightarrow> mechanism \<Rightarrow> bool \<times> mechanism" where
  "mechanism_exists env w mech =
     (if me_valid mech then (True, mech)
      else case mechanism_get_plugin mech of
        None \<Rightarrow> (False, mech)
      | Some plugin \<Rightarrow>
          if is_builtin plugin \<or> pluginExists env w plugin SystemPlugins \<or> pluginExists env w plugin LibraryPlugins
          then (True, mech\<lparr> me_valid := True \<rparr>) else (False, mech))"

section \<open>Properties\<close>

lemma strtok_all_skip: "delim c \<Longrightarrow> strtok_all delim (c # s) = strtok_all delim s"
  by (subst (1 2) strtok_all.simps) simp

lemma strtok_all_Nil [simp]: "strtok_all delim [] = []"
  by (simp add: strtok_all.simps)

lemma strtok_all_token:
  assumes "t \<noteq> []" "\<forall>c\<in>set t. \<not> delim c" "s = [] \<or> delim (hd s)"
  shows "strtok_all delim (t @ s) = t # strtok_all delim s"
proof -
  have "dropWhile delim (t @ s) = t @ s"
    using assms(1,2) by (cases t) auto
  moreover have "takeWhile (\<lambda>c. \<not> delim c) (t @ s) = t" "dropWhile (\<lambda>c. \<not> delim c) (t @ s) = s"
    using assms(2,3) by (cases s; simp add: takeWhile_append2 dropWhile_append2)+
  ultimately show ?thesis
    using assms(1) by (subst strtok_all.simps) (simp add: Let_def)
qed

lemma strtok_all_NUL: "NUL \<notin> set s \<Longrightarrow> t \<in> set (strtok_all delim s) \<Longrightarrow> NUL \<notin> set t"
proof (induction delim s rule: strtok_all.induct)
  case (1 delim s)
  define u where "u = dropWhile delim s"
  have u: "NUL \<notin> set u"
    using 1(2) by (auto simp: u_def dest: set_dropWhileD)
  then have "NUL \<notin> set (dropWhile (\<lambda>c. \<not> delim c) u)" "NUL \<notin> set (takeWhile (\<lambda>c. \<not> delim c) u)"
    by (auto dest: set_dropWhileD set_takeWhileD)
  moreover have "u \<noteq> []" "t \<in> set (takeWhile (\<lambda>c. \<not> delim c) u # strtok_all delim (dropWhile (\<lambda>c. \<not> delim c) u))"
    using 1(3) by (subst (asm) strtok_all.simps, simp add: u_def [symmetric] Let_def split: if_splits)+
  ultimately show ?case
    using 1(1) [OF u_def] by auto
qed

text \<open>The dictionary of a parsed mechanism, by its tokens.\<close>

definition mech_fields :: "string list \<Rightarrow> pdict" where
  "mech_fields toks =
     (let d = pd_empty;
          d = (if 0 < length toks then pd_set_string d ''plugin'' (toks ! 0) else d);
          d = (if 1 < length toks then pd_set_string d ''param'' (toks ! 1) else d)
      in if 2 < length toks
         then pd_set_int64 d ''privileged'' (if strcase_eq ''privileged'' (toks ! 2) then 1 else 0) else d)"

lemma pd_string_empty [simp]: "pd_string pd_empty k = None"
  by (simp add: pd_string_item item_string_def)

lemma pd_int64_empty [simp]: "pd_int64 pd_empty k = 0"
  by (simp add: pd_int64_item item_int64_def)

lemma mech_fields:
  assumes "\<forall>t\<in>set toks. NUL \<notin> set t"
  shows "pd_ok (mech_fields toks) \<and>
    pd_string (mech_fields toks) ''plugin'' = (if toks = [] then None else Some (toks ! 0)) \<and>
    pd_string (mech_fields toks) ''param'' = (if length toks \<le> 1 then None else Some (toks ! 1)) \<and>
    (pd_int64 (mech_fields toks) ''privileged'' \<noteq> 0 \<longleftrightarrow> 2 < length toks \<and> strcase_eq ''privileged'' (toks ! 2)) \<and>
    pd_int64 (mech_fields toks) ''id'' = 0"
proof -
  have nul: "NUL \<notin> set (toks ! i)" if "i < length toks" for i
    using assms that by simp
  define d1 where "d1 = (if 0 < length toks then pd_set_string pd_empty ''plugin'' (toks ! 0) else pd_empty)"
  define d2 where "d2 = (if 1 < length toks then pd_set_string d1 ''param'' (toks ! 1) else d1)"
  have d1: "pd_ok d1" "pd_string d1 ''plugin'' = (if toks = [] then None else Some (toks ! 0))"
    "pd_string d1 ''param'' = None" "pd_int64 d1 ''privileged'' = 0" "pd_int64 d1 ''id'' = 0"
    using nul by (auto simp: d1_def pd_string_set_string pd_int64_set_string)
  have d2: "pd_ok d2" "pd_string d2 ''plugin'' = (if toks = [] then None else Some (toks ! 0))"
    "pd_string d2 ''param'' = (if length toks \<le> 1 then None else Some (toks ! 1))"
    "pd_int64 d2 ''privileged'' = 0" "pd_int64 d2 ''id'' = 0"
    using nul d1 by (auto simp: d2_def pd_string_set_string pd_int64_set_string)
  have "mech_fields toks = (if 2 < length toks
      then pd_set_int64 d2 ''privileged'' (if strcase_eq ''privileged'' (toks ! 2) then 1 else 0) else d2)"
    by (simp add: mech_fields_def d1_def d2_def Let_def)
  then show ?thesis
    using d2 by (simp add: pd_string_set_int64 pd_int64_set_int64)
qed

lemma mechanism_create_with_string_None:
  "NUL \<notin> set s \<Longrightarrow> CHR '':'' \<in> set s \<Longrightarrow> mechanism_create_with_string (Some s) None =
     Some (mechanism_set_type (mechanism_new\<lparr> me_data := mech_fields (strtok_all mech_delim s) \<rparr>))"
  by (simp add: mechanism_create_with_string_def mech_fields_def Let_def)

lemma pd_check_get [simp]: "pd_string (pd_check ok d) k = pd_string d k" "pd_int64 (pd_check ok d) k = pd_int64 d k"
  by (auto simp: pd_check_def pd_string_def pd_int64_def auth_items_get_string_def auth_items_get_int64_def
      auth_items_get_scalar_def auth_item_get_string_def Let_def split: option.split)

lemma mechanism_set_type_get [simp]:
  "mechanism_get_plugin (mechanism_set_type m) = mechanism_get_plugin m"
  "mechanism_get_param (mechanism_set_type m) = mechanism_get_param m"
  "mechanism_is_privileged (mechanism_set_type m) = mechanism_is_privileged m"
  "mechanism_get_id (mechanism_set_type m) = mechanism_get_id m"
  "me_string (mechanism_set_type m) = me_string m"
  by (simp_all add: mechanism_set_type_def mechanism_get_plugin_def mechanism_get_param_def
      mechanism_is_privileged_def mechanism_get_id_def Let_def split: option.split)

lemma mechanism_set_type_fault:
  "mechanism_fault (mechanism_set_type m) \<longleftrightarrow> mechanism_fault m \<or> mechanism_get_plugin m = None \<or>
     (is_builtin (the (mechanism_get_plugin m)) \<and> mechanism_get_param m = None)"
  by (auto simp: mechanism_set_type_def mechanism_fault_def pd_fault_def pd_check_def Let_def split: option.split)

lemma mechanism_of_tokens:
  assumes "NUL \<notin> set s" "CHR '':'' \<in> set s" "mechanism_create_with_string (Some s) None = Some mech"
  defines "toks \<equiv> strtok_all mech_delim s"
  shows "mechanism_get_plugin mech = (if toks = [] then None else Some (toks ! 0)) \<and>
    mechanism_get_param mech = (if length toks \<le> 1 then None else Some (toks ! 1)) \<and>
    (mechanism_is_privileged mech \<longleftrightarrow> 2 < length toks \<and> strcase_eq ''privileged'' (toks ! 2)) \<and>
    me_string mech = None \<and> me_valid mech = False \<and> mechanism_get_id mech = 0 \<and>
    (mechanism_fault mech \<longleftrightarrow> toks = [] \<or> (is_builtin (toks ! 0) \<and> length toks = 1))"
proof -
  define m where "m = mechanism_new\<lparr> me_data := mech_fields toks \<rparr>"
  have mech: "mech = mechanism_set_type m"
    using assms(3) mechanism_create_with_string_None [OF assms(1,2)] by (simp add: m_def toks_def)
  have f: "pd_ok (mech_fields toks)"
    "pd_string (mech_fields toks) ''plugin'' = (if toks = [] then None else Some (toks ! 0))"
    "pd_string (mech_fields toks) ''param'' = (if length toks \<le> 1 then None else Some (toks ! 1))"
    "pd_int64 (mech_fields toks) ''privileged'' \<noteq> 0 \<longleftrightarrow> 2 < length toks \<and> strcase_eq ''privileged'' (toks ! 2)"
    "pd_int64 (mech_fields toks) ''id'' = 0"
    using mech_fields [of toks] strtok_all_NUL [OF assms(1), of _ mech_delim] by (simp_all add: toks_def)
  have m: "mechanism_get_plugin m = (if toks = [] then None else Some (toks ! 0))"
    "mechanism_get_param m = (if length toks \<le> 1 then None else Some (toks ! 1))"
    "mechanism_is_privileged m \<longleftrightarrow> 2 < length toks \<and> strcase_eq ''privileged'' (toks ! 2)"
    "mechanism_get_id m = 0" "\<not> mechanism_fault m" "me_string m = None" "me_valid m = False"
    using f by (simp_all add: m_def mechanism_get_plugin_def mechanism_get_param_def mechanism_is_privileged_def
        mechanism_get_id_def mechanism_fault_def pd_fault_def pd_ok_def mechanism_new_def)
  have "me_valid mech = False"
    using m(7) by (simp add: mech mechanism_set_type_def Let_def split: option.split)
  moreover have "length toks \<le> 1 \<longleftrightarrow> toks = [] \<or> length toks = 1"
    by (cases toks) auto
  ultimately show ?thesis
    unfolding mech mechanism_set_type_fault mechanism_set_type_get m using m(5) by auto
qed

lemma mechanism_print_parse:
  assumes "plugin \<noteq> []" "param \<noteq> []" "\<forall>c\<in>set (plugin @ param). \<not> mech_delim c \<and> c \<noteq> NUL"
  shows "\<exists>mech. mechanism_create_with_string
      (Some (plugin @ '':'' @ param @ (if priv then '',privileged'' else ''''))) None = Some mech \<and>
    mechanism_get_plugin mech = Some plugin \<and> mechanism_get_param mech = Some param \<and>
    mechanism_is_privileged mech = priv \<and> \<not> mechanism_fault mech \<and>
    fst (mechanism_get_string mech) = plugin @ '':'' @ param @ (if priv then '',privileged'' else '''')"
proof -
  define s where "s = plugin @ '':'' @ param @ (if priv then '',privileged'' else '''')"
  have s: "NUL \<notin> set s" "CHR '':'' \<in> set s"
    using assms(3) by (auto simp: s_def)
  have tail: "strtok_all mech_delim (param @ (if priv then '',privileged'' else '''')) = param # (if priv then [''privileged''] else [])"
  proof -
    have "strtok_all mech_delim '',privileged'' = strtok_all mech_delim (''privileged'' @ [])"
      by (subst strtok_all_skip) (simp_all add: mech_delim_def)
    also have "\<dots> = [''privileged'']"
      by (subst strtok_all_token) (simp_all add: mech_delim_def)
    finally show ?thesis
      using assms(2,3) by (subst strtok_all_token) (auto simp: mech_delim_def)
  qed
  have toks: "strtok_all mech_delim s = plugin # param # (if priv then [''privileged''] else [])"
    unfolding s_def using assms(1,3) tail
    by (subst strtok_all_token) (auto simp: mech_delim_def strtok_all_skip)
  obtain mech where mech: "mechanism_create_with_string (Some s) None = Some mech"
    using mechanism_create_with_string_None [OF s] by simp
  have "mechanism_get_plugin mech = Some plugin \<and> mechanism_get_param mech = Some param \<and>
      mechanism_is_privileged mech = priv \<and> me_string mech = None \<and> \<not> mechanism_fault mech"
    using mechanism_of_tokens [OF s mech] by (simp add: toks)
  then show ?thesis
    using mech by (auto simp: s_def mechanism_get_string_def printf_string_def Let_def)
qed

text \<open>C22. A mechanism survives its text form: for a plugin and a parameter of the right shape, the text that
  \<^verbatim>\<open>mechanism_get_string\<close> prints for it, privileged or not, is parsed into a mechanism with these fields,
  and printing that mechanism gives the text back.\<close>

theorem mechanism_string_roundtrip:
  assumes "plugin \<noteq> []" "param \<noteq> []" "\<forall>c\<in>set (plugin @ param). \<not> mech_delim c \<and> c \<noteq> NUL"
  shows "\<exists>mech. mechanism_create_with_string
      (Some (plugin @ '':'' @ param @ (if priv then '',privileged'' else ''''))) None = Some mech \<and>
    mechanism_get_plugin mech = Some plugin \<and> mechanism_get_param mech = Some param \<and>
    mechanism_is_privileged mech = priv \<and> \<not> mechanism_fault mech \<and>
    fst (mechanism_get_string mech) = plugin @ '':'' @ param @ (if priv then '',privileged'' else '''')"
  using assms by (rule mechanism_print_parse)

theorem mechanism_string_roundtrip_witness:
  "\<exists>mech. mechanism_create_with_string (Some ''builtin:authenticate,privileged'') None = Some mech \<and>
     mechanism_is_privileged mech \<and> mechanism_get_param mech = Some ''authenticate''"
proof -
  have "\<forall>c\<in>set (''builtin'' @ ''authenticate''). \<not> mech_delim c \<and> c \<noteq> NUL"
    by (simp add: mech_delim_def)
  then show ?thesis
    using mechanism_string_roundtrip [of "''builtin''" "''authenticate''" True] by auto
qed

text \<open>Parsing accepts every string with a colon; it dereferences NULL exactly when the string has no token
  at all, or names the builtin plugin (in any case) without a parameter.\<close>

theorem mechanism_create_faults:
  assumes "NUL \<notin> set s"
  shows "(mechanism_create_with_string (Some s) None = None \<longleftrightarrow> CHR '':'' \<notin> set s) \<and>
    (\<forall>mech. mechanism_create_with_string (Some s) None = Some mech \<longrightarrow>
      (mechanism_fault mech \<longleftrightarrow> (let toks = strtok_all mech_delim s in
         toks = [] \<or> (is_builtin (toks ! 0) \<and> length toks = 1))))"
  using mechanism_of_tokens [OF assms] mechanism_create_with_string_None [OF assms]
  by (cases "CHR '':'' \<in> set s") (auto simp: Let_def mechanism_create_with_string_def)

theorem mechanism_create_faults_witness:
  "\<exists>mech. mechanism_create_with_string (Some ''builtin:'') None = Some mech \<and> mechanism_fault mech"
proof -
  have nul: "NUL \<notin> set ''builtin:''" by simp
  have "strtok_all mech_delim (''builtin'' @ '':'') = [''builtin'']"
    by (subst strtok_all_token) (simp_all add: mech_delim_def strtok_all_skip)
  moreover have "is_builtin ''builtin''"
    by (simp add: is_builtin_def strncase_eq_def BuiltinMechanismPrefix_def)
  ultimately show ?thesis
    using mechanism_create_faults [OF nul] by (cases "mechanism_create_with_string (Some ''builtin:'') None") auto
qed

text \<open>C23. Equality of mechanisms ignores case and the hash does not, so equal mechanisms can have different
  hashes, against the contract of the hash callback; and the hash never looks at the parameter.\<close>

theorem mechanism_hash_violates_equal:
  "(\<exists>m1 m2. mechanism_equal m1 m2 \<and> mechanism_hash m1 \<noteq> mechanism_hash m2) \<and>
   (mechanism_get_plugin m1 = mechanism_get_plugin m2 \<longrightarrow> mechanism_is_privileged m1 = mechanism_is_privileged m2 \<longrightarrow>
     mechanism_hash m1 = mechanism_hash m2)"
proof
  have lower: "to_lower CHR ''A'' = CHR ''a''" "to_lower CHR ''a'' = CHR ''a''"
    by code_simp+
  define m where "m = (\<lambda>p. mechanism_new\<lparr> me_data := mech_fields [p, ''x''] \<rparr>)"
  have m: "mechanism_get_plugin (m p) = Some p" "mechanism_get_param (m p) = Some ''x''" "\<not> mechanism_is_privileged (m p)"
    if "NUL \<notin> set p" for p
    using mech_fields [of "[p, ''x'']"] that
    by (simp_all add: m_def mechanism_get_plugin_def mechanism_get_param_def mechanism_is_privileged_def)
  have "mechanism_hash (m p) = Some (crc64 (p @ p @ bool_bytes False))" if "NUL \<notin> set p" for p
    using m [OF that] by (simp add: mechanism_hash_def crc64_def crc64_update_append Let_def)
  then have "mechanism_hash (m ''a'') \<noteq> mechanism_hash (m ''A'')"
    by (simp add: crc64_inject bool_bytes_def)
  moreover have "mechanism_equal (m ''a'') (m ''A'')"
    using m [of "''a''"] m [of "''A''"] lower by (simp add: mechanism_equal_def strcase_eq_def)
  ultimately show "\<exists>m1 m2. mechanism_equal m1 m2 \<and> mechanism_hash m1 \<noteq> mechanism_hash m2"
    by blast
  show "mechanism_get_plugin m1 = mechanism_get_plugin m2 \<longrightarrow> mechanism_is_privileged m1 = mechanism_is_privileged m2 \<longrightarrow>
     mechanism_hash m1 = mechanism_hash m2"
    by (intro impI) (simp only: mechanism_hash_def)
qed

theorem mechanism_hash_violates_equal_witness:
  "(\<exists>m1 m2. mechanism_equal m1 m2 \<and> mechanism_hash m1 \<noteq> mechanism_hash m2) \<and>
   (let m = (\<lambda>a. mechanism_new\<lparr> me_data := mech_fields [''loginwindow'', a] \<rparr>)
    in mechanism_get_param (m ''login'') \<noteq> mechanism_get_param (m ''done'') \<and> mechanism_hash (m ''login'') = mechanism_hash (m ''done''))"
proof -
  define m where "m = (\<lambda>a. mechanism_new\<lparr> me_data := mech_fields [''loginwindow'', a] \<rparr>)"
  have m: "mechanism_get_plugin (m a) = Some ''loginwindow''" "mechanism_get_param (m a) = Some a" "\<not> mechanism_is_privileged (m a)"
    if "NUL \<notin> set a" for a
    using mech_fields [of "[''loginwindow'', a]"] that
    by (simp_all add: m_def mechanism_get_plugin_def mechanism_get_param_def mechanism_is_privileged_def)
  show ?thesis
    using mechanism_hash_violates_equal [of "m ''login''" "m ''done''"] m [of "''login''"] m [of "''done''"]
    unfolding m_def [symmetric] Let_def by simp
qed

section \<open>The table of mechanisms\<close>

text \<open>Identifiers of the table are positive and at most the last one given; one row per plugin, parameter
  and privilege.\<close>

definition mechs_ok :: "db \<Rightarrow> bool" where
  "mechs_ok d \<longleftrightarrow> (\<forall>r\<in>set (db_mechanisms d). row_get r ''id'' = SQL_Int (row_id r) \<and> 0 <s row_id r \<and> row_id r \<le>s db_mechanisms_seq d) \<and>
     distinct (map row_id (db_mechanisms d)) \<and>
     distinct (map (\<lambda>r. (row_get r ''plugin'', row_get r ''param'', row_get r ''privileged'')) (db_mechanisms d)) \<and>
     (\<forall>r\<in>set (db_mechanisms d). row_get r ''plugin'' \<noteq> SQL_Null \<and> row_get r ''param'' \<noteq> SQL_Null \<and> row_get r ''privileged'' \<noteq> SQL_Null)
     \<and> 0 \<le>s db_mechanisms_seq d"

lemma parse_id_row: "pd_ok (parse_row [(''id'', SQL_Int i)]) \<and> pd_int64 (parse_row [(''id'', SQL_Int i)]) ''id'' = i \<and>
    (\<forall>k. k \<noteq> ''id'' \<longrightarrow> pd_item (parse_row [(''id'', SQL_Int i)]) k = None)"
  using pd_set_int64_item [of pd_empty "''id''" i]
  by (auto simp: parse_row_def pd_int64_set_int64)

lemma copy_id:
  assumes "pd_ok d"
  shows "pd_ok (pd_copy d (parse_row [(''id'', SQL_Int i)])) \<and>
    pd_int64 (pd_copy d (parse_row [(''id'', SQL_Int i)])) ''id'' = i \<and>
    (\<forall>k. k \<noteq> ''id'' \<longrightarrow> pd_item (pd_copy d (parse_row [(''id'', SQL_Int i)])) k = pd_item d k)"
proof -
  note row = parse_id_row [of i]
  have "pd_ok (pd_copy d (parse_row [(''id'', SQL_Int i)]))"
    and item: "pd_item (pd_copy d (parse_row [(''id'', SQL_Int i)])) = pd_item d ++ pd_item (parse_row [(''id'', SQL_Int i)])"
    using pd_copy_item [OF assms, of "parse_row [(''id'', SQL_Int i)]"] row by auto
  moreover obtain y where "pd_item (parse_row [(''id'', SQL_Int i)]) ''id'' = Some y" "item_int64 (Some y) = i"
    using pd_set_int64_item [of pd_empty "''id''" i] by (auto simp: parse_row_def)
  ultimately show ?thesis
    using row by (simp add: pd_int64_item map_add_def)
qed

lemma seq_less:
  assumes "0 \<le>s a" "0 <s a + 1" "x \<le>s (a :: 64 word)"
  shows "x <s a + 1"
proof -
  have s: "sint (a + 1) = signed_take_bit 63 (sint a + 1)"
    by (simp add: sint_word_ariths)
  have "sint a < 2 ^ 63"
    using sint_lt [of a] by simp
  then show ?thesis
  proof (cases "sint a = 2 ^ 63 - 1")
    case True
    then have "sint (a + 1) = signed_take_bit 63 (2 ^ 63)"
      by (simp add: s)
    then have "sint (a + 1) < 0"
      by (simp add: signed_take_bit_eq_take_bit_shift)
    then show ?thesis using assms(2) by (simp add: word_sless_alt)
  next
    case False
    then have "sint (a + 1) = sint a + 1"
      using assms(1) \<open>sint a < 2 ^ 63\<close> unfolding s by (intro signed_take_bit_int_eq_self) (simp_all add: word_sle_eq)
    then show ?thesis using assms(3) by (simp add: word_sle_eq word_sless_alt)
  qed
qed

lemma seq_positive:
  assumes "0 \<le>s a" "a \<noteq> 2 ^ 63 - 1"
  shows "0 <s a + (1 :: 64 word)"
proof -
  have "sint a < 2 ^ 63"
    using sint_lt [of a] by simp
  moreover have "sint a \<noteq> 2 ^ 63 - 1"
  proof
    assume "sint a = 2 ^ 63 - 1"
    then have "a = 2 ^ 63 - 1"
      by (intro signed_word_eqI) (simp add: signed_take_bit_eq_take_bit_shift)
    then show False using assms(2) by simp
  qed
  ultimately have "sint (a + 1) = sint a + 1"
    using assms(1) by (simp add: sint_word_ariths word_sle_eq signed_take_bit_int_eq_self)
  then show ?thesis
    using assms(1) by (simp add: word_sle_eq word_sless_alt)
qed

text \<open>What a mechanism is to the database: its three fields.\<close>

lemma mechanism_fields_cong:
  assumes "pd_ok d" "pd_ok d'" "\<forall>k. k \<noteq> ''id'' \<longrightarrow> pd_item d' k = pd_item d k"
  shows "pd_string d' ''plugin'' = pd_string d ''plugin''" "pd_string d' ''param'' = pd_string d ''param''"
    "pd_int64 d' ''privileged'' = pd_int64 d ''privileged''"
  using assms by (simp_all add: pd_string_item pd_int64_item)

lemma mechanism_sql_fetch_cases:
  assumes "mechs_ok dbconn" "pd_ok (me_data mech)"
  shows "(case filter (mechanism_row_matches mech) (db_mechanisms dbconn) of
      [] \<Rightarrow> mechanism_sql_fetch mech dbconn = (False, mech)
    | r # _ \<Rightarrow> (\<exists>m. mechanism_sql_fetch mech dbconn = (True, m) \<and> mechanism_get_id m = row_id r \<and> 0 <s mechanism_get_id m \<and>
        pd_ok (me_data m) \<and> mechanism_get_plugin m = mechanism_get_plugin mech \<and>
        mechanism_get_param m = mechanism_get_param mech \<and> mechanism_is_privileged m = mechanism_is_privileged mech))"
proof (cases "filter (mechanism_row_matches mech) (db_mechanisms dbconn)")
  case Nil
  then show ?thesis by (simp add: mechanism_sql_fetch_def)
next
  case (Cons r rs)
  then have "r \<in> set (db_mechanisms dbconn)"
    by (metis filter_is_subset list.set_intros(1) subsetD)
  then have r: "row_get r ''id'' = SQL_Int (row_id r)" "0 <s row_id r"
    using assms(1) by (auto simp: mechs_ok_def)
  define d where "d = pd_copy (me_data mech) (parse_row [(''id'', SQL_Int (row_id r))])"
  have d: "pd_ok d" "pd_int64 d ''id'' = row_id r" "\<forall>k. k \<noteq> ''id'' \<longrightarrow> pd_item d k = pd_item (me_data mech) k"
    using copy_id [OF assms(2), of "row_id r"] by (simp_all add: d_def)
  have "mechanism_sql_fetch mech dbconn = (True, mech\<lparr> me_data := d \<rparr>)"
    using Cons r by (simp add: mechanism_sql_fetch_def d_def)
  then show ?thesis
    using Cons d r mechanism_fields_cong [OF assms(2) d(1,3)]
    by (simp add: mechanism_get_id_def mechanism_get_plugin_def mechanism_get_param_def mechanism_is_privileged_def)
qed

text \<open>The table of mechanisms stays well-formed under insertion, and a mechanism with a plugin and a
  parameter that is not in the table can be inserted as long as identifiers last; fetching it then gives
  it the new, positive identifier and leaves its fields alone.  An insertion that would repeat a row, or
  that lacks a field, is refused and changes nothing.\<close>

theorem mechanism_sql_commit_fetch:
  assumes "mechs_ok dbconn" "pd_ok (me_data mech)"
  shows "mechs_ok (snd (mechanism_sql_commit mech dbconn)) \<and>
    (\<not> fst (mechanism_sql_commit mech dbconn) \<longrightarrow> snd (mechanism_sql_commit mech dbconn) = dbconn) \<and>
    (mechanism_get_plugin mech \<noteq> None \<longrightarrow> mechanism_get_param mech \<noteq> None \<longrightarrow> db_mechanisms_seq dbconn \<noteq> 2 ^ 63 - 1 \<longrightarrow>
      \<not> fst (mechanism_sql_fetch mech dbconn) \<longrightarrow>
      fst (mechanism_sql_commit mech dbconn) \<and>
      (\<exists>m. mechanism_sql_fetch mech (snd (mechanism_sql_commit mech dbconn)) = (True, m) \<and>
        mechanism_get_id m = db_mechanisms_seq dbconn + 1 \<and> 0 <s mechanism_get_id m \<and>
        mechanism_get_plugin m = mechanism_get_plugin mech \<and> mechanism_get_param m = mechanism_get_param mech \<and>
        mechanism_is_privileged m = mechanism_is_privileged mech))"
proof -
  define i where "i = db_mechanisms_seq dbconn + 1"
  define r where "r = [(''id'', SQL_Int i), (''plugin'', sql_text (mechanism_get_plugin mech)),
     (''param'', sql_text (mechanism_get_param mech)), (''privileged'', sql_bool (mechanism_is_privileged mech))]"
  define db' where "db' = dbconn\<lparr> db_mechanisms := db_mechanisms dbconn @ [r], db_mechanisms_seq := i \<rparr>"
  have row: "row_get r ''id'' = SQL_Int i" "row_id r = i" "row_get r ''plugin'' = sql_text (mechanism_get_plugin mech)"
    "row_get r ''param'' = sql_text (mechanism_get_param mech)" "row_get r ''privileged'' = sql_bool (mechanism_is_privileged mech)"
    by (simp_all add: r_def row_id_def row_get_def)
  have sql: "sql_text s = SQL_Null \<longleftrightarrow> s = None" "sql_bool b \<noteq> SQL_Null" for s b
    by (simp_all add: sql_text_def sql_bool_def split: option.split)
  have ok': "mechs_ok db'" if i: "0 <s i" and some: "mechanism_get_plugin mech \<noteq> None" "mechanism_get_param mech \<noteq> None"
    and new: "\<not> (\<exists>r\<in>set (db_mechanisms dbconn). mechanism_row_matches mech r)"
  proof -
    have less: "x <s i" if "x \<le>s db_mechanisms_seq dbconn" for x
      using seq_less [of "db_mechanisms_seq dbconn" x] assms(1) i that by (simp add: i_def mechs_ok_def)
    then have old: "row_id q <s i" if "q \<in> set (db_mechanisms dbconn)" for q
      using assms(1) that by (simp add: mechs_ok_def)
    have "row_id q \<noteq> i \<and> row_id q \<le>s i" if "q \<in> set (db_mechanisms dbconn)" for q
      using old [OF that] by (auto simp: word_sless_alt word_sle_eq)
    moreover have "(row_get q ''plugin'', row_get q ''param'', row_get q ''privileged'') \<noteq>
        (sql_text (mechanism_get_plugin mech), sql_text (mechanism_get_param mech), sql_bool (mechanism_is_privileged mech))"
      if "q \<in> set (db_mechanisms dbconn)" for q
      using new that some by (auto simp: mechanism_row_matches_def sql_eq_def sql)
    ultimately show ?thesis
      using assms(1) i some by (fastforce simp: mechs_ok_def db'_def row sql word_sless_alt word_sle_eq image_iff)
  qed
  have commit: "mechanism_sql_commit mech dbconn =
      (if mechanism_get_plugin mech = None \<or> mechanism_get_param mech = None \<or>
         (\<exists>r\<in>set (db_mechanisms dbconn). mechanism_row_matches mech r) \<or> \<not> 0 <s i then (False, dbconn) else (True, db'))"
    by (simp add: mechanism_sql_commit_def i_def r_def db'_def Let_def)
  have inv: "mechs_ok (snd (mechanism_sql_commit mech dbconn))"
    using assms(1) ok' by (simp add: commit)
  moreover have "fst (mechanism_sql_commit mech dbconn) \<and>
      (\<exists>m. mechanism_sql_fetch mech (snd (mechanism_sql_commit mech dbconn)) = (True, m) \<and>
        mechanism_get_id m = i \<and> 0 <s mechanism_get_id m \<and>
        mechanism_get_plugin m = mechanism_get_plugin mech \<and> mechanism_get_param m = mechanism_get_param mech \<and>
        mechanism_is_privileged m = mechanism_is_privileged mech)"
    if some: "mechanism_get_plugin mech \<noteq> None" "mechanism_get_param mech \<noteq> None" and seq: "db_mechanisms_seq dbconn \<noteq> 2 ^ 63 - 1"
      and fetch: "\<not> fst (mechanism_sql_fetch mech dbconn)"
  proof -
    have new: "\<not> (\<exists>r\<in>set (db_mechanisms dbconn). mechanism_row_matches mech r)"
      using mechanism_sql_fetch_cases [OF assms] fetch by (auto simp: filter_empty_conv split: list.splits)
    have i: "0 <s i"
      using seq assms(1) seq_positive [of "db_mechanisms_seq dbconn"] by (simp add: i_def mechs_ok_def)
    have "mechanism_row_matches mech r"
      using some by (simp add: mechanism_row_matches_def sql_eq_def row sql)
    then have "filter (mechanism_row_matches mech) (db_mechanisms db') = [r]"
      using new by (simp add: db'_def filter_empty_conv)
    then show ?thesis
      using mechanism_sql_fetch_cases [OF ok' [OF i some new] assms(2)] new some i by (auto simp: commit row)
  qed
  ultimately show ?thesis
    unfolding i_def by (simp add: commit)
qed

definition sample_mechanism :: mechanism where
  "sample_mechanism = mechanism_new\<lparr> me_data := mech_fields [''builtin'', ''authenticate''] \<rparr>"

theorem mechanism_sql_commit_fetch_witness:
  "\<exists>m. mechanism_sql_fetch sample_mechanism (snd (mechanism_sql_commit sample_mechanism db_initial)) = (True, m) \<and>
     mechanism_get_id m = 1"
proof -
  have "mechs_ok db_initial" "db_mechanisms_seq db_initial = 0" "\<not> fst (mechanism_sql_fetch sample_mechanism db_initial)"
    by (simp_all add: mechs_ok_def db_initial_def mechanism_sql_fetch_def word_sle_eq)
  moreover have "pd_ok (me_data sample_mechanism)" "mechanism_get_plugin sample_mechanism \<noteq> None"
    "mechanism_get_param sample_mechanism \<noteq> None"
    using mech_fields [of "[''builtin'', ''authenticate'']"]
    by (simp_all add: sample_mechanism_def mechanism_get_plugin_def mechanism_get_param_def)
  ultimately show ?thesis
    using mechanism_sql_commit_fetch [of db_initial sample_mechanism] by auto
qed

end
