(* ===== verification/Rule.thy ===== *)
theory Rule
  imports Mechanism Process
begin

text \<open>
  \<^verbatim>\<open>src/OSX/authd/rule.c\<close>: the rules of the authorization database.  A rule keeps its fields in a private
  dictionary, its mechanisms, the rules it delegates to, and the localized texts of a property list
  that has not been committed.  Rules are trees: fetching a rule fetches its delegates, and theirs, by
  recursion.  The stack holds \<^term>\<open>depth\<close> calls of that recursion; one more is a fault, which is how a
  database with a cycle of delegates ends.

  A fault of any part of a rule (NULL dereferenced, a value of the wrong Core Foundation type used as a
  dictionary or an array) is the fault flag of the dictionary.
\<close>

unbundle bit_operations_syntax

section \<open>Rules\<close>

datatype rule = Rule (ru_data: pdict) (ru_mechanisms: "mechanism list") (ru_delegations: "rule list")
  (ru_loc_prompts: "(string \<times> cf) list option") (ru_loc_buttons: "(string \<times> cf) list option")
  (ru_requirement_data: "string option")

abbreviation RT_RIGHT :: "32 word" where "RT_RIGHT \<equiv> 1"
abbreviation RT_RULE :: "32 word" where "RT_RULE \<equiv> 2"

abbreviation RC_USER :: "32 word" where "RC_USER \<equiv> 1"
abbreviation RC_RULE :: "32 word" where "RC_RULE \<equiv> 2"
abbreviation RC_MECHANISM :: "32 word" where "RC_MECHANISM \<equiv> 3"
abbreviation RC_ALLOW :: "32 word" where "RC_ALLOW \<equiv> 4"
abbreviation RC_DENY :: "32 word" where "RC_DENY \<equiv> 5"

abbreviation RuleFlagShared :: "32 word" where "RuleFlagShared \<equiv> 1"
abbreviation RuleFlagAllowRoot :: "32 word" where "RuleFlagAllowRoot \<equiv> 2"
abbreviation RuleFlagSessionOwner :: "32 word" where "RuleFlagSessionOwner \<equiv> 4"
abbreviation RuleFlagAuthenticateUser :: "32 word" where "RuleFlagAuthenticateUser \<equiv> 8"
abbreviation RuleFlagExtractPassword :: "32 word" where "RuleFlagExtractPassword \<equiv> 16"
abbreviation RuleFlagEntitled :: "32 word" where "RuleFlagEntitled \<equiv> 32"
abbreviation RuleFlagEntitledAndGroup :: "32 word" where "RuleFlagEntitledAndGroup \<equiv> 64"
abbreviation RuleFlagRequireAppleSigned :: "32 word" where "RuleFlagRequireAppleSigned \<equiv> 128"
abbreviation RuleFlagVPNEntitledAndGroup :: "32 word" where "RuleFlagVPNEntitledAndGroup \<equiv> 256"
abbreviation RuleFlagPasswordOnly :: "32 word" where "RuleFlagPasswordOnly \<equiv> 512"
abbreviation RuleFlagSecureTokenOnly :: "32 word" where "RuleFlagSecureTokenOnly \<equiv> 1024"

definition kMaximumAuthorizationTries :: "64 word" where
  "kMaximumAuthorizationTries = 10000"

definition rule_upd_data :: "(pdict \<Rightarrow> pdict) \<Rightarrow> rule \<Rightarrow> rule" where
  "rule_upd_data f r = Rule (f (ru_data r)) (ru_mechanisms r) (ru_delegations r) (ru_loc_prompts r) (ru_loc_buttons r)
     (ru_requirement_data r)"

definition rule_set_mechanisms :: "mechanism list \<Rightarrow> rule \<Rightarrow> rule" where
  "rule_set_mechanisms ms r = Rule (ru_data r) ms (ru_delegations r) (ru_loc_prompts r) (ru_loc_buttons r) (ru_requirement_data r)"

definition rule_set_delegations :: "rule list \<Rightarrow> rule \<Rightarrow> rule" where
  "rule_set_delegations ds r = Rule (ru_data r) (ru_mechanisms r) ds (ru_loc_prompts r) (ru_loc_buttons r) (ru_requirement_data r)"

definition rule_crash :: "rule \<Rightarrow> rule" where
  "rule_crash r = rule_upd_data (pd_check False) r"

primrec rule_fault :: "rule \<Rightarrow> bool" where
  "rule_fault (Rule d ms ds ps bs rd) \<longleftrightarrow> pd_fault d \<or> list_ex mechanism_fault ms \<or> list_ex id (map rule_fault ds)"

section \<open>Fields\<close>

definition rule_get_id :: "rule \<Rightarrow> 64 word" where
  "rule_get_id r = pd_int64 (ru_data r) ''id''"

definition rule_get_name :: "rule \<Rightarrow> string option" where
  "rule_get_name r = pd_string (ru_data r) ''name''"

definition rule_get_type :: "rule \<Rightarrow> 32 word" where
  "rule_get_type r = ucast (pd_int64 (ru_data r) ''type'')"

definition rule_get_class :: "rule \<Rightarrow> 32 word" where
  "rule_get_class r = ucast (pd_int64 (ru_data r) ''class'')"

definition rule_get_group :: "rule \<Rightarrow> string option" where
  "rule_get_group r = pd_string (ru_data r) ''group''"

definition rule_get_kofn :: "rule \<Rightarrow> 64 word" where
  "rule_get_kofn r = pd_int64 (ru_data r) ''kofn''"

definition rule_get_timeout :: "rule \<Rightarrow> 64 word" where
  "rule_get_timeout r = pd_int64 (ru_data r) ''timeout''"

definition rule_check_flags :: "rule \<Rightarrow> 32 word \<Rightarrow> bool" where
  "rule_check_flags r flags \<longleftrightarrow> pd_int64 (ru_data r) ''flags'' AND ucast flags \<noteq> 0"

definition rule_get_shared :: "('w, 'z) env_scheme \<Rightarrow> 'w \<Rightarrow> rule \<Rightarrow> bool" where
  "rule_get_shared env w r = (if isInFVUnlockOrRecovery env w then False else rule_check_flags r RuleFlagShared)"

definition rule_get_allow_root :: "rule \<Rightarrow> bool" where
  "rule_get_allow_root r = rule_check_flags r RuleFlagAllowRoot"

definition rule_get_session_owner :: "rule \<Rightarrow> bool" where
  "rule_get_session_owner r = rule_check_flags r RuleFlagSessionOwner"

definition rule_get_authenticate_user :: "rule \<Rightarrow> bool" where
  "rule_get_authenticate_user r = rule_check_flags r RuleFlagAuthenticateUser"

definition rule_get_extract_password :: "rule \<Rightarrow> bool" where
  "rule_get_extract_password r = rule_check_flags r RuleFlagExtractPassword"

definition rule_get_password_only :: "rule \<Rightarrow> bool" where
  "rule_get_password_only r = rule_check_flags r RuleFlagPasswordOnly"

definition rule_get_securetokenuser :: "rule \<Rightarrow> bool" where
  "rule_get_securetokenuser r = rule_check_flags r RuleFlagSecureTokenOnly"

definition rule_get_tries :: "rule \<Rightarrow> 64 word" where
  "rule_get_tries r = pd_int64 (ru_data r) ''tries''"

definition rule_get_comment :: "rule \<Rightarrow> string option" where
  "rule_get_comment r = pd_string (ru_data r) ''comment''"

definition rule_get_version :: "rule \<Rightarrow> 64 word" where
  "rule_get_version r = pd_int64 (ru_data r) ''version''"

definition rule_get_created :: "('w, 'z) env_scheme \<Rightarrow> rule \<Rightarrow> 64 word" where
  "rule_get_created env r = pd_double (env_atof env) (ru_data r) ''created''"

definition rule_get_modified :: "('w, 'z) env_scheme \<Rightarrow> rule \<Rightarrow> 64 word" where
  "rule_get_modified env r = pd_double (env_atof env) (ru_data r) ''modified''"

definition rule_get_identifier :: "rule \<Rightarrow> string option" where
  "rule_get_identifier r = pd_string (ru_data r) ''identifier''"

text \<open>The requirement is kept from the first time it is read.\<close>

definition rule_get_requirement_data :: "rule \<Rightarrow> string option \<times> rule" where
  "rule_get_requirement_data r =
     (let rd = (case ru_requirement_data r of Some d \<Rightarrow> Some d | None \<Rightarrow> pd_data (ru_data r) ''requirement'')
      in (rd, Rule (ru_data r) (ru_mechanisms r) (ru_delegations r) (ru_loc_prompts r) (ru_loc_buttons r) rd))"

definition rule_equal :: "rule \<Rightarrow> rule \<Rightarrow> bool option" where
  "rule_equal rule1 rule2 =
     (case (rule_get_name rule1, rule_get_name rule2) of
        (Some a, Some b) \<Rightarrow> Some (strcase_eq a b) | _ \<Rightarrow> None)"

definition rule_hash :: "rule \<Rightarrow> 64 word option" where
  "rule_hash r = map_option crc64 (rule_get_name r)"

definition rule_mechanisms_iterator :: "rule \<Rightarrow> (mechanism \<Rightarrow> 's \<Rightarrow> bool \<times> 's) \<Rightarrow> 's \<Rightarrow> bool \<times> 's" where
  "rule_mechanisms_iterator r iter s = cf_iterate iter (ru_mechanisms r) False s"

definition rule_delegates_iterator :: "rule \<Rightarrow> (rule \<Rightarrow> 's \<Rightarrow> bool \<times> 's) \<Rightarrow> 's \<Rightarrow> bool \<times> 's" where
  "rule_delegates_iterator r iter s = cf_iterate iter (ru_delegations r) False s"

section \<open>Creation and fetching\<close>

definition rule_create :: rule where
  "rule_create = Rule pd_empty [] [] None None None"

definition rule_create_with_sql :: "pdict \<Rightarrow> rule" where
  "rule_create_with_sql sql = rule_upd_data (\<lambda>d. pd_copy d sql) rule_create"

definition rule_append_mechanism :: "rule \<Rightarrow> mechanism option \<Rightarrow> rule" where
  "rule_append_mechanism r mech =
     (case mech of None \<Rightarrow> rule_crash r | Some m \<Rightarrow> rule_set_mechanisms (ru_mechanisms r @ [m]) r)"

definition rule_append_delegate :: "rule \<Rightarrow> rule \<Rightarrow> rule" where
  "rule_append_delegate r d = rule_set_delegations (ru_delegations r @ [d]) r"

definition rule_create_default :: rule where
  "rule_create_default =
     (let r = rule_create;
          r = rule_upd_data (\<lambda>d. pd_set_int64 d ''type'' (ucast RT_RIGHT)) r;
          r = rule_upd_data (\<lambda>d. pd_set_string d ''name'' ''(default)'') r;
          r = rule_upd_data (\<lambda>d. pd_set_int64 d ''class'' (ucast RC_USER)) r;
          r = rule_upd_data (\<lambda>d. pd_set_string d ''group'' ''admin'') r;
          r = rule_upd_data (\<lambda>d. pd_set_int64 d ''timeout'' 300) r;
          r = rule_upd_data (\<lambda>d. pd_set_int64 d ''tries'' kMaximumAuthorizationTries) r;
          r = rule_upd_data (\<lambda>d. pd_set_int64 d ''flags'' (ucast (RuleFlagShared OR RuleFlagAuthenticateUser))) r;
          r = rule_append_mechanism r (mechanism_create_with_string (Some ''builtin:authenticate'') None);
          r = rule_append_mechanism r (mechanism_create_with_string (Some ''builtin:reset-password,privileged'') None)
      in rule_append_mechanism r (mechanism_create_with_string (Some ''builtin:authenticate,privileged'') None))"

definition get_sql_mechanisms :: "rule \<Rightarrow> db \<Rightarrow> rule" where
  "get_sql_mechanisms r dbconn =
     fold (\<lambda>row r. rule_append_mechanism r (mechanism_create_with_sql (parse_row row)))
       (select_mechanisms dbconn (rule_get_id r)) (rule_set_mechanisms [] r)"

text \<open>\<^verbatim>\<open>_get_sql_delegates\<close>: the class that decides about going on is the one of the rule itself.\<close>

fun get_sql_delegates :: "nat \<Rightarrow> rule \<Rightarrow> db \<Rightarrow> rule" where
  "get_sql_delegates 0 r dbconn = rule_crash r"
| "get_sql_delegates (Suc depth) r dbconn =
     fold (\<lambda>row r.
         let delegate = get_sql_mechanisms (rule_create_with_sql (parse_row row)) dbconn;
             delegate = (if rule_get_class r = RC_RULE then get_sql_delegates depth delegate dbconn else delegate)
         in rule_append_delegate r delegate)
       (select_delegates dbconn (rule_get_id r)) (rule_set_delegations [] r)"

definition rule_sql_fetch :: "nat \<Rightarrow> rule \<Rightarrow> db \<Rightarrow> bool \<times> rule" where
  "rule_sql_fetch depth r dbconn =
     (let (result, r) = (case rows_by_name dbconn (rule_get_name r) of
            [] \<Rightarrow> (False, r)
          | row # _ \<Rightarrow> (True, rule_upd_data (\<lambda>d. pd_copy d (parse_row row)) r))
      in (result,
          if rule_get_id r \<noteq> 0 then
            let r = get_sql_mechanisms r dbconn
            in if rule_get_class r = RC_RULE then get_sql_delegates depth r dbconn else r
          else r))"

definition rule_create_with_string :: "nat \<Rightarrow> string option \<Rightarrow> db option \<Rightarrow> rule option" where
  "rule_create_with_string depth str dbconn =
     (case str of
        None \<Rightarrow> None
      | Some s \<Rightarrow>
          let r = rule_upd_data (\<lambda>d. pd_set_string d ''name'' s) rule_create
          in Some (case dbconn of None \<Rightarrow> r | Some db \<Rightarrow> snd (rule_sql_fetch depth r db)))"

section \<open>Property lists\<close>

definition rule_set_data_string :: "string \<Rightarrow> cf option \<Rightarrow> rule \<Rightarrow> rule" where
  "rule_set_data_string key str r =
     (case copy_cf_string str None of None \<Rightarrow> r | Some s \<Rightarrow> rule_upd_data (\<lambda>d. pd_set_string d key s) r)"

definition rule_set_int64 :: "string \<Rightarrow> 64 word \<Rightarrow> rule \<Rightarrow> rule" where
  "rule_set_int64 key v r = rule_upd_data (\<lambda>d. pd_set_int64 d key v) r"

definition get_cf_rule_class :: "cf option \<Rightarrow> 32 word" where
  "get_cf_rule_class str =
     (case str of
        Some (CF_String s) \<Rightarrow>
          if s = ''user'' then RC_USER
          else if s = ''rule'' then RC_RULE
          else if s = ''evaluate-mechanisms'' then RC_MECHANISM
          else if s = ''deny'' then RC_DENY
          else if s = ''allow'' then RC_ALLOW
          else RC_RULE
      | _ \<Rightarrow> RC_RULE)"

definition sql_get_id :: "rule \<Rightarrow> db \<Rightarrow> rule" where
  "sql_get_id r dbconn =
     (case rows_by_name dbconn (rule_get_name r) of
        [] \<Rightarrow> r
      | row # _ \<Rightarrow> rule_upd_data (\<lambda>d. pd_copy d (parse_row
          (map (\<lambda>c. (c, row_get row c)) [''id'', ''created'', ''identifier'', ''requirement'']))) r)"

definition copy_cf_rule_delegations :: "nat \<Rightarrow> rule \<Rightarrow> cf option \<Rightarrow> db \<Rightarrow> rule" where
  "copy_cf_rule_delegations depth r val dbconn =
     (let add = (\<lambda>v r. case rule_create_with_string depth (copy_cf_string (Some v) None) (Some dbconn) of
            None \<Rightarrow> r | Some delegate \<Rightarrow> rule_append_delegate r delegate)
      in case val of
           None \<Rightarrow> r
         | Some (CF_String s) \<Rightarrow> add (CF_String s) r
         | Some (CF_Array vs) \<Rightarrow> fold add vs r
         | _ \<Rightarrow> rule_crash r)"

definition copy_cf_rule_mechanisms :: "rule \<Rightarrow> cf option \<Rightarrow> db \<Rightarrow> rule" where
  "copy_cf_rule_mechanisms r array dbconn =
     (case array of
        Some (CF_Array vs) \<Rightarrow>
          fold (\<lambda>v r. case copy_cf_string (Some v) None of
              None \<Rightarrow> r
            | Some s \<Rightarrow> (case mechanism_create_with_string (Some s) (Some dbconn) of
                None \<Rightarrow> r | Some mech \<Rightarrow> rule_append_mechanism r (Some mech))) vs r
      | _ \<Rightarrow> r)"

definition flag_if :: "bool \<Rightarrow> 32 word \<Rightarrow> 32 word \<Rightarrow> 32 word" where
  "flag_if b flag flags = (if b then flags OR flag else flags)"

text \<open>The localized texts of a property list are copied whatever they are: anything but a dictionary is
  taken for one.\<close>

definition rule_set_localization :: "cf option \<Rightarrow> cf option \<Rightarrow> rule \<Rightarrow> rule" where
  "rule_set_localization prompts buttons r =
     (let loc = (\<lambda>t. case t of Some (CF_Dict d) \<Rightarrow> Some d | _ \<Rightarrow> None);
          bad = (\<lambda>t. case t of None \<Rightarrow> False | Some (CF_Dict d) \<Rightarrow> False | _ \<Rightarrow> True);
          r = Rule (ru_data r) (ru_mechanisms r) (ru_delegations r) (loc prompts) (loc buttons) (ru_requirement_data r)
      in if bad prompts \<or> bad buttons then rule_crash r else r)"

definition rule_create_with_plist :: "nat \<Rightarrow> 32 word \<Rightarrow> string \<Rightarrow> (string \<times> cf) list \<Rightarrow> db \<Rightarrow> rule" where
  "rule_create_with_plist depth type name plist dbconn =
     (let get = map_of plist;
          bool = (\<lambda>k dflt. get_cf_bool (get k) dflt);
          r = rule_set_data_string ''name'' (Some (CF_String name)) rule_create;
          r = sql_get_id r dbconn;
          r = rule_set_int64 ''type'' (ucast type) r;
          r = rule_set_int64 ''class'' (ucast (get_cf_rule_class (get ''class''))) r;
          r = rule_set_data_string ''comment'' (get ''comment'') r;
          r = rule_set_localization (get ''default-prompt'') (get ''default-button'') r;
          r = rule_set_int64 ''version'' (get_cf_int (get ''version'') 0) r;
          flags = flag_if (bool ''entitled'' False) RuleFlagEntitled 0;
          flags = flag_if (bool ''require-apple-signed'' False) RuleFlagRequireAppleSigned flags;
          (r, flags) =
            (if rule_get_class r = RC_USER then
               let r = rule_set_data_string ''group'' (get ''group'') r;
                   r = rule_set_int64 ''timeout'' (get_cf_int (get ''timeout'') 2147483647) r;
                   r = rule_set_int64 ''tries'' (get_cf_int (get ''tries'') kMaximumAuthorizationTries) r;
                   flags = flag_if (bool ''shared'' False) RuleFlagShared flags;
                   flags = flag_if (bool ''allow-root'' False) RuleFlagAllowRoot flags;
                   flags = flag_if (bool ''session-owner'' False) RuleFlagSessionOwner flags;
                   flags = flag_if (bool ''authenticate-user'' True) RuleFlagAuthenticateUser flags;
                   flags = flag_if (bool ''extract-password'' False) RuleFlagExtractPassword flags;
                   flags = flag_if (bool ''entitled-group'' False) RuleFlagEntitledAndGroup flags;
                   flags = flag_if (bool ''vpn-entitled-group'' False) RuleFlagVPNEntitledAndGroup flags;
                   flags = flag_if (bool ''password-only'' False) RuleFlagPasswordOnly flags;
                   flags = flag_if (bool ''securetoken-only'' False) RuleFlagSecureTokenOnly flags
               in (copy_cf_rule_mechanisms r (get ''mechanisms'') dbconn, flags)
             else if rule_get_class r = RC_RULE then
               (copy_cf_rule_delegations depth (rule_set_int64 ''kofn'' (get_cf_int (get ''k-of-n'') 0) r)
                  (get ''rule'') dbconn, flags)
             else if rule_get_class r = RC_MECHANISM then
               let r = rule_set_int64 ''tries'' (get_cf_int (get ''tries'') kMaximumAuthorizationTries) r;
                   flags = flag_if (bool ''shared'' True) RuleFlagShared flags;
                   flags = flag_if (bool ''extract-password'' False) RuleFlagExtractPassword flags
               in (copy_cf_rule_mechanisms r (get ''mechanisms'') dbconn, flags)
             else (r, flags))
      in rule_set_int64 ''flags'' (ucast flags) r)"

text \<open>\<^verbatim>\<open>rule_copy_to_cfobject\<close>, with \<^verbatim>\<open>CFDictionarySetValue\<close> as update and \<^verbatim>\<open>CFDictionaryAddValue\<close> as insertion.\<close>

definition cf_put :: "string \<Rightarrow> cf \<Rightarrow> (string \<times> cf) list \<Rightarrow> (string \<times> cf) list" where
  "cf_put k v d = AList.update k v d"

definition cf_add :: "string \<Rightarrow> cf \<Rightarrow> (string \<times> cf) list \<Rightarrow> (string \<times> cf) list" where
  "cf_add k v d = (if map_of d k = None then AList.update k v d else d)"

definition cf_put_string :: "string \<Rightarrow> string option \<Rightarrow> (string \<times> cf) list \<Rightarrow> (string \<times> cf) list" where
  "cf_put_string k s d = (case s of None \<Rightarrow> d | Some s \<Rightarrow> cf_put k (CF_String s) d)"

definition cf_put_if :: "bool \<Rightarrow> string \<Rightarrow> cf \<Rightarrow> (string \<times> cf) list \<Rightarrow> (string \<times> cf) list" where
  "cf_put_if b k v d = (if b then cf_put k v d else d)"

definition localization_dict :: "64 word \<Rightarrow> (64 word \<times> string \<times> string) list \<Rightarrow> (string \<times> cf) list" where
  "localization_dict i table =
     fold (\<lambda>(r_id, lang, txt) d. cf_add lang (CF_String txt) d) (filter (\<lambda>(r_id, _). r_id = i) table) []"

text \<open>A delegate has a name: it was created with one or comes from the table, where it is not NULL.\<close>

definition mechanisms_array :: "rule \<Rightarrow> cf" where
  "mechanisms_array r = CF_Array (map (\<lambda>m. CF_String (fst (mechanism_get_string m))) (ru_mechanisms r))"

definition delegates_array :: "rule \<Rightarrow> cf" where
  "delegates_array r = CF_Array (map (\<lambda>d. CF_String (case rule_get_name d of None \<Rightarrow> [] | Some n \<Rightarrow> n)) (ru_delegations r))"

definition rule_copy_to_cfobject :: "('w, 'z) env_scheme \<Rightarrow> 'w \<Rightarrow> rule \<Rightarrow> db \<Rightarrow> (string \<times> cf) list" where
  "rule_copy_to_cfobject env w r dbconn =
     (let d = cf_put_string ''comment'' (rule_get_comment r) [];
          d = cf_put ''version'' (CF_Int (rule_get_version r)) d;
          d = cf_put ''created'' (CF_Real (env_real env (rule_get_created env r))) d;
          d = cf_put ''modified'' (CF_Real (env_real env (rule_get_modified env r))) d;
          d = cf_put_string ''identifier'' (rule_get_identifier r) d;
          d = cf_put_string ''requirement''
                (case fst (rule_get_requirement_data r) of None \<Rightarrow> None | Some rd \<Rightarrow> env_requirement_text env rd) d;
          d = cf_put_if (rule_check_flags r RuleFlagEntitled) ''entitled'' (CF_Bool True) d;
          d = cf_put_if (rule_check_flags r RuleFlagRequireAppleSigned) ''require-apple-signed'' (CF_Bool True) d;
          d = (if rule_get_type r = RT_RIGHT then
                 let prompts = localization_dict (rule_get_id r) (db_prompts dbconn);
                     buttons = localization_dict (rule_get_id r) (db_buttons dbconn);
                     d = (if prompts \<noteq> [] then cf_add ''default-prompt'' (CF_Dict prompts) d else d)
                 in if buttons \<noteq> [] then cf_add ''default-button'' (CF_Dict buttons) d else d
               else d)
      in if rule_get_class r = RC_USER then
           let d = cf_put ''class'' (CF_String ''user'') d;
               d = cf_put_string ''group'' (rule_get_group r) d;
               d = cf_put ''timeout'' (CF_Int (rule_get_timeout r)) d;
               d = cf_put ''tries'' (CF_Int (rule_get_tries r)) d;
               d = cf_put ''shared'' (CF_Bool (rule_get_shared env w r)) d;
               d = cf_put ''allow-root'' (CF_Bool (rule_get_allow_root r)) d;
               d = cf_put ''session-owner'' (CF_Bool (rule_get_session_owner r)) d;
               d = cf_put ''authenticate-user'' (CF_Bool (rule_get_authenticate_user r)) d;
               d = cf_put_if (rule_check_flags r RuleFlagEntitledAndGroup) ''entitled-group'' (CF_Bool True) d;
               d = cf_put_if (rule_check_flags r RuleFlagVPNEntitledAndGroup) ''vpn-entitled-group'' (CF_Bool True) d;
               d = cf_put_if (rule_get_extract_password r) ''extract-password'' (CF_Bool True) d;
               d = cf_put_if (rule_get_password_only r) ''password-only'' (CF_Bool True) d;
               d = cf_put_if (rule_get_securetokenuser r) ''securetoken-only'' (CF_Bool True) d
           in if ru_mechanisms r \<noteq> [] then cf_add ''mechanisms'' (mechanisms_array r) d else d
         else if rule_get_class r = RC_RULE then
           let d = cf_put ''class'' (CF_String ''rule'') d;
               d = cf_put_if (rule_get_kofn r \<noteq> 0) ''k-of-n'' (CF_Int (rule_get_kofn r)) d
           in if ru_delegations r \<noteq> [] then cf_add ''rule'' (delegates_array r) d else d
         else if rule_get_class r = RC_MECHANISM then
           let d = cf_put ''class'' (CF_String ''evaluate-mechanisms'') d;
               d = cf_put ''shared'' (CF_Bool (rule_get_shared env w r)) d;
               d = cf_put_if (rule_get_extract_password r) ''extract-password'' (CF_Bool True) d;
               d = cf_put ''tries'' (CF_Int (rule_get_tries r)) d
           in if ru_mechanisms r \<noteq> [] then cf_add ''mechanisms'' (mechanisms_array r) d else d
         else if rule_get_class r = RC_DENY then cf_put ''class'' (CF_String ''deny'') d
         else if rule_get_class r = RC_ALLOW then cf_put ''class'' (CF_String ''allow'') d
         else d)"

section \<open>Commits\<close>

definition rules_columns :: "string list" where
  "rules_columns = [''name'', ''type'', ''class'', ''group'', ''kofn'', ''timeout'', ''flags'', ''tries'', ''version'',
     ''created'', ''modified'', ''hash'', ''identifier'', ''requirement'', ''comment'']"

text \<open>\<^verbatim>\<open>_sql_bind\<close>: the values in the order they are bound; what is not bound is NULL.\<close>

definition sql_bind :: "('w, 'z) env_scheme \<Rightarrow> rule \<Rightarrow> sqlval list \<times> rule" where
  "sql_bind env r =
     (let cls = rule_get_class r;
          flags = SQL_Int (pd_int64 (ru_data r) ''flags'');
          per_class =
            (if cls = RC_USER then
               [sql_text (rule_get_group r), SQL_Null, SQL_Int (rule_get_timeout r), flags, SQL_Int (rule_get_tries r)]
             else if cls = RC_RULE then
               [SQL_Null, if rule_get_kofn r \<noteq> 0 then SQL_Int (rule_get_kofn r) else SQL_Null, SQL_Null, flags, SQL_Null]
             else if cls = RC_MECHANISM then [SQL_Null, SQL_Null, SQL_Null, flags, SQL_Int (rule_get_tries r)]
             else if cls = RC_DENY \<or> cls = RC_ALLOW then [SQL_Null, SQL_Null, SQL_Null, flags, SQL_Null]
             else []);
          (rd, r') = rule_get_requirement_data r
      in ([sql_text (rule_get_name r), SQL_Int (scast (rule_get_type r)), SQL_Int (scast cls)] @ per_class @
          [SQL_Int (rule_get_version r), SQL_Real (rule_get_created env r), SQL_Real (rule_get_modified env r), SQL_Null,
           sql_text (rule_get_identifier r), case rd of None \<Rightarrow> SQL_Null | Some b \<Rightarrow> SQL_Blob b,
           sql_text (rule_get_comment r)], r'))"

definition rules_row :: "64 word \<Rightarrow> sqlval list \<Rightarrow> row" where
  "rules_row i vals = (''id'', SQL_Int i) # zip rules_columns (vals @ replicate (15 - length vals) SQL_Null)"

text \<open>The constraints of the table, against the other rows.\<close>

definition rules_row_ok :: "row list \<Rightarrow> row \<Rightarrow> bool" where
  "rules_row_ok others r \<longleftrightarrow>
     row_get r ''name'' \<noteq> SQL_Null \<and> list_all (\<lambda>q. row_get q ''name'' \<noteq> row_get r ''name'') others \<and>
     (row_get r ''type'' = SQL_Int 1 \<or> row_get r ''type'' = SQL_Int 2) \<and>
     (case row_get r ''class'' of SQL_Null \<Rightarrow> True | SQL_Int c \<Rightarrow> 0 <s c | _ \<Rightarrow> False) \<and>
     row_get r ''version'' \<noteq> SQL_Null \<and> row_get r ''created'' \<noteq> SQL_Null \<and> row_get r ''modified'' \<noteq> SQL_Null"

definition sql_update :: "('w, 'z) env_scheme \<Rightarrow> rule \<Rightarrow> db \<Rightarrow> bool \<times> db \<times> rule" where
  "sql_update env r dbconn =
     (case sql_bind env r of (vals, r') \<Rightarrow>
        let i = rule_get_id r; row = rules_row i vals
        in if \<not> list_ex (\<lambda>q. row_id q = i) (db_rules dbconn) then (True, dbconn, r')
           else if rules_row_ok (filter (\<lambda>q. row_id q \<noteq> i) (db_rules dbconn)) row
           then (True, dbconn\<lparr> db_rules := map (\<lambda>q. if row_id q = i then row else q) (db_rules dbconn) \<rparr>, r')
           else (False, dbconn, r'))"

definition sql_insert :: "('w, 'z) env_scheme \<Rightarrow> rule \<Rightarrow> db \<Rightarrow> bool \<times> db \<times> rule" where
  "sql_insert env r dbconn =
     (case sql_bind env r of (vals, r') \<Rightarrow>
        let i = db_rules_seq dbconn + 1; row = rules_row i vals
        in if 0 <s i \<and> rules_row_ok (db_rules dbconn) row
           then (True, dbconn\<lparr> db_rules := db_rules dbconn @ [row], db_rules_seq := i \<rparr>, r')
           else (False, dbconn, r'))"

text \<open>The maps of mechanisms and delegates: the old entries of the rule go, the new ones are inserted until
  one is refused by its foreign keys.\<close>

fun sql_insert_map :: "(64 word \<Rightarrow> bool) \<Rightarrow> 64 word \<Rightarrow> 64 word list \<Rightarrow> nat \<Rightarrow> (64 word \<times> 64 word \<times> nat) list \<Rightarrow>
    bool \<times> (64 word \<times> 64 word \<times> nat) list" where
  "sql_insert_map valid r_id [] i m = (True, m)"
| "sql_insert_map valid r_id (t # ts) i m =
     (if valid t then sql_insert_map valid r_id ts (Suc i) (m @ [(r_id, t, i)]) else (False, m))"

definition has_row :: "row list \<Rightarrow> 64 word \<Rightarrow> bool" where
  "has_row rows i \<longleftrightarrow> list_ex (\<lambda>r. row_id r = i) rows"

definition sql_commit_mechanisms_map :: "rule \<Rightarrow> db \<Rightarrow> bool \<times> db" where
  "sql_commit_mechanisms_map r dbconn =
     (let i = rule_get_id r;
          (result, m) = sql_insert_map (\<lambda>t. has_row (db_rules dbconn) i \<and> has_row (db_mechanisms dbconn) t) i
             (map mechanism_get_id (ru_mechanisms r)) 0 (filter (\<lambda>(r_id, _). r_id \<noteq> i) (db_mechanisms_map dbconn))
      in (result, dbconn\<lparr> db_mechanisms_map := m \<rparr>))"

definition sql_commit_delegates_map :: "rule \<Rightarrow> db \<Rightarrow> bool \<times> db" where
  "sql_commit_delegates_map r dbconn =
     (let i = rule_get_id r;
          (result, m) = sql_insert_map (\<lambda>t. has_row (db_rules dbconn) i \<and> has_row (db_rules dbconn) t) i
             (map rule_get_id (ru_delegations r)) 0 (filter (\<lambda>(r_id, _). r_id \<noteq> i) (db_delegates_map dbconn))
      in (result, dbconn\<lparr> db_delegates_map := m \<rparr>))"

text \<open>Localized texts that are no strings, or of a rule that is not there, are refused one by one.\<close>

definition insert_localization :: "bool \<Rightarrow> 64 word \<Rightarrow> (string \<times> cf) list option \<Rightarrow>
    (64 word \<times> string \<times> string) list \<Rightarrow> (64 word \<times> string \<times> string) list" where
  "insert_localization valid i loc table =
     (case loc of
        None \<Rightarrow> table
      | Some d \<Rightarrow> fold (\<lambda>(k, v) t. case copy_cf_string (Some v) None of
            Some s \<Rightarrow> if valid then t @ [(i, cstr k, s)] else t | None \<Rightarrow> t) d table)"

definition sql_commit_localization :: "rule \<Rightarrow> db \<Rightarrow> db" where
  "sql_commit_localization r dbconn =
     (let i = rule_get_id r; valid = has_row (db_rules dbconn) i;
          keep = filter (\<lambda>(r_id, _). r_id \<noteq> i)
      in dbconn\<lparr> db_prompts := insert_localization valid i (ru_loc_prompts r) (keep (db_prompts dbconn)),
                 db_buttons := insert_localization valid i (ru_loc_buttons r) (keep (db_buttons dbconn)) \<rparr>)"

datatype rule_operation = rule_insert | rule_update | rule_delete

definition operation_number :: "rule_operation \<Rightarrow> nat" where
  "operation_number oper = (case oper of rule_insert \<Rightarrow> 0 | rule_update \<Rightarrow> 1 | rule_delete \<Rightarrow> 2)"

text \<open>\<^verbatim>\<open>rule_log_manipulation\<close>: a rule without a name is not logged.  \<^term>\<open>show_pid\<close> prints a process number.\<close>

definition rule_log_manipulation ::
  "('w, 'z) env_scheme \<Rightarrow> 'w \<Rightarrow> (32 word \<Rightarrow> string) \<Rightarrow> db \<Rightarrow> rule \<Rightarrow> rule_operation \<Rightarrow> process option \<Rightarrow> db" where
  "rule_log_manipulation env w show_pid dbconn r operation source =
     (let pathbuf = (case source of
            None \<Rightarrow> ''authd''
          | Some proc \<Rightarrow> (case env_pidpath env w (process_get_pid proc) of
                Pid_Path p \<Rightarrow> p
              | _ \<Rightarrow> ''Unknown process with PID '' @ show_pid (process_get_pid proc)))
      in case rule_get_name r of
           None \<Rightarrow> dbconn
         | Some n \<Rightarrow> dbconn\<lparr> db_history := db_history dbconn @ [(n, pathbuf, operation_number operation, rule_get_version r)] \<rparr>)"

text \<open>The mechanisms of a rule to be committed must get an identifier, the delegates must be in the database.\<close>

fun validate_mechanisms :: "('w, 'z) env_scheme \<Rightarrow> 'w \<Rightarrow> mechanism list \<Rightarrow> db \<Rightarrow> bool \<times> mechanism list \<times> db" where
  "validate_mechanisms env w [] dbconn = (True, [], dbconn)"
| "validate_mechanisms env w (mech # ms) dbconn =
     (let (mech, dbconn) =
            (if mechanism_get_id mech = 0 then
               (case mechanism_sql_fetch mech dbconn of
                  (True, m) \<Rightarrow> (m, dbconn)
                | (False, m) \<Rightarrow> (let db' = snd (mechanism_sql_commit m dbconn) in (snd (mechanism_sql_fetch m db'), db')))
             else (mech, dbconn));
          mech = snd (mechanism_exists env w mech)
      in if mechanism_get_id mech = 0 then (False, mech # ms, dbconn)
         else case validate_mechanisms env w ms dbconn of (ok, ms', db') \<Rightarrow> (ok, mech # ms', db'))"

fun validate_delegates :: "nat \<Rightarrow> rule list \<Rightarrow> db \<Rightarrow> bool \<times> rule list" where
  "validate_delegates depth [] dbconn = (True, [])"
| "validate_delegates depth (delegate # ds) dbconn =
     (let delegate = (if rule_get_id delegate = 0 then snd (rule_sql_fetch depth delegate dbconn) else delegate)
      in if rule_get_id delegate = 0 then (False, delegate # ds)
         else case validate_delegates depth ds dbconn of (ok, ds') \<Rightarrow> (ok, delegate # ds'))"

text \<open>The block of the transaction: first the row of the rule, then its localized texts and its maps.\<close>

definition rule_commit_row ::
  "('w, 'z) env_scheme \<Rightarrow> rule \<Rightarrow> 64 word \<Rightarrow> process option \<Rightarrow> db \<Rightarrow> bool \<times> db \<times> rule \<times> bool" where
  "rule_commit_row env r modified proc dbconn =
     (if rule_get_id r \<noteq> 0 then
        (case sql_update env r dbconn of (u, db', r') \<Rightarrow> (u, db', r', False))
      else
        let r = (case proc of
              None \<Rightarrow> r
            | Some p \<Rightarrow>
                let r = (case pr_code_identifier p of
                      None \<Rightarrow> r | Some ident \<Rightarrow> rule_upd_data (\<lambda>d. pd_set_string d ''identifier'' ident) r)
                in case pr_code_requirement_data p of
                     None \<Rightarrow> r | Some req \<Rightarrow> rule_upd_data (\<lambda>d. pd_set_data d ''requirement'' req) r);
            r = rule_upd_data (\<lambda>d. pd_set_double d ''created'' modified) r
        in case sql_insert env r dbconn of (u, db', r') \<Rightarrow> (u, db', sql_get_id r' db', True))"

definition rule_commit_transaction ::
  "('w, 'z) env_scheme \<Rightarrow> rule \<Rightarrow> 64 word \<Rightarrow> process option \<Rightarrow> db \<Rightarrow> bool \<times> db \<times> rule \<times> bool" where
  "rule_commit_transaction env r modified proc dbconn =
     (let (update, dbconn, r, ins) = rule_commit_row env r modified proc dbconn;
          dbconn = sql_commit_localization r dbconn;
          (update, dbconn) = (if update then sql_commit_mechanisms_map r dbconn else (update, dbconn));
          (update, dbconn) = (if update then sql_commit_delegates_map r dbconn else (update, dbconn))
      in (update, dbconn, r, ins))"

definition rule_sql_commit ::
  "('w, 'z) env_scheme \<Rightarrow> 'w \<Rightarrow> (32 word \<Rightarrow> string) \<Rightarrow> nat \<Rightarrow> rule \<Rightarrow> db \<Rightarrow> 64 word \<Rightarrow> process option \<Rightarrow> bool \<times> db \<times> rule" where
  "rule_sql_commit env w show_pid depth r dbconn modified proc =
     (let cls = rule_get_class r
      in if rule_get_type r = 0 \<or> cls = 0 then (False, dbconn, r)
         else
           let (ok, r, dbconn) =
                 (if cls = RC_USER \<or> cls = RC_MECHANISM then
                    (case validate_mechanisms env w (ru_mechanisms r) dbconn of
                       (ok, ms, db') \<Rightarrow> (ok, rule_set_mechanisms ms r, db'))
                  else (True, r, dbconn));
               (ok, r) =
                 (if ok \<and> cls = RC_RULE then
                    (case validate_delegates depth (ru_delegations r) dbconn of
                       (ok, ds) \<Rightarrow> (ok, rule_set_delegations ds r))
                  else (ok, r))
           in if \<not> ok then (False, dbconn, r)
              else
                let r = rule_upd_data (\<lambda>d. pd_set_double d ''modified'' modified) r;
                    (result, dbconn, r, ins) = authdb_transaction (rule_commit_transaction env r modified proc) dbconn
                in if result
                   then (True, rule_log_manipulation env w show_pid dbconn r (if ins then rule_insert else rule_update) proc, r)
                   else (False, dbconn, r))"

text \<open>Removal cascades to the maps and the localized texts.\<close>

definition delete_rule_row :: "64 word \<Rightarrow> db \<Rightarrow> db" where
  "delete_rule_row i dbconn = dbconn\<lparr>
     db_rules := filter (\<lambda>r. row_id r \<noteq> i) (db_rules dbconn),
     db_mechanisms_map := filter (\<lambda>(r_id, _). r_id \<noteq> i) (db_mechanisms_map dbconn),
     db_delegates_map := filter (\<lambda>(r_id, d_id, _). r_id \<noteq> i \<and> d_id \<noteq> i) (db_delegates_map dbconn),
     db_prompts := filter (\<lambda>(r_id, _). r_id \<noteq> i) (db_prompts dbconn),
     db_buttons := filter (\<lambda>(r_id, _). r_id \<noteq> i) (db_buttons dbconn) \<rparr>"

definition rule_sql_remove ::
  "('w, 'z) env_scheme \<Rightarrow> 'w \<Rightarrow> (32 word \<Rightarrow> string) \<Rightarrow> nat \<Rightarrow> rule \<Rightarrow> db \<Rightarrow> process option \<Rightarrow> bool \<times> db \<times> rule" where
  "rule_sql_remove env w show_pid depth r dbconn proc =
     (let r = (if rule_get_id r = 0 then snd (rule_sql_fetch depth r dbconn) else r)
      in if rule_get_id r = 0 then (False, dbconn, r)
         else (True, rule_log_manipulation env w show_pid (delete_rule_row (rule_get_id r) dbconn) r rule_delete proc, r))"

end
