(* ===== verification/Rule_Laws.thy ===== *)
theory Rule_Laws
  imports Rule
begin

text \<open>
  The laws of rules: the default rule, rules read from rows of the database, and the search for a rule with its
  delegates, which returns when the delegates are ranked and overruns every stack on a cycle.  Commits and
  removals are in \<^verbatim>\<open>Rule_Commit\<close>.
\<close>

unbundle bit_operations_syntax

section \<open>Fields\<close>

lemma rule_sel_simps [simp]:
  "ru_data (rule_upd_data f r) = f (ru_data r)" "ru_mechanisms (rule_upd_data f r) = ru_mechanisms r"
  "ru_delegations (rule_upd_data f r) = ru_delegations r" "ru_loc_prompts (rule_upd_data f r) = ru_loc_prompts r"
  "ru_loc_buttons (rule_upd_data f r) = ru_loc_buttons r" "ru_requirement_data (rule_upd_data f r) = ru_requirement_data r"
  "ru_data (rule_set_mechanisms ms r) = ru_data r" "ru_mechanisms (rule_set_mechanisms ms r) = ms"
  "ru_delegations (rule_set_mechanisms ms r) = ru_delegations r" "ru_loc_prompts (rule_set_mechanisms ms r) = ru_loc_prompts r"
  "ru_loc_buttons (rule_set_mechanisms ms r) = ru_loc_buttons r" "ru_requirement_data (rule_set_mechanisms ms r) = ru_requirement_data r"
  "ru_data (rule_set_delegations ds r) = ru_data r" "ru_mechanisms (rule_set_delegations ds r) = ru_mechanisms r"
  "ru_delegations (rule_set_delegations ds r) = ds" "ru_loc_prompts (rule_set_delegations ds r) = ru_loc_prompts r"
  "ru_loc_buttons (rule_set_delegations ds r) = ru_loc_buttons r" "ru_requirement_data (rule_set_delegations ds r) = ru_requirement_data r"
  "ru_data (rule_set_int64 k v r) = pd_set_int64 (ru_data r) k v" "ru_mechanisms (rule_set_int64 k v r) = ru_mechanisms r"
  "ru_delegations (rule_set_int64 k v r) = ru_delegations r"
  by (simp_all add: rule_upd_data_def rule_set_mechanisms_def rule_set_delegations_def rule_set_int64_def)

lemma rule_create_simps [simp]:
  "ru_data rule_create = pd_empty" "ru_mechanisms rule_create = []" "ru_delegations rule_create = []"
  "ru_loc_prompts rule_create = None" "ru_loc_buttons rule_create = None" "ru_requirement_data rule_create = None"
  by (simp_all add: rule_create_def)

lemma rule_fault_eq:
  "rule_fault r \<longleftrightarrow> pd_fault (ru_data r) \<or> (\<exists>m\<in>set (ru_mechanisms r). mechanism_fault m) \<or> (\<exists>d\<in>set (ru_delegations r). rule_fault d)"
  by (cases r) (auto simp: list_ex_iff)

lemmas rule_fields = rule_get_id_def rule_get_name_def rule_get_type_def rule_get_class_def rule_get_group_def
  rule_get_kofn_def rule_get_timeout_def rule_check_flags_def rule_get_tries_def rule_get_comment_def
  rule_get_version_def rule_get_identifier_def

lemma pd_ok_no_fault: "pd_ok d \<Longrightarrow> \<not> pd_fault d"
  by (simp add: pd_ok_def pd_fault_def)

lemma rule_append_Some [simp]: "rule_append_mechanism r (Some m) = rule_set_mechanisms (ru_mechanisms r @ [m]) r"
  by (simp add: rule_append_mechanism_def)

lemma pd_int64_set_string': "pd_ok d \<Longrightarrow> NUL \<notin> set v \<Longrightarrow> k' \<noteq> k \<Longrightarrow> pd_int64 (pd_set_string d k v) k' = pd_int64 d k'"
  by (rule pd_int64_set_string)

section \<open>The default rule\<close>

lemma builtin_mechanism:
  assumes "param \<noteq> []" "\<forall>c\<in>set param. \<not> mech_delim c \<and> c \<noteq> NUL"
  shows "\<exists>mech. mechanism_create_with_string (Some (''builtin:'' @ param @ (if priv then '',privileged'' else ''''))) None = Some mech \<and>
    \<not> mechanism_fault mech \<and> fst (mechanism_get_string mech) = ''builtin:'' @ param @ (if priv then '',privileged'' else '''')"
proof -
  have "\<forall>c\<in>set (''builtin'' @ param). \<not> mech_delim c \<and> c \<noteq> NUL"
    using assms(2) by (auto simp: mech_delim_def)
  from mechanism_print_parse [OF _ assms(1) this, of priv] show ?thesis
    by auto
qed

text \<open>The rule used when the database has none asks an administrator to authenticate: class user, group
  admin, a timeout of 300 seconds, ten thousand tries, exactly the flags shared and authenticate-user,
  the three builtin mechanisms in their order, no delegate, and no identity in the database.\<close>

theorem rule_create_default_fields:
  "\<not> rule_fault rule_create_default \<and> rule_get_id rule_create_default = 0 \<and>
   rule_get_name rule_create_default = Some ''(default)'' \<and> rule_get_type rule_create_default = RT_RIGHT \<and>
   rule_get_class rule_create_default = RC_USER \<and> rule_get_group rule_create_default = Some ''admin'' \<and>
   rule_get_timeout rule_create_default = 300 \<and> rule_get_tries rule_create_default = 10000 \<and>
   (\<forall>flag. rule_check_flags rule_create_default flag \<longleftrightarrow> flag AND (RuleFlagShared OR RuleFlagAuthenticateUser) \<noteq> 0) \<and>
   map (\<lambda>m. fst (mechanism_get_string m)) (ru_mechanisms rule_create_default) =
     [''builtin:authenticate'', ''builtin:reset-password,privileged'', ''builtin:authenticate,privileged''] \<and>
   ru_delegations rule_create_default = []"
proof -
  obtain m1 where m1: "mechanism_create_with_string (Some ''builtin:authenticate'') None = Some m1"
    "\<not> mechanism_fault m1" "fst (mechanism_get_string m1) = ''builtin:authenticate''"
    using builtin_mechanism [of "''authenticate''" False] by (auto simp: mech_delim_def)
  obtain m2 where m2: "mechanism_create_with_string (Some ''builtin:reset-password,privileged'') None = Some m2"
    "\<not> mechanism_fault m2" "fst (mechanism_get_string m2) = ''builtin:reset-password,privileged''"
    using builtin_mechanism [of "''reset-password''" True] by (auto simp: mech_delim_def)
  obtain m3 where m3: "mechanism_create_with_string (Some ''builtin:authenticate,privileged'') None = Some m3"
    "\<not> mechanism_fault m3" "fst (mechanism_get_string m3) = ''builtin:authenticate,privileged''"
    using builtin_mechanism [of "''authenticate''" True] by (auto simp: mech_delim_def)
  define d where "d = pd_set_int64 (pd_set_int64 (pd_set_int64 (pd_set_string (pd_set_int64 (pd_set_string
    (pd_set_int64 pd_empty ''type'' 1) ''name'' ''(default)'') ''class'' 1) ''group'' ''admin'')
    ''timeout'' 300) ''tries'' kMaximumAuthorizationTries) ''flags'' 9"
  have r: "ru_data rule_create_default = d" "ru_mechanisms rule_create_default = [m1, m2, m3]"
    "ru_delegations rule_create_default = []"
    by (simp_all add: rule_create_default_def m1 m2 m3 d_def Let_def)
  have d: "pd_ok d" "pd_int64 d ''id'' = 0" "pd_string d ''name'' = Some ''(default)''" "pd_int64 d ''type'' = 1"
    "pd_int64 d ''class'' = 1" "pd_string d ''group'' = Some ''admin''" "pd_int64 d ''timeout'' = 300"
    "pd_int64 d ''tries'' = 10000" "pd_int64 d ''flags'' = 9"
    by (simp_all add: d_def pd_laws kMaximumAuthorizationTries_def)
  have flags: "(9 :: 64 word) AND ucast flag \<noteq> 0 \<longleftrightarrow> flag AND (1 OR 8) \<noteq> 0" for flag :: "32 word"
  proof -
    have "(9 :: 64 word) AND ucast flag = ucast (flag AND (1 OR 8))"
      by (simp add: unsigned_and_eq and.commute)
    then show ?thesis
      by (metis unsigned_0 ucast_64_32)
  qed
  have "rule_check_flags rule_create_default flag \<longleftrightarrow> flag AND (RuleFlagShared OR RuleFlagAuthenticateUser) \<noteq> 0" for flag
    by (simp only: rule_check_flags_def r d(9) flags)
  moreover have "\<not> rule_fault rule_create_default"
    using m1(2) m2(2) m3(2) d(1) by (subst rule_fault_eq) (simp add: r pd_ok_no_fault)
  moreover have "rule_get_id rule_create_default = 0" "rule_get_name rule_create_default = Some ''(default)''"
    "rule_get_type rule_create_default = RT_RIGHT" "rule_get_class rule_create_default = RC_USER"
    "rule_get_group rule_create_default = Some ''admin''" "rule_get_timeout rule_create_default = 300"
    "rule_get_tries rule_create_default = 10000"
    using d(2-8) by (simp_all add: r rule_fields)
  moreover have "map (\<lambda>m. fst (mechanism_get_string m)) (ru_mechanisms rule_create_default) =
      [''builtin:authenticate'', ''builtin:reset-password,privileged'', ''builtin:authenticate,privileged'']"
    using m1(3) m2(3) m3(3) by (simp add: r)
  ultimately show ?thesis
    using r(3) by (intro conjI allI)
qed

section \<open>Rows of the tables\<close>

text \<open>A row of the table of rules has the columns of the schema, in order, with the types of the schema, and
  a positive identifier that was given out.\<close>

definition rule_row_ok :: "db \<Rightarrow> row \<Rightarrow> bool" where
  "rule_row_ok d r \<longleftrightarrow> map fst r = ''id'' # rules_columns \<and> row_get r ''id'' = SQL_Int (row_id r) \<and> 0 <s row_id r \<and>
     row_id r \<le>s db_rules_seq d \<and> (\<exists>n. row_get r ''name'' = SQL_Text n \<and> NUL \<notin> set n) \<and>
     (\<exists>t. row_get r ''type'' = SQL_Int t) \<and> (\<exists>c. row_get r ''class'' = SQL_Int c \<and> 0 <s c)"

definition rules_ok :: "db \<Rightarrow> bool" where
  "rules_ok d \<longleftrightarrow> (\<forall>r\<in>set (db_rules d). rule_row_ok d r) \<and> distinct (map row_id (db_rules d)) \<and>
     distinct (map (\<lambda>r. row_get r ''name'') (db_rules d)) \<and> 0 \<le>s db_rules_seq d"

text \<open>The texts of the table of mechanisms; a builtin mechanism has a parameter like every other.\<close>

definition mechs_text :: "db \<Rightarrow> bool" where
  "mechs_text d \<longleftrightarrow> mechs_ok d \<and> (\<forall>r\<in>set (db_mechanisms d). map fst r = [''id'', ''plugin'', ''param'', ''privileged''] \<and>
     (\<exists>p. row_get r ''plugin'' = SQL_Text p \<and> NUL \<notin> set p) \<and> (\<exists>p. row_get r ''param'' = SQL_Text p \<and> NUL \<notin> set p) \<and>
     (\<exists>i. row_get r ''privileged'' = SQL_Int i))"

lemma rules_columns_distinct: "distinct (''id'' # rules_columns)"
  by (simp add: rules_columns_def)

lemma rule_of_row:
  assumes "rule_row_ok d row"
  defines "r \<equiv> rule_create_with_sql (parse_row row)"
  shows "pd_ok (ru_data r)" "rule_get_id r = row_id row" "rule_get_id r \<noteq> 0"
    "row_get row ''class'' = SQL_Int c \<Longrightarrow> rule_get_class r = ucast c"
    "row_get row ''type'' = SQL_Int t \<Longrightarrow> rule_get_type r = ucast t"
    "row_get row ''name'' = SQL_Text n \<Longrightarrow> rule_get_name r = Some (cstr n)"
    "\<not> rule_fault r" "ru_mechanisms r = []" "ru_delegations r = []"
proof -
  have dist: "distinct (map fst row)"
    using assms(1) rules_columns_distinct by (simp add: rule_row_ok_def)
  note copy = pd_copy_row [OF pd_ok_empty(1) dist]
  have data: "ru_data r = pd_copy pd_empty (parse_row row)"
    by (simp add: r_def rule_create_with_sql_def)
  show ok: "pd_ok (ru_data r)" "ru_mechanisms r = []" "ru_delegations r = []"
    using copy(1) by (simp_all add: data) (simp_all add: r_def rule_create_with_sql_def)
  show "\<not> rule_fault r"
    using ok by (subst rule_fault_eq) (simp add: pd_ok_no_fault)
  show id: "rule_get_id r = row_id row"
    using copy(2) assms(1) by (simp add: data rule_fields rule_row_ok_def)
  show "rule_get_id r \<noteq> 0"
    using assms(1) by (auto simp: id rule_row_ok_def word_sless_alt)
  show "row_get row ''class'' = SQL_Int c \<Longrightarrow> rule_get_class r = ucast c"
    "row_get row ''type'' = SQL_Int t \<Longrightarrow> rule_get_type r = ucast t"
    "row_get row ''name'' = SQL_Text n \<Longrightarrow> rule_get_name r = Some (cstr n)"
    using copy(2,3) by (simp_all add: data rule_fields)
qed

lemma mechanism_of_row:
  assumes "mechs_text d" "row \<in> set (db_mechanisms d)"
  shows "\<exists>m. mechanism_create_with_sql (parse_row row) = Some m \<and> \<not> mechanism_fault m \<and> mechanism_get_id m = row_id row"
proof -
  have row: "distinct (map fst row)" "row_get row ''id'' = SQL_Int (row_id row)" "0 <s row_id row"
    using assms by (auto simp: mechs_text_def mechs_ok_def)
  obtain p q where pq: "row_get row ''plugin'' = SQL_Text p" "row_get row ''param'' = SQL_Text q"
    using assms by (fastforce simp: mechs_text_def)
  note copy = pd_copy_row [OF pd_ok_empty(1) row(1)]
  define m where "m = mechanism_new\<lparr> me_data := pd_copy pd_empty (parse_row row) \<rparr>"
  have "row_id row \<noteq> 0"
    using row(3) by (auto simp: word_sless_alt)
  then have "mechanism_create_with_sql (parse_row row) = Some (mechanism_set_type m)"
    using parse_row_reads(1) [OF row(1,2)] by (simp add: mechanism_create_with_sql_def m_def)
  moreover have "mechanism_get_plugin m = Some (cstr p)" "mechanism_get_param m = Some (cstr q)"
    "mechanism_get_id m = row_id row" "\<not> mechanism_fault m"
    using copy(1) copy(2) [OF row(2)] copy(3) [OF pq(1)] copy(3) [OF pq(2)] pd_ok_no_fault
    by (simp_all add: m_def mechanism_get_plugin_def mechanism_get_param_def mechanism_get_id_def mechanism_fault_def)
  ultimately show ?thesis
    by (simp add: mechanism_set_type_fault)
qed

section \<open>Fetching\<close>

lemma join_map_mem: "row \<in> set (join_map rows m i) \<longleftrightarrow> row \<in> set rows \<and> (\<exists>ord. (i, row_id row, ord) \<in> set m)"
  by (auto simp: join_map_def)

lemma select_mechanisms_mem: "row \<in> set (select_mechanisms d i) \<Longrightarrow> row \<in> set (db_mechanisms d)"
  by (simp add: select_mechanisms_def join_map_mem)

lemma select_delegates_mem:
  "row \<in> set (select_delegates d i) \<longleftrightarrow> row \<in> set (db_rules d) \<and> (\<exists>ord. (i, row_id row, ord) \<in> set (db_delegates_map d))"
  by (simp add: select_delegates_def join_map_mem)

lemma get_sql_mechanisms_eq:
  assumes "mechs_text d"
  shows "get_sql_mechanisms r d = rule_set_mechanisms
      (map (\<lambda>row. the (mechanism_create_with_sql (parse_row row))) (select_mechanisms d (rule_get_id r))) r"
proof -
  have "fold (\<lambda>row r. rule_append_mechanism r (mechanism_create_with_sql (parse_row row))) rows (rule_set_mechanisms ms r) =
      rule_set_mechanisms (ms @ map (\<lambda>row. the (mechanism_create_with_sql (parse_row row))) rows) r"
    if "set rows \<subseteq> set (db_mechanisms d)" for rows ms
    using that
  proof (induction rows arbitrary: ms)
    case Nil
    then show ?case by simp
  next
    case (Cons row rows)
    then obtain m where "mechanism_create_with_sql (parse_row row) = Some m"
      using mechanism_of_row [OF assms, of row] by auto
    then show ?case
      using Cons.IH [of "ms @ [m]"] Cons.prems by (simp add: rule_set_mechanisms_def)
  qed
  from this [of "select_mechanisms d (rule_get_id r)" "[]"] show ?thesis
    using select_mechanisms_mem by (simp add: get_sql_mechanisms_def subsetI)
qed

lemma get_sql_mechanisms_simps:
  assumes "mechs_text d"
  shows "ru_data (get_sql_mechanisms r d) = ru_data r" "ru_delegations (get_sql_mechanisms r d) = ru_delegations r"
    "mech \<in> set (ru_mechanisms (get_sql_mechanisms r d)) \<Longrightarrow> \<not> mechanism_fault mech"
proof -
  show "ru_data (get_sql_mechanisms r d) = ru_data r" "ru_delegations (get_sql_mechanisms r d) = ru_delegations r"
    by (simp_all add: get_sql_mechanisms_eq [OF assms])
  assume "mech \<in> set (ru_mechanisms (get_sql_mechanisms r d))"
  then obtain row where row: "row \<in> set (select_mechanisms d (rule_get_id r))"
    "mech = the (mechanism_create_with_sql (parse_row row))"
    by (auto simp: get_sql_mechanisms_eq [OF assms])
  then show "\<not> mechanism_fault mech"
    using mechanism_of_row [OF assms select_mechanisms_mem [OF row(1)]] by auto
qed

text \<open>One delegate, fetched with what is left of the stack.\<close>

definition fetch_delegate :: "nat \<Rightarrow> bool \<Rightarrow> db \<Rightarrow> row \<Rightarrow> rule" where
  "fetch_delegate depth go_on d row =
     (let g = get_sql_mechanisms (rule_create_with_sql (parse_row row)) d
      in if go_on then get_sql_delegates depth g d else g)"

lemma get_sql_delegates_eq:
  "get_sql_delegates (Suc depth) r d = rule_set_delegations
     (map (fetch_delegate depth (rule_get_class r = RC_RULE) d) (select_delegates d (rule_get_id r))) r"
proof -
  have "fold (\<lambda>row r. let delegate = get_sql_mechanisms (rule_create_with_sql (parse_row row)) d;
        delegate = (if rule_get_class r = RC_RULE then get_sql_delegates depth delegate d else delegate)
      in rule_append_delegate r delegate) rows (rule_set_delegations ds r) =
    rule_set_delegations (ds @ map (fetch_delegate depth (rule_get_class r = RC_RULE) d) rows) r" for rows ds
  proof (induction rows arbitrary: ds)
    case Nil
    then show ?case by simp
  next
    case (Cons row rows)
    show ?case
      using Cons.IH [of "ds @ [fetch_delegate depth (rule_get_class r = RC_RULE) d row]"]
      by (simp add: rule_append_delegate_def rule_set_delegations_def fetch_delegate_def Let_def rule_get_class_def)
  qed
  from this [of "select_delegates d (rule_get_id r)" "[]"] show ?thesis
    by simp
qed

lemma rule_get_id_set [simp]:
  "rule_get_id (rule_set_mechanisms ms r) = rule_get_id r" "rule_get_id (rule_set_delegations ds r) = rule_get_id r"
  "rule_get_class (rule_set_mechanisms ms r) = rule_get_class r" "rule_get_class (rule_set_delegations ds r) = rule_get_class r"
  by (simp_all add: rule_fields)

lemma get_sql_mechanisms_id:
  "mechs_text d \<Longrightarrow> rule_get_id (get_sql_mechanisms r d) = rule_get_id r"
  "mechs_text d \<Longrightarrow> rule_get_class (get_sql_mechanisms r d) = rule_get_class r"
  by (simp_all add: get_sql_mechanisms_eq)

lemma get_sql_mechanisms_fault:
  assumes "mechs_text d" "\<not> rule_fault r"
  shows "\<not> rule_fault (get_sql_mechanisms r d)"
  using assms(2) get_sql_mechanisms_simps [OF assms(1), where r = r] rule_fault_eq [of r]
  by (subst rule_fault_eq) auto

lemma get_sql_delegates_deep:
  assumes "mechs_text d" "rules_ok d" and rank: "\<forall>(r, t, ord)\<in>set (db_delegates_map d). rank t < (rank r :: nat)"
  shows "rank (rule_get_id r) < n \<Longrightarrow> n \<le> m \<Longrightarrow> \<not> rule_fault r \<Longrightarrow>
    get_sql_delegates m r d = get_sql_delegates n r d \<and> \<not> rule_fault (get_sql_delegates n r d)"
proof (induction n arbitrary: r m)
  case 0
  then show ?case by simp
next
  case (Suc n)
  then obtain m' where m: "m = Suc m'" "n \<le> m'" by (cases m) auto
  have del: "fetch_delegate m' b d row = fetch_delegate n b d row \<and> \<not> rule_fault (fetch_delegate n b d row)"
    if row: "row \<in> set (select_delegates d (rule_get_id r))" for row b
  proof -
    define g where "g = get_sql_mechanisms (rule_create_with_sql (parse_row row)) d"
    have ok: "rule_row_ok d row" and r: "\<exists>ord. (rule_get_id r, row_id row, ord) \<in> set (db_delegates_map d)"
      using row assms(2) by (auto simp: select_delegates_mem rules_ok_def)
    have g: "rule_get_id g = row_id row" "\<not> rule_fault g"
      using rule_of_row [OF ok] get_sql_mechanisms_fault [OF assms(1)] get_sql_mechanisms_id [OF assms(1)] by (simp_all add: g_def)
    have "rank (row_id row) < rank (rule_get_id r)"
      using rank r by auto
    then have "rank (rule_get_id g) < n"
      using Suc.prems(1) g(1) by simp
    then show ?thesis
      using Suc.IH [of g m'] m(2) g by (simp add: fetch_delegate_def g_def [symmetric] Let_def)
  qed
  have "map (fetch_delegate m' b d) (select_delegates d (rule_get_id r)) = map (fetch_delegate n b d) (select_delegates d (rule_get_id r))" for b
    using del by simp
  moreover have "\<not> rule_fault (rule_set_delegations (map (fetch_delegate n b d) (select_delegates d (rule_get_id r))) r)" for b
    using del Suc.prems(3) rule_fault_eq [of r] by (subst rule_fault_eq) auto
  ultimately show ?case
    unfolding m(1) get_sql_delegates_eq by (simp only: simp_thms)
qed

lemma get_sql_delegates_cycle:
  assumes "mechs_text d" "rules_ok d"
    and cycle: "\<forall>i\<in>C. \<exists>row\<in>set (db_rules d). row_id row \<in> C \<and> row_get row ''class'' = SQL_Int (ucast RC_RULE) \<and>
      (\<exists>ord. (i, row_id row, ord) \<in> set (db_delegates_map d))"
  shows "rule_get_id r \<in> C \<Longrightarrow> rule_get_class r = RC_RULE \<Longrightarrow> rule_fault (get_sql_delegates n r d)"
proof (induction n arbitrary: r)
  case 0
  show ?case
    by (subst rule_fault_eq) (simp add: rule_crash_def pd_check_def pd_fault_def)
next
  case (Suc n)
  then obtain row where row: "row \<in> set (db_rules d)" "row_id row \<in> C" "row_get row ''class'' = SQL_Int (ucast RC_RULE)"
    "\<exists>ord. (rule_get_id r, row_id row, ord) \<in> set (db_delegates_map d)"
    using cycle by blast
  define g where "g = get_sql_mechanisms (rule_create_with_sql (parse_row row)) d"
  have ok: "rule_row_ok d row"
    using row(1) assms(2) by (simp add: rules_ok_def)
  have "rule_get_id g = row_id row" "rule_get_class g = RC_RULE"
    using rule_of_row(2) [OF ok] rule_of_row(4) [OF ok row(3)] get_sql_mechanisms_id [OF assms(1)] by (simp_all add: g_def)
  then have "rule_fault (get_sql_delegates n g d)"
    using Suc.IH row(2) by simp
  then have "rule_fault (fetch_delegate n True d row)"
    by (simp add: fetch_delegate_def g_def [symmetric] Let_def)
  moreover have "row \<in> set (select_delegates d (rule_get_id r))"
    using row by (simp add: select_delegates_mem)
  ultimately show ?case
    unfolding get_sql_delegates_eq using Suc.prems(2) by (subst rule_fault_eq) auto
qed

text \<open>What \<^const>\<open>rule_create_with_string\<close> finds in the table, before the mechanisms and the delegates.\<close>

lemma rows_by_name_row:
  assumes "rows_by_name d (Some name) = row # rows"
  shows "row \<in> set (db_rules d)" "row_get row ''name'' = SQL_Text name"
proof -
  have "row \<in> set (filter (\<lambda>r. row_get r ''name'' = SQL_Text name) (db_rules d))"
    using assms in_set_takeD [of row 1 "filter (\<lambda>r. row_get r ''name'' = SQL_Text name) (db_rules d)"]
    by (simp add: rows_by_name_def)
  then show "row \<in> set (db_rules d)" "row_get row ''name'' = SQL_Text name"
    by simp_all
qed

definition named_rule :: "string \<Rightarrow> rule" where
  "named_rule name = rule_upd_data (\<lambda>d. pd_set_string d ''name'' name) rule_create"

lemma named_rule:
  assumes "NUL \<notin> set name"
  shows "pd_ok (ru_data (named_rule name))" "rule_get_id (named_rule name) = 0" "rule_get_name (named_rule name) = Some name"
    "\<not> rule_fault (named_rule name)" "ru_mechanisms (named_rule name) = []" "ru_delegations (named_rule name) = []"
proof -
  show ok: "pd_ok (ru_data (named_rule name))" and "ru_mechanisms (named_rule name) = []" "ru_delegations (named_rule name) = []"
    using assms by (simp_all add: named_rule_def)
  show "rule_get_id (named_rule name) = 0" "rule_get_name (named_rule name) = Some name"
    using assms pd_int64_set_string [OF pd_ok_empty(1), of name "''id''" "''name''"]
    by (simp_all add: named_rule_def rule_fields pd_string_set_string)
  show "\<not> rule_fault (named_rule name)"
    using ok by (subst rule_fault_eq) (simp add: named_rule_def pd_ok_no_fault)
qed

lemma found_rule:
  assumes "rule_row_ok d row" "NUL \<notin> set name"
  defines "r \<equiv> rule_upd_data (\<lambda>d. pd_copy d (parse_row row)) (named_rule name)"
  shows "pd_ok (ru_data r)" "rule_get_id r = row_id row" "rule_get_id r \<noteq> 0" "\<not> rule_fault r"
    "row_get row ''class'' = SQL_Int c \<Longrightarrow> rule_get_class r = ucast c"
proof -
  have dist: "distinct (map fst row)"
    using assms(1) rules_columns_distinct by (simp add: rule_row_ok_def)
  note copy = pd_copy_row [OF named_rule(1) [OF assms(2)] dist]
  show ok: "pd_ok (ru_data r)"
    using copy(1) by (simp add: r_def)
  show "rule_get_id r = row_id row"
    using copy(2) assms(1) by (simp add: r_def rule_fields rule_row_ok_def)
  then show "rule_get_id r \<noteq> 0"
    using assms(1) by (auto simp: rule_row_ok_def word_sless_alt)
  show "\<not> rule_fault r"
    using ok named_rule(5,6) [OF assms(2)] by (subst rule_fault_eq) (simp add: pd_ok_no_fault r_def)
  show "row_get row ''class'' = SQL_Int c \<Longrightarrow> rule_get_class r = ucast c"
    using copy(2) by (simp add: r_def rule_fields)
qed

definition found_rule :: "db \<Rightarrow> string \<Rightarrow> row \<Rightarrow> rule" where
  "found_rule d name row = get_sql_mechanisms (rule_upd_data (\<lambda>d. pd_copy d (parse_row row)) (named_rule name)) d"

lemma rule_create_with_string_found:
  assumes "mechs_text d" "rules_ok d" "NUL \<notin> set name" "rows_by_name d (Some name) = row # rows"
  shows "rule_create_with_string depth (Some name) (Some d) = Some
      (if rule_get_class (found_rule d name row) = RC_RULE then get_sql_delegates depth (found_rule d name row) d
       else found_rule d name row)"
    "rule_get_id (found_rule d name row) = row_id row" "\<not> rule_fault (found_rule d name row)"
    "row_get row ''class'' = SQL_Int c \<Longrightarrow> rule_get_class (found_rule d name row) = ucast c"
proof -
  have ok: "rule_row_ok d row"
    using rows_by_name_row [OF assms(4)] assms(2) by (simp add: rules_ok_def)
  note found = found_rule [OF ok assms(3)]
  have "rows_by_name d (rule_get_name (named_rule name)) = row # rows"
    using named_rule(3) [OF assms(3)] assms(4) by simp
  then show "rule_create_with_string depth (Some name) (Some d) = Some
      (if rule_get_class (found_rule d name row) = RC_RULE then get_sql_delegates depth (found_rule d name row) d
       else found_rule d name row)"
    using found(3) unfolding rule_create_with_string_def rule_sql_fetch_def found_rule_def
    by (simp add: named_rule_def [symmetric] Let_def)
  show "rule_get_id (found_rule d name row) = row_id row" "\<not> rule_fault (found_rule d name row)"
    "row_get row ''class'' = SQL_Int c \<Longrightarrow> rule_get_class (found_rule d name row) = ucast c"
    using found get_sql_mechanisms_id [OF assms(1)] get_sql_mechanisms_fault [OF assms(1)]
    by (simp_all add: found_rule_def)
qed

lemma rule_create_with_string_missing:
  assumes "NUL \<notin> set name" "rows_by_name d (Some name) = []"
  shows "rule_create_with_string depth (Some name) (Some d) = Some (named_rule name)"
  using assms(2) named_rule [OF assms(1)] unfolding rule_create_with_string_def rule_sql_fetch_def
  by (simp add: named_rule_def [symmetric] Let_def)

text \<open>C24. Fetching a rule by its name returns, without a fault, whenever the delegates of the table are
  ranked: a stack that holds more calls than the rank of any rule is enough, and a deeper one gives
  the same rule.\<close>

theorem rule_fetch_terminates:
  assumes "mechs_text d" "rules_ok d" "NUL \<notin> set name"
    and "list_all (\<lambda>(r, t, ord). rank t < (rank r :: nat)) (db_delegates_map d)"
    and "list_all (\<lambda>row. rank (row_id row) < depth) (db_rules d)" "depth \<le> deeper"
  shows "\<exists>r. rule_create_with_string depth (Some name) (Some d) = Some r \<and> \<not> rule_fault r \<and>
    rule_create_with_string deeper (Some name) (Some d) = Some r"
proof (cases "rows_by_name d (Some name)")
  case Nil
  then show ?thesis
    using rule_create_with_string_missing [OF assms(3)] named_rule(4) [OF assms(3)] by simp
next
  case (Cons row rows)
  note found = rule_create_with_string_found [OF assms(1-3) Cons]
  have "\<forall>(r, t, ord)\<in>set (db_delegates_map d). rank t < rank r"
    using assms(4) by (simp add: list_all_iff)
  moreover have "rank (rule_get_id (found_rule d name row)) < depth"
    using assms(5) rows_by_name_row(1) [OF Cons] found(2) by (simp add: list_all_iff)
  ultimately have "get_sql_delegates deeper (found_rule d name row) d = get_sql_delegates depth (found_rule d name row) d \<and>
      \<not> rule_fault (get_sql_delegates depth (found_rule d name row) d)"
    using get_sql_delegates_deep [OF assms(1,2) _ _ assms(6) found(3)] by blast
  then show ?thesis
    using found(1,3) by simp
qed

text \<open>C25. A cycle of delegates is never left: when every rule of a set of rules of class rule has a delegate
  in the set, fetching any of them overruns the stack, however much of it there is.\<close>

theorem rule_fetch_cycle_faults:
  assumes "mechs_text d" "rules_ok d" "NUL \<notin> set name"
    and "\<forall>i\<in>C. \<exists>row\<in>set (db_rules d). row_id row \<in> C \<and> row_get row ''class'' = SQL_Int (ucast RC_RULE) \<and>
      (\<exists>ord. (i, row_id row, ord) \<in> set (db_delegates_map d))"
    and "row \<in> set (db_rules d)" "row_get row ''name'' = SQL_Text name" "row_id row \<in> C"
      "row_get row ''class'' = SQL_Int (ucast RC_RULE)"
  shows "\<exists>r. rule_create_with_string depth (Some name) (Some d) = Some r \<and> rule_fault r"
proof -
  have "filter (\<lambda>r. row_get r ''name'' = SQL_Text name) (db_rules d) \<noteq> []"
    using assms(5,6) by (auto simp: filter_empty_conv)
  then obtain row' rows where row': "rows_by_name d (Some name) = row' # rows"
    by (cases "filter (\<lambda>r. row_get r ''name'' = SQL_Text name) (db_rules d)") (auto simp: rows_by_name_def)
  have "inj_on (\<lambda>r. row_get r ''name'') (set (db_rules d))"
    using assms(2) by (simp add: rules_ok_def distinct_map)
  then have same: "row' = row"
    using rows_by_name_row [OF row'] assms(5,6) by (simp add: inj_on_def)
  note found = rule_create_with_string_found [OF assms(1-3) row' [unfolded same]]
  have "rule_get_class (found_rule d name row) = RC_RULE"
    using found(4) [OF assms(8)] by simp
  moreover have "rule_fault (get_sql_delegates depth (found_rule d name row) d)"
    using get_sql_delegates_cycle [OF assms(1,2,4)] found(2) assms(7) calculation by simp
  ultimately show ?thesis
    using found(1) by simp
qed

text \<open>Databases for the witnesses: a rule that delegates to one that allows, and one that delegates to itself.\<close>

definition sample_rule_row :: "64 word \<Rightarrow> string \<Rightarrow> 32 word \<Rightarrow> row" where
  "sample_rule_row i name cls = rules_row i [SQL_Text name, SQL_Int 1, SQL_Int (ucast cls)]"

definition chain_db :: db where
  "chain_db = db_initial\<lparr> db_rules := [sample_rule_row 1 ''a'' RC_RULE, sample_rule_row 2 ''b'' RC_ALLOW],
     db_delegates_map := [(1, 2, 0)], db_rules_seq := 2 \<rparr>"

definition loop_db :: db where
  "loop_db = db_initial\<lparr> db_rules := [sample_rule_row 1 ''a'' RC_RULE], db_delegates_map := [(1, 1, 0)], db_rules_seq := 1 \<rparr>"

lemma sample_rule_row:
  "row_id (sample_rule_row i n c) = i" "row_get (sample_rule_row i n c) ''name'' = SQL_Text n"
  "row_get (sample_rule_row i n c) ''class'' = SQL_Int (ucast c)"
  by (simp_all add: sample_rule_row_def rules_row_def rules_columns_def row_id_def row_get_def)

lemma sample_rule_row_ok:
  assumes "0 <s i" "i \<le>s db_rules_seq d" "NUL \<notin> set n" "0 <s (ucast c :: 64 word)"
  shows "rule_row_ok d (sample_rule_row i n c)"
proof -
  have "map fst (sample_rule_row i n c) = ''id'' # rules_columns"
    by (simp add: sample_rule_row_def rules_row_def rules_columns_def)
  moreover have "row_get (sample_rule_row i n c) ''id'' = SQL_Int i" "row_get (sample_rule_row i n c) ''type'' = SQL_Int 1"
    by (simp_all add: sample_rule_row_def rules_row_def rules_columns_def row_get_def)
  ultimately show ?thesis
    using assms by (simp add: rule_row_ok_def sample_rule_row)
qed

lemma sample_dbs_ok:
  "mechs_text chain_db" "rules_ok chain_db" "mechs_text loop_db" "rules_ok loop_db"
proof -
  show "mechs_text chain_db" "mechs_text loop_db"
    by (simp_all add: mechs_text_def mechs_ok_def chain_db_def loop_db_def db_initial_def word_sle_eq)
  have "rule_row_ok chain_db (sample_rule_row 1 ''a'' RC_RULE)" "rule_row_ok chain_db (sample_rule_row 2 ''b'' RC_ALLOW)"
    "rule_row_ok loop_db (sample_rule_row 1 ''a'' RC_RULE)"
    by (rule sample_rule_row_ok; simp add: chain_db_def loop_db_def word_sless_alt word_sle_eq)+
  then show "rules_ok chain_db" "rules_ok loop_db"
    by (simp_all add: rules_ok_def chain_db_def loop_db_def sample_rule_row word_sle_eq)
qed

theorem rule_fetch_terminates_witness:
  "\<exists>r. rule_create_with_string 2 (Some ''a'') (Some chain_db) = Some r \<and> \<not> rule_fault r \<and>
    rule_create_with_string 9 (Some ''a'') (Some chain_db) = Some r"
proof -
  let ?rank = "\<lambda>i :: 64 word. if i = 1 then 1 else 0 :: nat"
  have "list_all (\<lambda>(r, t, ord). ?rank t < ?rank r) (db_delegates_map chain_db)"
    "list_all (\<lambda>row. ?rank (row_id row) < 2) (db_rules chain_db)"
    by (simp_all add: chain_db_def sample_rule_row)
  from rule_fetch_terminates [OF sample_dbs_ok(1,2) _ this, of "''a''" 9] show ?thesis
    by simp
qed

theorem rule_fetch_cycle_faults_witness:
  "\<exists>r. rule_create_with_string 1000 (Some ''a'') (Some loop_db) = Some r \<and> rule_fault r"
  by (rule rule_fetch_cycle_faults [OF sample_dbs_ok(3,4), of _ "{1}" "sample_rule_row 1 ''a'' RC_RULE"])
    (simp_all add: loop_db_def sample_rule_row)

end
