(* ===== verification/Rule_Commit.thy ===== *)
theory Rule_Commit
  imports Rule_Laws
begin

text \<open>
  What commits and removals of rules (\<^verbatim>\<open>rule_sql_commit\<close>, \<^verbatim>\<open>rule_sql_remove\<close>) do to the database: the
  foreign keys, which SQLite enforces, hold after every operation, the maps keep the order of the mechanisms and
  the delegates, and a commit that fails leaves everything but the table of mechanisms as it was.
\<close>

section \<open>Keys\<close>

text \<open>The references between the tables, and the identifiers below the counters.\<close>

definition db_keys :: "db \<Rightarrow> bool" where
  "db_keys d \<longleftrightarrow>
     list_all (\<lambda>(r, t, ord). has_row (db_rules d) r \<and> has_row (db_mechanisms d) t) (db_mechanisms_map d) \<and>
     list_all (\<lambda>(r, t, ord). has_row (db_rules d) r \<and> has_row (db_rules d) t) (db_delegates_map d) \<and>
     list_all (\<lambda>(r, lang, txt). has_row (db_rules d) r) (db_prompts d) \<and>
     list_all (\<lambda>(r, lang, txt). has_row (db_rules d) r) (db_buttons d)"

lemma has_row_simps [simp]:
  "has_row [] i \<longleftrightarrow> False" "has_row (r # rs) i \<longleftrightarrow> row_id r = i \<or> has_row rs i"
  "has_row (rs @ qs) i \<longleftrightarrow> has_row rs i \<or> has_row qs i"
  by (auto simp: has_row_def)

lemma has_row_filter [simp]: "has_row (filter (\<lambda>r. row_id r \<noteq> i) rs) j \<longleftrightarrow> j \<noteq> i \<and> has_row rs j"
  by (induction rs) (auto simp: has_row_def)

lemma has_row_map [simp]:
  "\<forall>r\<in>set rs. row_id (f r) = row_id r \<Longrightarrow> has_row (map f rs) i \<longleftrightarrow> has_row rs i"
  by (induction rs) auto

lemma row_id_rules_row [simp]: "row_id (rules_row i vals) = i"
  by (simp add: rules_row_def row_id_def row_get_def)

text \<open>An operation that only adds rows keeps the keys.\<close>

definition db_grows :: "db \<Rightarrow> db \<Rightarrow> bool" where
  "db_grows d d' \<longleftrightarrow> (\<forall>i. has_row (db_rules d) i \<longrightarrow> has_row (db_rules d') i) \<and>
     (\<forall>i. has_row (db_mechanisms d) i \<longrightarrow> has_row (db_mechanisms d') i) \<and>
     db_mechanisms_map d' = db_mechanisms_map d \<and> db_delegates_map d' = db_delegates_map d \<and>
     db_prompts d' = db_prompts d \<and> db_buttons d' = db_buttons d"

lemma db_grows_refl [simp]: "db_grows d d"
  by (simp add: db_grows_def)

lemma db_grows_trans: "db_grows d e \<Longrightarrow> db_grows e f \<Longrightarrow> db_grows d f"
  by (simp add: db_grows_def)

lemma db_grows_keys: "db_grows d d' \<Longrightarrow> db_keys d \<Longrightarrow> db_keys d'"
  by (fastforce simp: db_grows_def db_keys_def list_all_iff)

lemma mechanism_sql_commit_grows: "db_grows d (snd (mechanism_sql_commit m d))"
  by (simp add: mechanism_sql_commit_def db_grows_def Let_def)

lemma sql_update_grows:
  assumes "sql_update env r d = (ok, d', r')"
  shows "db_grows d d'"
  using assms by (auto simp: sql_update_def Let_def db_grows_def split: prod.splits if_splits)

lemma sql_insert_grows:
  assumes "sql_insert env r d = (ok, d', r')"
  shows "db_grows d d'"
  using assms by (auto simp: sql_insert_def Let_def db_grows_def split: prod.splits if_splits)

section \<open>The maps\<close>

lemma sql_insert_map_spec:
  "sql_insert_map valid i ts n m = (ok, m') \<Longrightarrow>
    \<exists>k \<le> length ts. m' = m @ zip (replicate k i) (zip (take k ts) [n..<n + k]) \<and> list_all valid (take k ts) \<and> (ok \<longrightarrow> k = length ts)"
proof (induction ts arbitrary: n m)
  case Nil
  then show ?case by simp
next
  case (Cons t ts)
  show ?case
  proof (cases "valid t")
    case True
    then have "sql_insert_map valid i ts (Suc n) (m @ [(i, t, n)]) = (ok, m')"
      using Cons.prems by simp
    then obtain k where k: "k \<le> length ts" "m' = (m @ [(i, t, n)]) @ zip (replicate k i) (zip (take k ts) [Suc n..<Suc n + k])"
      "list_all valid (take k ts)" "ok \<longrightarrow> k = length ts"
      using Cons.IH by blast
    have "m' = m @ zip (replicate (Suc k) i) (zip (take (Suc k) (t # ts)) [n..<n + Suc k])"
      using k(2) by (simp add: upt_rec [of n])
    then show ?thesis
      using k True by (intro exI [of _ "Suc k"]) simp
  next
    case False
    then show ?thesis
      using Cons.prems by (intro exI [of _ 0]) simp
  qed
qed

lemma sql_insert_map_valid:
  assumes "sql_insert_map valid i ts n m = (ok, m')"
  shows "list_all (\<lambda>(r, t, ord). r = i \<and> valid t \<or> (r, t, ord) \<in> set m) m'"
proof -
  obtain k where k: "m' = m @ zip (replicate k i) (zip (take k ts) [n..<n + k])" "list_all valid (take k ts)"
    using sql_insert_map_spec [OF assms] by blast
  show ?thesis
    unfolding k(1) using k(2) by (auto simp: list_all_iff dest: set_zip_leftD set_zip_rightD)
qed

lemma sql_commit_mechanisms_map_keys:
  assumes "db_keys d"
  shows "db_keys (snd (sql_commit_mechanisms_map r d))"
proof -
  obtain ok m where m: "sql_insert_map (\<lambda>t. has_row (db_rules d) (rule_get_id r) \<and> has_row (db_mechanisms d) t) (rule_get_id r)
      (map mechanism_get_id (ru_mechanisms r)) 0 (filter (\<lambda>(r_id, _). r_id \<noteq> rule_get_id r) (db_mechanisms_map d)) = (ok, m)"
    by fastforce
  have "list_all (\<lambda>(r, t, ord). has_row (db_rules d) r \<and> has_row (db_mechanisms d) t) m"
    using sql_insert_map_valid [OF m] assms by (fastforce simp: db_keys_def list_all_iff)
  then show ?thesis
    using assms m by (simp add: sql_commit_mechanisms_map_def db_keys_def Let_def)
qed

lemma sql_commit_delegates_map_keys:
  assumes "db_keys d"
  shows "db_keys (snd (sql_commit_delegates_map r d))"
proof -
  obtain ok m where m: "sql_insert_map (\<lambda>t. has_row (db_rules d) (rule_get_id r) \<and> has_row (db_rules d) t) (rule_get_id r)
      (map rule_get_id (ru_delegations r)) 0 (filter (\<lambda>(r_id, _). r_id \<noteq> rule_get_id r) (db_delegates_map d)) = (ok, m)"
    by fastforce
  have "list_all (\<lambda>(r, t, ord). has_row (db_rules d) r \<and> has_row (db_rules d) t) m"
    using sql_insert_map_valid [OF m] assms by (fastforce simp: db_keys_def list_all_iff)
  then show ?thesis
    using assms m by (simp add: sql_commit_delegates_map_def db_keys_def Let_def)
qed

lemma insert_localization_valid:
  "list_all (\<lambda>(r, lang, txt). P r) t \<Longrightarrow> (valid \<Longrightarrow> P i) \<Longrightarrow> list_all (\<lambda>(r, lang, txt). P r) (insert_localization valid i loc t)"
proof -
  assume t: "list_all (\<lambda>(r, lang, txt). P r) t" and valid: "valid \<Longrightarrow> P i"
  have "list_all (\<lambda>(r, lang, txt). P r) (fold (\<lambda>(k, v) t. case copy_cf_string (Some v) None of
      Some s \<Rightarrow> if valid then t @ [(i, cstr k, s)] else t | None \<Rightarrow> t) xs t)" for xs
    by (rule List.fold_invariant [where Q = "\<lambda>_. True"]) (use t valid in \<open>auto simp: case_prod_beta list_all_iff split: option.split\<close>)
  then show ?thesis
    using t by (simp add: insert_localization_def split: option.split)
qed

lemma sql_commit_localization_keys:
  assumes "db_keys d"
  shows "db_keys (sql_commit_localization r d)"
proof -
  have "list_all (\<lambda>(j, lang, txt). has_row (db_rules d) j) (insert_localization (has_row (db_rules d) (rule_get_id r)) (rule_get_id r) loc
      (filter (\<lambda>(r_id, _). r_id \<noteq> rule_get_id r) t))" if "list_all (\<lambda>(j, lang, txt). has_row (db_rules d) j) t" for loc t
    by (rule insert_localization_valid) (use that in \<open>auto simp: list_all_iff\<close>)
  then show ?thesis
    using assms by (simp add: sql_commit_localization_def db_keys_def Let_def)
qed

section \<open>Whole operations\<close>

lemma rule_commit_transaction_keys:
  assumes "db_keys d" "rule_commit_transaction env r modified proc d = (ok, d', r', ins)"
  shows "db_keys d'"
proof -
  obtain u d1 r1 i where row: "rule_commit_row env r modified proc d = (u, d1, r1, i)"
    by (cases "rule_commit_row env r modified proc d")
  have "db_grows d d1"
    using row sql_update_grows sql_insert_grows by (auto simp: rule_commit_row_def Let_def split: if_splits prod.splits)
  then have d1: "db_keys (sql_commit_localization r1 d1)"
    using assms(1) db_grows_keys sql_commit_localization_keys by blast
  have "d' = sql_commit_localization r1 d1 \<or> d' = snd (sql_commit_mechanisms_map r1 (sql_commit_localization r1 d1)) \<or>
      d' = snd (sql_commit_delegates_map r1 (snd (sql_commit_mechanisms_map r1 (sql_commit_localization r1 d1))))"
    using assms(2) unfolding rule_commit_transaction_def row Let_def
    by (auto split: if_splits prod.splits)
  then show ?thesis
    using d1 sql_commit_mechanisms_map_keys sql_commit_delegates_map_keys by metis
qed

text \<open>Changes of the table of mechanisms alone.\<close>

definition mechs_only :: "db \<Rightarrow> db \<Rightarrow> bool" where
  "mechs_only d d' \<longleftrightarrow> db_grows d d' \<and> (\<exists>t s. d' = d\<lparr> db_mechanisms := t, db_mechanisms_seq := s \<rparr>)"

lemma mechs_only_refl [simp]: "mechs_only d d"
  unfolding mechs_only_def by (intro conjI exI [of _ "db_mechanisms d"] exI [of _ "db_mechanisms_seq d"]) simp_all

lemma mechs_only_trans: "mechs_only d e \<Longrightarrow> mechs_only e f \<Longrightarrow> mechs_only d f"
  using db_grows_trans by (fastforce simp: mechs_only_def)

lemma mechanism_sql_commit_only: "mechs_only d (snd (mechanism_sql_commit m d))"
proof (cases "fst (mechanism_sql_commit m d)")
  case True
  then show ?thesis
    using mechanism_sql_commit_grows [of d m] by (auto simp: mechs_only_def mechanism_sql_commit_def Let_def split: if_splits)
next
  case False
  then have "snd (mechanism_sql_commit m d) = d"
    by (auto simp: mechanism_sql_commit_def Let_def split: if_splits)
  then show ?thesis by simp
qed

lemma validate_mechanisms_only: "validate_mechanisms env w ms d = (ok, ms', d') \<Longrightarrow> mechs_only d d'"
proof (induction ms arbitrary: d ms' ok d')
  case Nil
  then show ?case by simp
next
  case (Cons m ms)
  define one where "one = (if mechanism_get_id m = 0 then
      (case mechanism_sql_fetch m d of (True, m) \<Rightarrow> (m, d)
       | (False, m) \<Rightarrow> let db' = snd (mechanism_sql_commit m d) in (snd (mechanism_sql_fetch m db'), db'))
    else (m, d))"
  obtain m1 d1 where one: "one = (m1, d1)"
    by (cases one)
  have d1: "mechs_only d d1"
    using one mechanism_sql_commit_only by (auto simp: one_def Let_def split: if_splits prod.splits bool.splits)
  show ?case
  proof (cases "mechanism_get_id (snd (mechanism_exists env w m1)) = 0")
    case True
    then have "d' = d1"
      using Cons.prems by (simp add: one_def [symmetric] one Let_def)
    then show ?thesis
      using d1 by simp
  next
    case False
    then obtain ok' ms'' where rest: "validate_mechanisms env w ms d1 = (ok', ms'', d')"
      using Cons.prems by (auto simp: one_def [symmetric] one Let_def split: prod.splits)
    show ?thesis
      using Cons.IH [OF rest] d1 mechs_only_trans by blast
  qed
qed

text \<open>How \<^const>\<open>rule_sql_commit\<close> ends: it fails, having touched the mechanisms at most, or its transaction commits.\<close>

lemma rule_sql_commit_cases:
  assumes "rule_sql_commit env w show_pid depth r d modified proc = (ok, d', r')"
  obtains (failed) "\<not> ok" "mechs_only d d'"
  | (committed) d1 r1 d2 ins where "ok" "mechs_only d d1" "ru_data r1 = pd_set_double (ru_data r) ''modified'' modified"
      "rule_commit_transaction env r1 modified proc d1 = (True, d2, r', ins)"
      "d' = rule_log_manipulation env w show_pid d2 r' (if ins then rule_insert else rule_update) proc"
proof (cases "rule_get_type r = 0 \<or> rule_get_class r = 0")
  case True
  then show ?thesis
    using assms failed by (simp add: rule_sql_commit_def Let_def)
next
  case False
  define mechs where "mechs = (if rule_get_class r = RC_USER \<or> rule_get_class r = RC_MECHANISM then
      (case validate_mechanisms env w (ru_mechanisms r) d of (ok, ms, db') \<Rightarrow> (ok, rule_set_mechanisms ms r, db'))
    else (True, r, d))"
  obtain ok1 r0 d1 where mechs: "mechs = (ok1, r0, d1)"
    by (cases mechs)
  define dels where "dels = (if ok1 \<and> rule_get_class r = RC_RULE then
      (case validate_delegates depth (ru_delegations r0) d1 of (ok, ds) \<Rightarrow> (ok, rule_set_delegations ds r0))
    else (ok1, r0))"
  obtain ok2 r1 where dels: "dels = (ok2, r1)"
    by (cases dels)
  have d1: "mechs_only d d1" "ru_data r0 = ru_data r"
    using mechs validate_mechanisms_only by (auto simp: mechs_def split: if_splits prod.splits)
  have r1: "ru_data r1 = ru_data r"
    using dels d1(2) by (auto simp: dels_def split: if_splits prod.splits)
  define r2 where "r2 = rule_upd_data (\<lambda>d. pd_set_double d ''modified'' modified) r1"
  obtain u d2 r3 ins where tr: "rule_commit_transaction env r2 modified proc d1 = (u, d2, r3, ins)"
    by (cases "rule_commit_transaction env r2 modified proc d1")
  have eq: "rule_sql_commit env w show_pid depth r d modified proc =
      (if \<not> ok2 then (False, d1, r1)
       else if u then (True, rule_log_manipulation env w show_pid d2 r3 (if ins then rule_insert else rule_update) proc, r3)
       else (False, d1, r3))"
    using False unfolding rule_sql_commit_def Let_def mechs_def [symmetric]
    by (simp add: mechs dels_def [symmetric] dels r2_def [symmetric] authdb_transaction_def tr)
  show ?thesis
  proof (cases "ok2 \<and> u")
    case True
    then show ?thesis
      using assms committed [of d1 r2 d2 ins] d1 r1 tr eq by (auto simp: r2_def)
  next
    case False
    then show ?thesis
      using assms failed d1(1) eq by (auto split: if_splits)
  qed
qed

lemma mechs_onlyD: "mechs_only d d' \<Longrightarrow> db_grows d d' \<and> db_rules d' = db_rules d \<and> db_config d' = db_config d \<and>
    db_history d' = db_history d \<and> db_rules_seq d' = db_rules_seq d"
  by (auto simp: mechs_only_def)

lemma rule_log_manipulation_simps [simp]:
  "db_keys (rule_log_manipulation env w show_pid d r oper src) = db_keys d"
  "db_rules (rule_log_manipulation env w show_pid d r oper src) = db_rules d"
  "db_mechanisms (rule_log_manipulation env w show_pid d r oper src) = db_mechanisms d"
  "db_mechanisms_map (rule_log_manipulation env w show_pid d r oper src) = db_mechanisms_map d"
  "db_delegates_map (rule_log_manipulation env w show_pid d r oper src) = db_delegates_map d"
  by (simp_all add: rule_log_manipulation_def db_keys_def Let_def split: option.split)

lemma rule_sql_commit_keys:
  assumes "db_keys d" "rule_sql_commit env w show_pid depth r d modified proc = (ok, d', r')"
  shows "db_keys d'"
  using assms(2)
proof (cases rule: rule_sql_commit_cases)
  case failed
  then show ?thesis
    using assms(1) db_grows_keys mechs_onlyD by blast
next
  case (committed d1 r1 d2 ins)
  then have "db_keys d1"
    using assms(1) db_grows_keys mechs_onlyD by blast
  then show ?thesis
    using committed(4,5) rule_commit_transaction_keys by simp
qed

lemma delete_rule_row_keys: "db_keys d \<Longrightarrow> db_keys (delete_rule_row i d)"
  by (fastforce simp: db_keys_def delete_rule_row_def list_all_iff)

text \<open>C26. A commit that fails for any reason, a mechanism that gets no identifier, a delegate that is not in
  the database, a constraint of the schema or a foreign key, leaves the rules, the maps, the localized
  texts, the configuration and the history as they were; only mechanisms may have been added.\<close>

theorem rule_sql_commit_failure:
  "case rule_sql_commit env w show_pid depth r d modified proc of (ok, d', r') \<Rightarrow>
     ok \<or> d' = d\<lparr> db_mechanisms := db_mechanisms d', db_mechanisms_seq := db_mechanisms_seq d' \<rparr>"
proof (cases "rule_sql_commit env w show_pid depth r d modified proc")
  case (fields ok d' r')
  then show ?thesis
  proof (cases rule: rule_sql_commit_cases)
    case failed
    then show ?thesis
      using fields by (auto simp: mechs_only_def)
  next
    case (committed d1 r1 d2 ins)
    then show ?thesis
      using fields by simp
  qed
qed

section \<open>The order of the maps\<close>

lemma map_ord_zip: "length ts = k \<Longrightarrow> map (\<lambda>(r, t, ord). ord) (zip (replicate k i) (zip ts [n..<n + k])) = [n..<n + k]"
proof -
  assume k: "length ts = k"
  have "map (\<lambda>(r, t, ord). ord) (zip (replicate k i) (zip ts [n..<n + k])) =
      map snd (map snd (zip (replicate k i) (zip ts [n..<n + k])))"
    by (simp add: case_prod_beta)
  also have "\<dots> = [n..<n + k]"
    using k by (simp only: map_snd_zip length_replicate length_zip length_upt diff_add_inverse min.idem)
  finally show ?thesis .
qed

lemma filter_row_id:
  "distinct (map row_id rows) \<Longrightarrow> has_row rows t \<Longrightarrow> map row_id (filter (\<lambda>row. row_id row = t) rows) = [t]"
proof (induction rows)
  case Nil
  then show ?case by simp
next
  case (Cons r rows)
  have "filter (\<lambda>row. row_id row = t) rows = []" if "row_id r = t"
    unfolding filter_empty_conv using Cons.prems(1) that by (metis distinct.simps(2) image_eqI list.set_map list.simps(9))
  then show ?case
    using Cons by (cases "row_id r = t") auto
qed

lemma map_row_id_concat:
  assumes "distinct (map row_id rows)" "list_all (has_row rows) ts" "length ts = length ns"
  shows "map row_id (concat (map (\<lambda>(r, t, ord). filter (\<lambda>row. row_id row = t) rows) (zip (replicate (length ts) i) (zip ts ns)))) = ts"
  using assms(2,3)
proof (induction ts ns rule: list_induct2')
  case (4 t ts n ns)
  then show ?case
    using filter_row_id [OF assms(1)] by simp
qed simp_all

lemma join_map_inserted:
  assumes "distinct (map row_id rows)" "sql_insert_map valid i ts 0 (filter (\<lambda>(r, _). r \<noteq> i) m) = (True, m')"
    "\<And>t. valid t \<Longrightarrow> has_row rows t"
  shows "map row_id (join_map rows m' i) = ts"
    "j \<noteq> i \<Longrightarrow> join_map rows m' j = join_map rows m j"
proof -
  let ?new = "zip (replicate (length ts) i) (zip ts [0..<0 + length ts])"
  have m': "m' = filter (\<lambda>(r, _). r \<noteq> i) m @ ?new" and valid: "list_all valid ts"
    using sql_insert_map_spec [OF assms(2)] by auto
  have old: "filter (\<lambda>(r, t, ord). r = i) (filter (\<lambda>(r, _). r \<noteq> i) m) = []"
    by (auto simp: filter_empty_conv)
  have new: "filter (\<lambda>(r, t, ord). r = i) ?new = ?new"
    by (rule filter_True) (auto dest: set_zip_leftD)
  have "sort_key (\<lambda>(r, t, ord). ord) ?new = ?new"
    by (rule sort_key_id_if_sorted) (simp only: map_ord_zip sorted_upt)
  then have "join_map rows m' i = concat (map (\<lambda>(r, t, ord). filter (\<lambda>row. row_id row = t) rows) ?new)"
    by (simp only: join_map_def m' filter_append old new append_Nil)
  then show "map row_id (join_map rows m' i) = ts"
    using map_row_id_concat [OF assms(1), of ts "[0..<length ts]" i] valid assms(3) by (simp add: list_all_iff)
  assume "j \<noteq> i"
  then have "filter (\<lambda>(r, t, ord). r = j) ?new = []"
    by (auto simp: filter_empty_conv dest: set_zip_leftD)
  moreover have "filter (\<lambda>(r, t, ord). r = j) (filter (\<lambda>(r, _). r \<noteq> i) m) = filter (\<lambda>(r, t, ord). r = j) m"
    using \<open>j \<noteq> i\<close> unfolding filter_filter by (intro filter_cong) auto
  ultimately show "join_map rows m' j = join_map rows m j"
    by (simp only: join_map_def m' filter_append append_Nil2)
qed

text \<open>C27. The maps keep the order of a rule: once the mechanisms of a rule are committed, the join that fetches
  them gives their rows in the order of the rule, each once for every mention, and the same holds of its
  delegates; the mechanisms and the delegates of every other rule are what they were.\<close>

theorem commit_maps_order:
  assumes "distinct (map row_id (db_mechanisms d))" "distinct (map row_id (db_rules d))"
  shows "(fst (sql_commit_mechanisms_map r d) \<longrightarrow>
      map row_id (select_mechanisms (snd (sql_commit_mechanisms_map r d)) (rule_get_id r)) = map mechanism_get_id (ru_mechanisms r) \<and>
      (\<forall>j. j \<noteq> rule_get_id r \<longrightarrow> select_mechanisms (snd (sql_commit_mechanisms_map r d)) j = select_mechanisms d j)) \<and>
    (fst (sql_commit_delegates_map r d) \<longrightarrow>
      map row_id (select_delegates (snd (sql_commit_delegates_map r d)) (rule_get_id r)) = map rule_get_id (ru_delegations r) \<and>
      (\<forall>j. j \<noteq> rule_get_id r \<longrightarrow> select_delegates (snd (sql_commit_delegates_map r d)) j = select_delegates d j))"
proof (intro conjI impI)
  assume ok: "fst (sql_commit_mechanisms_map r d)"
  then obtain m where m: "sql_insert_map (\<lambda>t. has_row (db_rules d) (rule_get_id r) \<and> has_row (db_mechanisms d) t) (rule_get_id r)
      (map mechanism_get_id (ru_mechanisms r)) 0 (filter (\<lambda>(r_id, _). r_id \<noteq> rule_get_id r) (db_mechanisms_map d)) = (True, m)"
    by (auto simp: sql_commit_mechanisms_map_def Let_def split: prod.splits)
  note join = join_map_inserted [OF assms(1) m]
  show "map row_id (select_mechanisms (snd (sql_commit_mechanisms_map r d)) (rule_get_id r)) = map mechanism_get_id (ru_mechanisms r)"
    "\<forall>j. j \<noteq> rule_get_id r \<longrightarrow> select_mechanisms (snd (sql_commit_mechanisms_map r d)) j = select_mechanisms d j"
    using join by (simp_all add: sql_commit_mechanisms_map_def m select_mechanisms_def)
next
  assume ok: "fst (sql_commit_delegates_map r d)"
  then obtain m where m: "sql_insert_map (\<lambda>t. has_row (db_rules d) (rule_get_id r) \<and> has_row (db_rules d) t) (rule_get_id r)
      (map rule_get_id (ru_delegations r)) 0 (filter (\<lambda>(r_id, _). r_id \<noteq> rule_get_id r) (db_delegates_map d)) = (True, m)"
    by (auto simp: sql_commit_delegates_map_def Let_def split: prod.splits)
  note join = join_map_inserted [OF assms(2) m]
  show "map row_id (select_delegates (snd (sql_commit_delegates_map r d)) (rule_get_id r)) = map rule_get_id (ru_delegations r)"
    "\<forall>j. j \<noteq> rule_get_id r \<longrightarrow> select_delegates (snd (sql_commit_delegates_map r d)) j = select_delegates d j"
    using join by (simp_all add: sql_commit_delegates_map_def m select_delegates_def)
qed

theorem commit_maps_order_witness:
  "let r = rule_set_delegations [rule_create_with_sql (parse_row (sample_rule_row 2 ''b'' RC_ALLOW)),
       rule_create_with_sql (parse_row (sample_rule_row 1 ''a'' RC_RULE)), rule_create_with_sql (parse_row (sample_rule_row 2 ''b'' RC_ALLOW))]
       (rule_create_with_sql (parse_row (sample_rule_row 1 ''a'' RC_RULE)))
   in map row_id (select_delegates (snd (sql_commit_delegates_map r chain_db)) 1) = [2, 1, 2]"
proof -
  have ok: "rule_row_ok chain_db (sample_rule_row 1 ''a'' RC_RULE)" "rule_row_ok chain_db (sample_rule_row 2 ''b'' RC_ALLOW)"
    using sample_dbs_ok(2) by (simp_all add: rules_ok_def chain_db_def)
  note id = rule_of_row(2) [OF ok(1)] rule_of_row(2) [OF ok(2)]
  let ?a = "rule_create_with_sql (parse_row (sample_rule_row 1 ''a'' RC_RULE))"
  let ?b = "rule_create_with_sql (parse_row (sample_rule_row 2 ''b'' RC_ALLOW))"
  let ?r = "rule_set_delegations [?b, ?a, ?b] ?a"
  have dist: "distinct (map row_id (db_mechanisms chain_db))" "distinct (map row_id (db_rules chain_db))"
    by (simp_all add: chain_db_def db_initial_def sample_rule_row)
  have "fst (sql_commit_delegates_map ?r chain_db)"
    by (simp add: sql_commit_delegates_map_def Let_def id sample_rule_row chain_db_def db_initial_def split: prod.split)
  then show ?thesis
    using commit_maps_order [OF dist, of ?r] by (simp add: id sample_rule_row Let_def)
qed

end
