(* ===== verification/Engine_State.thy ===== *)
theory Engine_State
  imports Daemon Rule_Commit
begin

text \<open>
  The state an authorization runs in: the engine of \<^verbatim>\<open>src/OSX/authd/engine.c\<close> with its agents
  (\<^verbatim>\<open>agent.c\<close>) next to the state of the daemon, and what both ask of the system beyond \<^typ>\<open>'w env\<close>: the
  SecurityAgent processes that run mechanisms, local authentication, smart cards, passwords, power.

  The dictionaries of items of an engine, the two local ones of \<^verbatim>\<open>_evaluate_mechanisms\<close> included, share
  the daemon's store of items, as copies between them share items.
\<close>

unbundle bit_operations_syntax

section \<open>Results\<close>

datatype osstatus = errAuthorizationSuccess | errAuthorizationInvalidSet | errAuthorizationInvalidRef |
  errAuthorizationInvalidTag | errAuthorizationInvalidPointer | errAuthorizationDenied | errAuthorizationCanceled |
  errAuthorizationInteractionNotAllowed | errAuthorizationInternal | errAuthorizationExternalizeNotAllowed |
  errAuthorizationInternalizeNotAllowed | errAuthorizationInvalidFlags | errAuthorizationBadAddress | errSecInternalError

abbreviation kAuthorizationResultAllow :: "64 word" where "kAuthorizationResultAllow \<equiv> 0"
abbreviation kAuthorizationResultDeny :: "64 word" where "kAuthorizationResultDeny \<equiv> 1"
abbreviation kAuthorizationResultUndefined :: "64 word" where "kAuthorizationResultUndefined \<equiv> 2"
abbreviation kAuthorizationResultUserCanceled :: "64 word" where "kAuthorizationResultUserCanceled \<equiv> 3"

abbreviation kAuthorizationContextFlagExtractable :: "32 word" where "kAuthorizationContextFlagExtractable \<equiv> 1"
abbreviation kAuthorizationContextFlagVolatile :: "32 word" where "kAuthorizationContextFlagVolatile \<equiv> 2"
abbreviation kAuthorizationContextFlagSticky :: "32 word" where "kAuthorizationContextFlagSticky \<equiv> 4"
abbreviation kEngineHintsFlagTemporary :: "32 word" where "kEngineHintsFlagTemporary \<equiv> 1073741824"

text \<open>\<^verbatim>\<open>enum Reason\<close>, as far as the engine gives one.\<close>

abbreviation noReason :: "32 word" where "noReason \<equiv> 0"
abbreviation unknownReason :: "32 word" where "unknownReason \<equiv> 1"
abbreviation invalidPassphrase :: "32 word" where "invalidPassphrase \<equiv> 21"
abbreviation userNotInGroup :: "32 word" where "userNotInGroup \<equiv> 41"
abbreviation unacceptableUser :: "32 word" where "unacceptableUser \<equiv> 42"
abbreviation tooManyTries :: "32 word" where "tooManyTries \<equiv> 61"
abbreviation worldChanged :: "32 word" where "worldChanged \<equiv> 101"

section \<open>Agents\<close>

datatype plugin_state = PS_init | PS_created | PS_current | PS_deactivating | PS_active | PS_interrupting |
  PS_mechinterrupting | PS_dead

datatype agent_service = Security_Agent "32 word" | Loginwindow_Agent "32 word" | Auth_Host "32 word"

record agent =
  ag_hints :: auth_items
  ag_context :: auth_items
  ag_mech :: mechanism
  ag_pluginState :: plugin_state
  ag_status :: "64 word"
  ag_service :: agent_service
  ag_switch :: bool
  ag_agentPid :: "32 word"

text \<open>What comes back for a message that is sent with a reply, and what may happen while the engine waits
  for it: an agent asks to interrupt the evaluation, or the client dismisses it.\<close>

datatype agent_reply = Agent_Message xpc | Agent_Invalid | Agent_Interrupted | Agent_Error

datatype agent_event = Ev_Interrupt nat | Ev_Dismiss

section \<open>The environment of an engine\<close>

text \<open>\<^term>\<open>ee_la_passcode\<close> is what \<^verbatim>\<open>LACopyCredential\<close> returns: nothing, data without bytes, or data.
  \<^term>\<open>ee_plist_db\<close> is the database in memory, as \<^verbatim>\<open>authdb_maintenance\<close> fills it; \<^term>\<open>ee_self_authorize\<close> the call of
  \<^verbatim>\<open>AuthorizationCreate\<close> through the client's library.  \<^term>\<open>ee_uninit\<close> is what is found in a variable that was not written.\<close>

record 'w eenv = "'w env" +
  ee_send :: "'w \<Rightarrow> nat \<Rightarrow> xpc \<Rightarrow> agent_reply \<times> agent_event list \<times> 'w"
  ee_post :: "'w \<Rightarrow> nat \<Rightarrow> xpc \<Rightarrow> 'w"
  ee_uninit :: "'w \<Rightarrow> 32 word"
  ee_secure_token :: "'w \<Rightarrow> string option \<Rightarrow> bool"
  ee_smartcard :: "'w \<Rightarrow> string \<Rightarrow> 32 word"
  ee_checkpw :: "'w \<Rightarrow> passwd \<Rightarrow> string \<Rightarrow> bool"
  ee_dark_wake :: "'w \<Rightarrow> bool"
  ee_system_update :: "'w \<Rightarrow> bool"
  ee_sandbox_right :: "'w \<Rightarrow> string \<Rightarrow> string \<Rightarrow> bool"
  ee_self_authorize :: "'w \<Rightarrow> osstatus \<times> 'w"
  ee_plist_db :: "'w \<Rightarrow> db option"
  ee_utf8 :: "string \<Rightarrow> bool"
  ee_la_create :: "'w \<Rightarrow> 32 word \<Rightarrow> string \<Rightarrow> nat option"
  ee_la_result :: "'w \<Rightarrow> nat \<Rightarrow> bool"
  ee_la_passcode :: "'w \<Rightarrow> nat \<Rightarrow> string option option"
  ee_graphic_access :: "64 word"
  ee_has_authenticated :: "64 word"

section \<open>Engines\<close>

record engine =
  en_conn :: nat
  en_proc :: nat
  en_auth :: nat
  en_flags :: "32 word"
  en_hints :: auth_items
  en_context :: auth_items
  en_sticky_context :: auth_items
  en_immutable_hints :: auth_items
  en_grantedRights :: auth_rights
  en_la_context :: "nat option"
  en_credentialsProvided :: bool
  en_reason :: "32 word"
  en_tries :: "32 word"
  en_now :: real
  en_sessionCredential :: nat
  en_credentials :: "nat list"
  en_effectiveCredentials :: "nat list"
  en_mechanism_agents :: "(mechanism \<times> nat) list"
  en_currentRightName :: string
  en_authenticateRule :: "rule option"
  en_dismissed :: bool

record 'w machine =
  ms_en :: engine
  ms_d :: "'w daemon"
  ms_agents :: "agent list"
  ms_lcontext :: auth_items
  ms_lhints :: auth_items
  ms_save_pwd :: bool

section \<open>Access to items\<close>

datatype bag = Hints | Context | Sticky_Context | Immutable_Hints | Local_Context | Local_Hints

fun bag_get :: "bag \<Rightarrow> 'w machine \<Rightarrow> auth_items" where
  "bag_get Hints s = en_hints (ms_en s)"
| "bag_get Context s = en_context (ms_en s)"
| "bag_get Sticky_Context s = en_sticky_context (ms_en s)"
| "bag_get Immutable_Hints s = en_immutable_hints (ms_en s)"
| "bag_get Local_Context s = ms_lcontext s"
| "bag_get Local_Hints s = ms_lhints s"

definition upd_en :: "(engine \<Rightarrow> engine) \<Rightarrow> 'w machine \<Rightarrow> 'w machine" where
  "upd_en f s = s\<lparr> ms_en := f (ms_en s) \<rparr>"

definition upd_d :: "('w daemon \<Rightarrow> 'w daemon) \<Rightarrow> 'w machine \<Rightarrow> 'w machine" where
  "upd_d f s = s\<lparr> ms_d := f (ms_d s) \<rparr>"

fun bag_set :: "bag \<Rightarrow> auth_items \<Rightarrow> 'w machine \<Rightarrow> 'w machine" where
  "bag_set Hints i s = upd_en (\<lambda>e. e\<lparr> en_hints := i \<rparr>) s"
| "bag_set Context i s = upd_en (\<lambda>e. e\<lparr> en_context := i \<rparr>) s"
| "bag_set Sticky_Context i s = upd_en (\<lambda>e. e\<lparr> en_sticky_context := i \<rparr>) s"
| "bag_set Immutable_Hints i s = upd_en (\<lambda>e. e\<lparr> en_immutable_hints := i \<rparr>) s"
| "bag_set Local_Context i s = s\<lparr> ms_lcontext := i \<rparr>"
| "bag_set Local_Hints i s = s\<lparr> ms_lhints := i \<rparr>"

definition ms_world :: "'w machine \<Rightarrow> 'w" where
  "ms_world s = dm_world (ms_d s)"

definition ms_items :: "'w machine \<Rightarrow> items_heap" where
  "ms_items s = dm_items (ms_d s)"

definition set_heap :: "items_heap \<Rightarrow> 'w machine \<Rightarrow> 'w machine" where
  "set_heap h s = upd_d (\<lambda>d. d\<lparr> dm_items := h \<rparr>) s"

text \<open>A setter and a getter of \<^verbatim>\<open>authitems.c\<close> on one of the dictionaries.\<close>

definition bag_put :: "bag \<Rightarrow> (items_heap \<Rightarrow> auth_items \<Rightarrow> items_heap \<times> auth_items) \<Rightarrow> 'w machine \<Rightarrow> 'w machine" where
  "bag_put b f s = (case f (ms_items s) (bag_get b s) of (h, i) \<Rightarrow> bag_set b i (set_heap h s))"

definition bag_read :: "bag \<Rightarrow> (items_heap \<Rightarrow> auth_items \<Rightarrow> 'a \<times> items_heap) \<Rightarrow> 'w machine \<Rightarrow> 'a \<times> 'w machine" where
  "bag_read b f s = (case f (ms_items s) (bag_get b s) of (v, h) \<Rightarrow> (v, set_heap h s))"

definition put_string :: "bag \<Rightarrow> string \<Rightarrow> string \<Rightarrow> 'w machine \<Rightarrow> 'w machine" where
  "put_string b k v = bag_put b (\<lambda>h i. auth_items_set_string h i k v)"

definition put_data :: "bag \<Rightarrow> string \<Rightarrow> string \<Rightarrow> 'w machine \<Rightarrow> 'w machine" where
  "put_data b k v = bag_put b (\<lambda>h i. auth_items_set_data h i k v)"

definition put_int :: "bag \<Rightarrow> string \<Rightarrow> 32 word \<Rightarrow> 'w machine \<Rightarrow> 'w machine" where
  "put_int b k v = bag_put b (\<lambda>h i. auth_items_set_int h i k v)"

definition put_uint :: "bag \<Rightarrow> string \<Rightarrow> 32 word \<Rightarrow> 'w machine \<Rightarrow> 'w machine" where
  "put_uint b k v = bag_put b (\<lambda>h i. auth_items_set_uint h i k v)"

definition put_int64 :: "bag \<Rightarrow> string \<Rightarrow> 64 word \<Rightarrow> 'w machine \<Rightarrow> 'w machine" where
  "put_int64 b k v = bag_put b (\<lambda>h i. auth_items_set_int64 h i k v)"

definition put_bool :: "bag \<Rightarrow> string \<Rightarrow> bool \<Rightarrow> 'w machine \<Rightarrow> 'w machine" where
  "put_bool b k v = bag_put b (\<lambda>h i. auth_items_set_bool h i k v)"

definition put_flags :: "bag \<Rightarrow> string \<Rightarrow> 32 word \<Rightarrow> 'w machine \<Rightarrow> 'w machine" where
  "put_flags b k flags s = set_heap (auth_items_set_flags (ms_items s) (bag_get b s) k flags) s"

definition remove_key :: "bag \<Rightarrow> string \<Rightarrow> 'w machine \<Rightarrow> 'w machine" where
  "remove_key b k s = bag_set b (auth_items_remove (bag_get b s) k) s"

definition has_key :: "bag \<Rightarrow> string \<Rightarrow> 'w machine \<Rightarrow> bool" where
  "has_key b k s \<longleftrightarrow> auth_items_exist (bag_get b s) k"

definition get_string :: "bag \<Rightarrow> string \<Rightarrow> 'w machine \<Rightarrow> string option \<times> 'w machine" where
  "get_string b k = bag_read b (\<lambda>h i. auth_items_get_string h i k)"

definition get_uint :: "bag \<Rightarrow> string \<Rightarrow> 'w machine \<Rightarrow> 32 word \<times> 'w machine" where
  "get_uint b k = bag_read b (\<lambda>h i. auth_items_get_uint h i k)"

text \<open>\<^verbatim>\<open>auth_items_copy\<close> and its variant by flags, into a dictionary.\<close>

definition copy_items :: "bag \<Rightarrow> auth_items \<Rightarrow> 'w machine \<Rightarrow> 'w machine" where
  "copy_items b src s = bag_set b (auth_items_copy (ms_items s) (bag_get b s) src) s"

definition copy_items_with_flags :: "bag \<Rightarrow> auth_items \<Rightarrow> 32 word \<Rightarrow> 'w machine \<Rightarrow> 'w machine" where
  "copy_items_with_flags b src flags s = bag_set b (auth_items_copy_with_flags (ms_items s) (bag_get b s) src flags) s"

definition ms_crash :: "bool \<Rightarrow> 'w machine \<Rightarrow> 'w machine" where
  "ms_crash b s = upd_d (\<lambda>d. d\<lparr> dm_fault := dm_fault d \<or> b \<rparr>) s"

definition ms_fault :: "'w machine \<Rightarrow> bool" where
  "ms_fault s \<longleftrightarrow> dm_fault (ms_d s) \<or> hp_fault (ms_items s)"

section \<open>Objects\<close>

abbreviation "ms_token s \<equiv> dm_tokens (ms_d s) ! en_auth (ms_en s)"
abbreviation "ms_proc s \<equiv> dm_procs (ms_d s) ! en_proc (ms_en s)"
abbreviation "ms_session s \<equiv> dm_sessions (ms_d s) ! at_session (ms_token s)"
abbreviation "ms_cred s c \<equiv> dm_creds (ms_d s) ! c"

definition new_cred :: "credential \<Rightarrow> 'w machine \<Rightarrow> nat \<times> 'w machine" where
  "new_cred c s = (length (dm_creds (ms_d s)), upd_d (\<lambda>d. d\<lparr> dm_creds := dm_creds d @ [c] \<rparr>) s)"

definition upd_agent :: "nat \<Rightarrow> (agent \<Rightarrow> agent) \<Rightarrow> 'w machine \<Rightarrow> 'w machine" where
  "upd_agent a f s = s\<lparr> ms_agents := (ms_agents s)[a := f (ms_agents s ! a)] \<rparr>"

end
