(* ===== verification/Agent.thy ===== *)
theory Agent
  imports Engine_State
begin

text \<open>
  \<^verbatim>\<open>src/OSX/authd/agent.c\<close>: an agent is the daemon's end of a connection to the process that runs one
  mechanism, with a state of its own.  Requests are XPC messages to the environment; what happens while
  the engine waits for a reply (an agent interrupts the evaluation, the client dismisses it) takes
  effect before the reply is handled.  An action of the agent's queues is one step.
\<close>

unbundle bit_operations_syntax

section \<open>Messages\<close>

definition AUTH_XPC_REQUEST_METHOD_KEY :: string where "AUTH_XPC_REQUEST_METHOD_KEY = ''_agent_request_key''"
definition AUTH_XPC_REPLY_METHOD_KEY :: string where "AUTH_XPC_REPLY_METHOD_KEY = ''_agent_reply_key''"
definition AUTH_XPC_REPLY_RESULT_VALUE :: string where "AUTH_XPC_REPLY_RESULT_VALUE = ''_agent_reply_result_value''"

definition agent_request :: "string \<Rightarrow> (string \<times> xpc) list \<Rightarrow> xpc" where
  "agent_request meth args = XPC_Dict ((AUTH_XPC_REQUEST_METHOD_KEY, XPC_String meth) # args)"

text \<open>A reply without a method is compared all the same: NULL is passed to \<^verbatim>\<open>strcmp\<close>.\<close>

definition reply_is :: "xpc \<Rightarrow> string \<Rightarrow> bool" where
  "reply_is object meth \<longleftrightarrow> xpc_dictionary_get_string object AUTH_XPC_REPLY_METHOD_KEY = Some meth"

definition reply_null :: "xpc \<Rightarrow> bool" where
  "reply_null object \<longleftrightarrow> xpc_dictionary_get_string object AUTH_XPC_REPLY_METHOD_KEY = None"

definition post_agent :: "('w, 'z) eenv_scheme \<Rightarrow> nat \<Rightarrow> xpc \<Rightarrow> 'w machine \<Rightarrow> 'w machine" where
  "post_agent env a msg s = upd_d (\<lambda>d. d\<lparr> dm_world := ee_post env (dm_world d) a msg \<rparr>) s"

section \<open>Interrupts\<close>

definition agent_notify_interrupt :: "('w, 'z) eenv_scheme \<Rightarrow> nat \<Rightarrow> 'w machine \<Rightarrow> 'w machine" where
  "agent_notify_interrupt env a s =
     (let st = ag_pluginState (ms_agents s ! a)
      in if st = PS_current then post_agent env a (agent_request ''_agent_request_interrupt'' []) s
         else if st = PS_active then upd_agent a (\<lambda>g. g\<lparr> ag_pluginState := PS_mechinterrupting \<rparr>) s
         else s)"

definition agent_clear_interrupt :: "nat \<Rightarrow> 'w machine \<Rightarrow> 'w machine" where
  "agent_clear_interrupt a s =
     (if ag_pluginState (ms_agents s ! a) = PS_mechinterrupting
      then upd_agent a (\<lambda>g. g\<lparr> ag_pluginState := PS_active \<rparr>) s else s)"

definition agent_destroy :: "('w, 'z) eenv_scheme \<Rightarrow> nat \<Rightarrow> 'w machine \<Rightarrow> 'w machine" where
  "agent_destroy env a s =
     (if ag_pluginState (ms_agents s ! a) \<noteq> PS_dead
      then post_agent env a (agent_request ''_agent_request_destroy'' []) s else s)"

text \<open>\<^verbatim>\<open>engine_interrupt_agent\<close> and \<^verbatim>\<open>engine_destroy_agents\<close>: over the agents of the engine.\<close>

definition engine_interrupt_agent :: "('w, 'z) eenv_scheme \<Rightarrow> 'w machine \<Rightarrow> 'w machine" where
  "engine_interrupt_agent env s = fold (agent_notify_interrupt env) (map snd (en_mechanism_agents (ms_en s))) s"

definition engine_destroy_agents :: "('w, 'z) eenv_scheme \<Rightarrow> 'w machine \<Rightarrow> 'w machine" where
  "engine_destroy_agents env s =
     (let s = upd_en (\<lambda>e. e\<lparr> en_dismissed := True \<rparr>) s
      in fold (agent_destroy env) (map snd (en_mechanism_agents (ms_en s))) s)"

text \<open>The event handler of an agent's connection, for a message that asks to interrupt.\<close>

definition agent_interrupt_handler :: "('w, 'z) eenv_scheme \<Rightarrow> nat \<Rightarrow> 'w machine \<Rightarrow> 'w machine" where
  "agent_interrupt_handler env a s =
     (if ag_pluginState (ms_agents s ! a) = PS_dead then s
      else engine_interrupt_agent env (upd_agent a (\<lambda>g. g\<lparr> ag_pluginState := PS_interrupting \<rparr>) s))"

fun agent_handler :: "('w, 'z) eenv_scheme \<Rightarrow> agent_event \<Rightarrow> 'w machine \<Rightarrow> 'w machine" where
  "agent_handler env (Ev_Interrupt a) s = (if a < length (ms_agents s) then agent_interrupt_handler env a s else s)"
| "agent_handler env Ev_Dismiss s = engine_destroy_agents env s"

definition send_agent :: "('w, 'z) eenv_scheme \<Rightarrow> nat \<Rightarrow> xpc \<Rightarrow> 'w machine \<Rightarrow> agent_reply \<times> 'w machine" where
  "send_agent env a msg s =
     (case ee_send env (ms_world s) a msg of
        (reply, events, w) \<Rightarrow> (reply, fold (agent_handler env) events (upd_d (\<lambda>d. d\<lparr> dm_world := w \<rparr>) s)))"

section \<open>Creation\<close>

abbreviation AU_DEFAUDITID :: "32 word" where "AU_DEFAUDITID \<equiv> - 1"

text \<open>Which process is asked: the agent of the user, the agent of the login window, or the privileged host;
  the last two are handed the audit session and the bootstrap port.\<close>

definition agent_connect :: "('w, 'z) eenv_scheme \<Rightarrow> 'w \<Rightarrow> mechanism \<Rightarrow> audit_info \<Rightarrow> agent_service \<times> bool" where
  "agent_connect env w mech info =
     (let auid = (case env_auditon env w (au_asid info) of Some ai \<Rightarrow> aia_auid ai | None \<Rightarrow> ee_uninit env w)
      in if \<not> mechanism_is_privileged mech then
           (if auid \<noteq> AU_DEFAUDITID \<and> au_auid info \<noteq> AU_DEFAUDITID then (Security_Agent auid, False)
            else (Loginwindow_Agent (au_asid info), True))
         else (Auth_Host (au_asid info), True))"

definition agent_create_reply :: "nat \<Rightarrow> agent_reply \<Rightarrow> 'w machine \<Rightarrow> 'w machine" where
  "agent_create_reply a reply s =
     (case reply of
        Agent_Message object \<Rightarrow>
          if reply_is object ''_agent_reply_create'' then
            let st = xpc_dictionary_get_uint64 object AUTH_XPC_REPLY_RESULT_VALUE
            in upd_agent a (\<lambda>g. g\<lparr> ag_status := st,
                 ag_pluginState := (if st = kAuthorizationResultAllow then PS_created else PS_dead) \<rparr>) s
          else ms_crash (reply_null object) s
      | Agent_Invalid \<Rightarrow> upd_agent a (\<lambda>g. g\<lparr> ag_pluginState := PS_dead \<rparr>) s
      | Agent_Interrupted \<Rightarrow> s
      | Agent_Error \<Rightarrow> s)"

text \<open>The loop that repeats the request as long as the state is the initial one, for the first mechanism;
  it may be asked for ever.\<close>

fun agent_create_loop :: "nat \<Rightarrow> ('w, 'z) eenv_scheme \<Rightarrow> nat \<Rightarrow> xpc \<Rightarrow> bool \<Rightarrow> 'w machine \<Rightarrow> 'w machine option" where
  "agent_create_loop 0 env a msg firstMech s = None"
| "agent_create_loop (Suc n) env a msg firstMech s =
     (case send_agent env a msg s of
        (reply, s1) \<Rightarrow>
          let s2 = agent_create_reply a reply s1
          in if ag_pluginState (ms_agents s2 ! a) = PS_init \<and> firstMech
             then agent_create_loop n env a msg firstMech s2 else Some s2)"

definition agent_create :: "nat \<Rightarrow> ('w, 'z) eenv_scheme \<Rightarrow> mechanism \<Rightarrow> bool \<Rightarrow> 'w machine \<Rightarrow> (nat option \<times> 'w machine) option" where
  "agent_create n env mech firstMech s =
     (let (service, switch) = agent_connect env (ms_world s) mech (at_auditInfo (ms_token s));
          a = length (ms_agents s);
          agent = \<lparr> ag_hints = auth_items_create, ag_context = auth_items_create, ag_mech = mech, ag_pluginState = PS_init,
                    ag_status = 0, ag_service = service, ag_switch = switch, ag_agentPid = process_get_pid (ms_proc s) \<rparr>;
          msg = agent_request ''_agent_request_create''
            [(''_agent_plugin'', case mechanism_get_plugin mech of None \<Rightarrow> XPC_Null | Some p \<Rightarrow> XPC_String p),
             (''_agent_mechanism'', case mechanism_get_param mech of None \<Rightarrow> XPC_Null | Some p \<Rightarrow> XPC_String p)]
      in map_option (\<lambda>s'. (if ag_pluginState (ms_agents s' ! a) = PS_created then Some a else None, s'))
           (agent_create_loop n env a msg firstMech (s\<lparr> ms_agents := ms_agents s @ [agent] \<rparr>)))"

section \<open>Running\<close>

text \<open>\<^verbatim>\<open>auth_items_copy_xpc\<close> into the dictionaries of the agent.\<close>

definition agent_take_items :: "nat \<Rightarrow> xpc \<Rightarrow> 'w machine \<Rightarrow> 'w machine" where
  "agent_take_items a object s =
     (let g = ms_agents s ! a;
          (h1, ctx, _) = auth_items_copy_xpc (ms_items s) (ag_context g) (xpc_dictionary_get_value object ''_agent_context'');
          (h2, hints, _) = auth_items_copy_xpc h1 (ag_hints g) (xpc_dictionary_get_value object ''_agent_hints'')
      in upd_agent a (\<lambda>g. g\<lparr> ag_context := ctx, ag_hints := hints \<rparr>) (set_heap h2 s))"

definition agent_run_reply :: "nat \<Rightarrow> agent_reply \<Rightarrow> 'w machine \<Rightarrow> 'w machine" where
  "agent_run_reply a reply s =
     (case reply of
        Agent_Message object \<Rightarrow>
          if reply_is object ''_agent_reply_result'' then
            if ag_pluginState (ms_agents s ! a) = PS_current then
              upd_agent a (\<lambda>g. g\<lparr> ag_status := xpc_dictionary_get_uint64 object AUTH_XPC_REPLY_RESULT_VALUE,
                ag_pluginState := PS_active \<rparr>) (agent_take_items a object s)
            else s
          else ms_crash (reply_null object) s
      | Agent_Invalid \<Rightarrow> upd_agent a (\<lambda>g. g\<lparr> ag_pluginState := PS_dead \<rparr>) s
      | Agent_Interrupted \<Rightarrow> upd_agent a (\<lambda>g. g\<lparr> ag_pluginState := PS_dead \<rparr>) s
      | Agent_Error \<Rightarrow> s)"

definition agent_run ::
  "('w, 'z) eenv_scheme \<Rightarrow> nat \<Rightarrow> auth_items \<Rightarrow> auth_items \<Rightarrow> auth_items \<Rightarrow> 'w machine \<Rightarrow> 64 word \<times> 'w machine" where
  "agent_run env a hints context immutable_hints s =
     (let s' =
        (if ag_pluginState (ms_agents s ! a) \<noteq> PS_mechinterrupting then
           let h = ms_items s;
               msg = agent_request ''_agent_request_invoke''
                 [(''_agent_hints'', auth_items_export_xpc h hints), (''_agent_context'', auth_items_export_xpc h context),
                  (''_agent_immutable_hints'', auth_items_export_xpc h immutable_hints)];
               s1 = upd_agent a (\<lambda>g. g\<lparr> ag_pluginState := PS_current, ag_status := kAuthorizationResultUndefined,
                      ag_hints := auth_items_clear (ag_hints g), ag_context := auth_items_clear (ag_context g) \<rparr>) s
           in (case send_agent env a msg s1 of (reply, s2) \<Rightarrow> agent_run_reply a reply s2)
         else s)
      in (ag_status (ms_agents s' ! a), s'))"

definition agent_deactivate :: "('w, 'z) eenv_scheme \<Rightarrow> nat \<Rightarrow> 'w machine \<Rightarrow> 'w machine" where
  "agent_deactivate env a s =
     (if ag_pluginState (ms_agents s ! a) \<noteq> PS_dead then
        case send_agent env a (agent_request ''_agent_request_deactivate'' [])
               (upd_agent a (\<lambda>g. g\<lparr> ag_pluginState := PS_deactivating \<rparr>) s) of
          (reply, s1) \<Rightarrow>
            (case reply of
               Agent_Message object \<Rightarrow>
                 if reply_is object ''_agent_reply_deactivate'' then upd_agent a (\<lambda>g. g\<lparr> ag_pluginState := PS_active \<rparr>) s1
                 else ms_crash (reply_null object) s1
             | Agent_Invalid \<Rightarrow> upd_agent a (\<lambda>g. g\<lparr> ag_pluginState := PS_dead \<rparr>) s1
             | Agent_Interrupted \<Rightarrow> upd_agent a (\<lambda>g. g\<lparr> ag_pluginState := PS_dead \<rparr>) s1
             | Agent_Error \<Rightarrow> s1)
      else s)"

end
