(* ===== verification/Engine.thy ===== *)
theory Engine
  imports Agent
begin

text \<open>
  \<^verbatim>\<open>src/OSX/authd/engine.c\<close>, the part that evaluates one right: creation of the engine, the hints for
  the agents, credentials against rules, mechanisms, and the rules of every class.  A computation that
  may go on for ever (an agent that is asked again and again, mechanisms that interrupt each other, a
  rule with unlimited tries) takes the number of steps it may use and is \<^const>\<open>None\<close> when they do not
  suffice.  Log output and audit records are not modelled.
\<close>

unbundle bit_operations_syntax

section \<open>Creation and hints\<close>

definition set_process_hints :: "process \<Rightarrow> 'w machine \<Rightarrow> 'w machine" where
  "set_process_hints proc s =
     (let s = put_data Hints ''client-type'' (le_bytes 4 0x424E444C) s;
          s = put_int Hints ''client-pid'' (process_get_pid proc) s
      in put_uint Hints ''client-uid'' (process_get_uid proc) s)"

definition set_process_immutable_hints :: "process \<Rightarrow> 'w machine \<Rightarrow> 'w machine" where
  "set_process_immutable_hints proc s =
     (let s = put_bool Immutable_Hints ''client-apple-signed'' (process_apple_signed proc) s
      in put_bool Immutable_Hints ''client-firstparty-signed'' (process_firstparty_signed proc) s)"

definition set_auth_token_hints :: "('w, 'z) eenv_scheme \<Rightarrow> auth_token \<Rightarrow> 'w machine \<Rightarrow> 'w machine" where
  "set_auth_token_hints env auth s =
     (let s = put_string Hints ''client-path'' (at_code_url auth) s;
          s = put_int Hints ''creator-pid'' (auth_token_get_pid auth) s;
          info = at_auditInfo auth;
          s = put_data Hints ''creator-audit-token'' (au_opaqueToken info) s
      in case process_create env (ms_world s) info (at_session auth) of
           None \<Rightarrow> s
         | Some proc \<Rightarrow>
             put_bool Immutable_Hints ''creator-firstparty-signed'' (process_firstparty_signed proc)
               (put_bool Immutable_Hints ''creator-apple-signed'' (process_apple_signed proc) s))"

definition engine_new :: "nat \<Rightarrow> nat \<Rightarrow> nat \<Rightarrow> engine" where
  "engine_new conn proc auth = \<lparr> en_conn = conn, en_proc = proc, en_auth = auth, en_flags = 0,
     en_hints = auth_items_create, en_context = auth_items_create, en_sticky_context = auth_items_create,
     en_immutable_hints = auth_items_create, en_grantedRights = auth_rights_create, en_la_context = None,
     en_credentialsProvided = False, en_reason = noReason, en_tries = 0, en_now = 0, en_sessionCredential = 0,
     en_credentials = [], en_effectiveCredentials = [], en_mechanism_agents = [], en_currentRightName = [],
     en_authenticateRule = None, en_dismissed = False \<rparr>"

definition set_session :: "session \<Rightarrow> 'w machine \<Rightarrow> 'w machine" where
  "set_session ses s = upd_d (upd_session (at_session (ms_token s)) (\<lambda>_. ses)) s"

definition engine_create :: "('w, 'z) eenv_scheme \<Rightarrow> 'w daemon \<Rightarrow> nat \<Rightarrow> nat \<Rightarrow> 'w machine" where
  "engine_create env d conn auth =
     (let s = \<lparr> ms_en = engine_new conn (cn_proc (dm_conns d ! conn)) auth, ms_d = d, ms_agents = [], ms_lcontext = [],
                ms_lhints = [], ms_save_pwd = False \<rparr>;
          s = set_process_hints (ms_proc s) s;
          s = set_process_immutable_hints (ms_proc s) s;
          s = set_auth_token_hints env (ms_token s) s;
          s = upd_en (\<lambda>e. e\<lparr> en_now := env_now env (ms_world s) \<rparr>) s;
          s = set_session (snd (session_update env (ms_world s) (ms_session s))) s;
          (c, s) =
            (if isInFVUnlockOrRecovery env (ms_world s)
             then new_cred (fst (credential_create_fvunlock env (ms_world s) hp_empty [] True)) s
             else new_cred (credential_create env (ms_world s) (session_get_uid (ms_session s))) s);
          s = upd_en (\<lambda>e. e\<lparr> en_sessionCredential := c \<rparr>) s;
          eq = cred_eq (dm_creds (ms_d s));
          (_, eff, ok1) = session_credentials_iterate env (ms_world s) (ms_session s)
            (\<lambda>cred eff. (True, cfset_add eq eff cred)) [];
          (_, creds, ok2) = auth_token_credentials_iterate env (ms_world s) (ms_token s)
            (\<lambda>cred creds. (True, if \<not> cr_shared (ms_cred s cred) then cfset_add eq creds cred else creds)) []
      in ms_crash (\<not> ok1 \<or> \<not> ok2) (upd_en (\<lambda>e. e\<lparr> en_effectiveCredentials := eff, en_credentials := creds \<rparr>) s))"

definition set_right_hints :: "string \<Rightarrow> 'w machine \<Rightarrow> 'w machine" where
  "set_right_hints right s = put_string Hints ''authorize-right'' right s"

text \<open>A rule under evaluation has a name.\<close>

definition set_rule_hints :: "rule \<Rightarrow> 'w machine \<Rightarrow> 'w machine" where
  "set_rule_hints rule s =
     (let s = (case rule_get_name rule of None \<Rightarrow> ms_crash True s | Some n \<Rightarrow> put_string Hints ''authorize-rule'' n s);
          s = (case rule_get_group rule of
                 Some g \<Rightarrow> if rule_get_class rule = RC_USER then put_string Hints ''require-user-in-group'' g s
                           else remove_key Hints ''require-user-in-group'' s
               | None \<Rightarrow> remove_key Hints ''require-user-in-group'' s)
      in if rule_get_securetokenuser rule then put_bool Hints ''required-secure-token'' True s
         else remove_key Hints ''required-secure-token'' s)"

text \<open>The keys are printed into 128 bytes.\<close>

definition set_localization_hints :: "rule \<Rightarrow> 'w machine \<Rightarrow> 'w machine" where
  "set_localization_hints rule s =
     (let i = rule_get_id rule; dbase = dm_db (ms_d s);
          put = (\<lambda>prefix (r_id, lang, txt) s.
            let key = take 127 (prefix @ cstr lang)
            in put_flags Hints key kEngineHintsFlagTemporary (put_string Hints key (cstr txt) s));
          s = fold (put ''description'') (filter (\<lambda>(r_id, _). r_id = i) (db_prompts dbase)) s
      in fold (put ''button'') (filter (\<lambda>(r_id, _). r_id = i) (db_buttons dbase)) s)"

section \<open>Credentials\<close>

definition engine_set_credential :: "('w, 'z) eenv_scheme \<Rightarrow> nat \<Rightarrow> bool \<Rightarrow> 'w machine \<Rightarrow> 'w machine" where
  "engine_set_credential env cred shared s =
     (let put = (\<lambda>c s. upd_en (\<lambda>e. e\<lparr> en_credentials := cfset_set (cred_eq (dm_creds (ms_d s))) (en_credentials e) c \<rparr>) s);
          s = put cred s
      in if shared then
           (case new_cred (credential_create_with_credential env (ms_world s) (ms_cred s cred) True) s of (c, s) \<Rightarrow> put c s)
         else s)"

definition set_reason :: "bool \<Rightarrow> 32 word \<Rightarrow> 'w machine \<Rightarrow> 'w machine" where
  "set_reason want reason s = (if want then upd_en (\<lambda>e. e\<lparr> en_reason := reason \<rparr>) s else s)"

definition check_membership :: "('w, 'z) eenv_scheme \<Rightarrow> nat \<Rightarrow> string option \<Rightarrow> 'w machine \<Rightarrow> bool \<times> 'w machine" where
  "check_membership env c grp s =
     (case credential_check_membership env (ms_world s) (ms_cred s c) grp of
        (b, cred) \<Rightarrow> (b, upd_d (\<lambda>d. d\<lparr> dm_creds := (dm_creds d)[c := cred] \<rparr>) s))"

definition is_fvunlock_user_in_group :: "('w, 'z) eenv_scheme \<Rightarrow> rule \<Rightarrow> 'w machine \<Rightarrow> bool \<times> 'w machine" where
  "is_fvunlock_user_in_group env rule s =
     (if \<not> isInFVUnlockOrRecovery env (ms_world s) then (False, s)
      else if rule_get_group rule \<noteq> Some ''admin'' then (False, s)
      else case get_string Context ''fvadmin'' s of
             (None, s) \<Rightarrow> (False, s) | (Some data, s) \<Rightarrow> (data = ''1'', s))"

text \<open>\<^verbatim>\<open>_evaluate_user_credential_for_rule\<close>; \<^term>\<open>want\<close> says that the engine's reason is passed.\<close>

definition evaluate_user_credential_for_rule ::
  "('w, 'z) eenv_scheme \<Rightarrow> nat \<Rightarrow> rule \<Rightarrow> bool \<Rightarrow> bool \<Rightarrow> 'w machine \<Rightarrow> osstatus \<times> 'w machine" where
  "evaluate_user_credential_for_rule env c rule ignoreShared want s =
     (let cred = ms_cred s c; w = ms_world s; fv = isInFVUnlockOrRecovery env w
      in if rule_get_class rule \<noteq> RC_USER then (errAuthorizationDenied, s)
         else if \<not> cr_valid cred \<and> \<not> fv then (errAuthorizationDenied, set_reason want invalidPassphrase s)
         else if en_now (ms_en s) - cr_creationTime cred > real_of_int (sint (rule_get_timeout rule)) then
           (errAuthorizationDenied, set_reason want unknownReason s)
         else if \<not> ignoreShared \<and> \<not> rule_get_shared env w rule \<and> cr_shared cred then
           (errAuthorizationDenied, set_reason want unknownReason s)
         else if cr_uid cred = 0 then (errAuthorizationSuccess, s)
         else if rule_get_session_owner rule \<and> cr_uid cred = session_get_uid (ms_session s) then (errAuthorizationSuccess, s)
         else if \<not> fv \<and> rule_get_securetokenuser rule \<and> \<not> ee_secure_token env w (cr_name cred) then
           (errAuthorizationDenied, set_reason want unacceptableUser s)
         else case rule_get_group rule of
             None \<Rightarrow> (errAuthorizationDenied, if rule_get_session_owner rule then set_reason want unacceptableUser s else s)
           | Some g \<Rightarrow>
               if \<not> rule_get_authenticate_user rule \<and> rule_check_flags rule (RuleFlagEntitledAndGroup OR RuleFlagVPNEntitledAndGroup)
               then (errAuthorizationDenied, s)
               else (case check_membership env c (Some g) s of
                   (True, s) \<Rightarrow> (errAuthorizationSuccess, s)
                 | (False, s) \<Rightarrow>
                     (case is_fvunlock_user_in_group env rule s of
                        (True, s) \<Rightarrow> (errAuthorizationSuccess, s)
                      | (False, s) \<Rightarrow> (errAuthorizationDenied, set_reason want userNotInGroup s))))"

definition evaluate_credential_for_rule ::
  "('w, 'z) eenv_scheme \<Rightarrow> nat \<Rightarrow> rule \<Rightarrow> bool \<Rightarrow> bool \<Rightarrow> 'w machine \<Rightarrow> osstatus \<times> 'w machine" where
  "evaluate_credential_for_rule env c rule ignoreShared want s =
     (if at_least_privileged (ms_token s) then
        let cred = ms_cred s c
        in if cr_right cred \<and> cr_valid cred \<and> compare_string (Some (en_currentRightName (ms_en s))) (cr_name cred) then
             (if \<not> ignoreShared \<and> \<not> rule_get_shared env (ms_world s) rule \<and> cr_shared cred
              then (errAuthorizationDenied, set_reason want unknownReason s)
              else (errAuthorizationSuccess, s))
           else (errAuthorizationDenied, set_reason want unknownReason s)
      else evaluate_user_credential_for_rule env c rule ignoreShared want s)"

definition set_session_hints :: "('w, 'z) eenv_scheme \<Rightarrow> rule \<Rightarrow> 'w machine \<Rightarrow> 'w machine" where
  "set_session_hints env rule s =
     (case evaluate_user_credential_for_rule env (en_sessionCredential (ms_en s)) rule True False s of
        (status, s) \<Rightarrow>
          let cred = ms_cred s (en_sessionCredential (ms_en s));
              put = (\<lambda>k v s. case v of None \<Rightarrow> s | Some v \<Rightarrow> put_string Hints k v s)
          in if status = errAuthorizationSuccess
             then put ''suggested-realname'' (cr_realName cred) (put ''suggested-user'' (cr_name cred) s)
             else remove_key Hints ''suggested-realname'' (remove_key Hints ''suggested-user'' s))"

section \<open>Mechanisms\<close>

definition reason_bytes :: "32 word \<Rightarrow> string" where
  "reason_bytes reason = le_bytes 4 (unat reason)"

definition find_agent :: "mechanism \<Rightarrow> 'w machine \<Rightarrow> nat option" where
  "find_agent mech s =
     map_option snd (List.find (\<lambda>(k, a). mechanism_equal mech k \<and> mechanism_hash mech = mechanism_hash k)
       (en_mechanism_agents (ms_en s)))"

definition get_agent ::
  "nat \<Rightarrow> ('w, 'z) eenv_scheme \<Rightarrow> mechanism \<Rightarrow> bool \<Rightarrow> 'w machine \<Rightarrow> (nat option \<times> 'w machine) option" where
  "get_agent n env mech firstMech s =
     (case find_agent mech s of
        Some a \<Rightarrow> Some (Some a, s)
      | None \<Rightarrow>
          map_option (\<lambda>(r, s). case r of
              None \<Rightarrow> (None, s)
            | Some a \<Rightarrow> (Some a, upd_en (\<lambda>e. e\<lparr> en_mechanism_agents := en_mechanism_agents e @ [(mech, a)] \<rparr>) s))
            (agent_create n env mech firstMech s))"

definition evaluate_builtin_mechanism :: "mechanism \<Rightarrow> 'w machine \<Rightarrow> 64 word" where
  "evaluate_builtin_mechanism mech s =
     (if mechanism_get_type mech = kMechanismTypeEntitled \<and>
         auth_token_has_entitlement_for_right (dm_procs (ms_d s)) (ms_token s) (en_currentRightName (ms_en s))
      then kAuthorizationResultAllow else kAuthorizationResultDeny)"

text \<open>The first of the mechanisms before the \<^term>\<open>i\<close>-th whose agent asks to interrupt.\<close>

definition find_interrupting :: "mechanism list \<Rightarrow> nat \<Rightarrow> 'w machine \<Rightarrow> (nat \<times> nat) option" where
  "find_interrupting mechs i s =
     List.find (\<lambda>(j, a). ag_pluginState (ms_agents s ! a) = PS_interrupting)
       (List.map_filter (\<lambda>j. map_option (Pair j) (find_agent (mechs ! j) s)) [0..<i])"

definition copy_from_agent :: "nat \<Rightarrow> 'w machine \<Rightarrow> 'w machine" where
  "copy_from_agent a s =
     (let s = copy_items Local_Context (ag_context (ms_agents s ! a)) s
      in copy_items Local_Hints (ag_hints (ms_agents s ! a)) s)"

definition drop_empty_token :: "'w machine \<Rightarrow> 'w machine" where
  "drop_empty_token s =
     (case get_string Local_Hints ''token-name'' s of
        (t, s) \<Rightarrow> if t = Some [] then remove_key Local_Hints ''token-name'' s else s)"

text \<open>How one round of the loop over the mechanisms ends: with a result for the \<^term>\<open>i\<close>-th mechanism, with
  the loop going on at another mechanism, or with the loop left.\<close>

datatype mech_outcome = Mech_Result "64 word" | Mech_Restart nat | Mech_Interrupted nat | Mech_Failed

definition run_mechanism_agent ::
  "nat \<Rightarrow> ('w, 'z) eenv_scheme \<Rightarrow> mechanism list \<Rightarrow> nat \<Rightarrow> 'w machine \<Rightarrow> (mech_outcome \<times> 'w machine) option" where
  "run_mechanism_agent n env mechs i s =
     (case get_agent n env (mechs ! i) (i = 0) s of
        None \<Rightarrow> None
      | Some (None, s) \<Rightarrow> Some (Mech_Failed, s)
      | Some (Some a, s) \<Rightarrow> Some (
          case find_interrupting mechs i s of
            Some (j, a1) \<Rightarrow> (Mech_Restart j, copy_from_agent a1 (drop_empty_token s))
          | None \<Rightarrow>
              (case agent_run env a (ms_lhints s) (ms_lcontext s) (en_immutable_hints (ms_en s)) s of
                 (result, s) \<Rightarrow>
                   let s = copy_from_agent a s
                   in case find_interrupting mechs i s of
                        None \<Rightarrow> (Mech_Result result, drop_empty_token s)
                      | Some (j, a2) \<Rightarrow>
                          let s = copy_from_agent a2 (agent_deactivate env a s);
                              s = put_data Local_Hints ''reason'' (reason_bytes worldChanged) (drop_empty_token s)
                          in (Mech_Interrupted j, fold agent_clear_interrupt (map snd (en_mechanism_agents (ms_en s))) s))))"

text \<open>Whether an agent is to run for a mechanism; with a local authentication context the sheet has done
  the work of the two builtin ones.\<close>

definition sheet_step ::
  "('w, 'z) eenv_scheme \<Rightarrow> bool \<Rightarrow> bool \<Rightarrow> string \<Rightarrow> mechanism \<Rightarrow> bool \<Rightarrow> 64 word \<Rightarrow> 'w machine \<Rightarrow>
    bool \<times> bool \<times> 64 word \<times> 'w machine" where
  "sheet_step env apUsed laResult uname mech sheet result s =
     (let str = fst (mechanism_get_string mech);
          run = (\<not> (en_credentialsProvided (ms_en s) \<and> str = ''builtin:authenticate''))
      in if en_la_context (ms_en s) = None then (run, sheet, result, s)
         else if str = ''builtin:authenticate'' then
           let s = (if has_key Context ''sheet-uid'' s
                    then (case get_uint Context ''sheet-uid'' s of (uid, s) \<Rightarrow> put_uint Context ''uid'' uid s) else s)
           in (False, sheet \<or> \<not> (apUsed \<or> has_key Context ''password'' s), result, s)
         else if str = ''builtin:authenticate,privileged'' \<and> sheet then
           (False, sheet,
            if \<not> laResult \<or> ee_smartcard env (ms_world s) uname \<noteq> 0 then kAuthorizationResultDeny else result, s)
         else (run, sheet, result, s))"

fun mechanisms_loop ::
  "nat \<Rightarrow> ('w, 'z) eenv_scheme \<Rightarrow> bool \<Rightarrow> bool \<Rightarrow> string \<Rightarrow> mechanism list \<Rightarrow> nat \<Rightarrow> bool \<Rightarrow> 64 word \<Rightarrow> 'w machine \<Rightarrow>
    (64 word \<times> 'w machine) option" where
  "mechanisms_loop 0 env apUsed laResult uname mechs i sheet result s = None"
| "mechanisms_loop (Suc n) env apUsed laResult uname mechs i sheet result s =
     (if length mechs \<le> i then Some (result, s)
      else
        let mech = mechs ! i;
            go = (\<lambda>j sheet result s. if result = kAuthorizationResultAllow
                    then mechanisms_loop n env apUsed laResult uname mechs j sheet result s else Some (result, s))
        in if mechanism_get_type mech \<noteq> 0 then go (Suc i) sheet (evaluate_builtin_mechanism mech s) s
           else (case sheet_step env apUsed laResult uname mech sheet result s of
               (False, sheet, result, s) \<Rightarrow> go (Suc i) sheet result s
             | (True, sheet, result, s) \<Rightarrow>
                 (case run_mechanism_agent n env mechs i s of
                    None \<Rightarrow> None
                  | Some (Mech_Failed, s) \<Rightarrow> Some (kAuthorizationResultUndefined, s)
                  | Some (Mech_Restart j, s) \<Rightarrow> mechanisms_loop n env apUsed laResult uname mechs j sheet result s
                  | Some (Mech_Interrupted j, s) \<Rightarrow> go j sheet kAuthorizationResultAllow s
                  | Some (Mech_Result result, s) \<Rightarrow> go (Suc i) sheet result s)))"

text \<open>The user the sheet authenticated.\<close>

definition mechanisms_user :: "('w, 'z) eenv_scheme \<Rightarrow> bool \<Rightarrow> 'w machine \<Rightarrow> string option \<times> 'w machine" where
  "mechanisms_user env apUsed s =
     (if has_key Context ''sheet-uid'' s then
        (case get_uint Context ''sheet-uid'' s of
           (uid, s) \<Rightarrow> (if - 1 < sint uid then map_option pw_name (env_getpwuid env (ms_world s) uid) else None, s))
      else if apUsed then get_string Context ''ap-user-name'' s else get_string Context ''username'' s)"

text \<open>What is kept of the local context, by the result.\<close>

definition mechanisms_export :: "64 word \<Rightarrow> 'w machine \<Rightarrow> 'w machine" where
  "mechanisms_export result s =
     (let s = put_flags Local_Context ''ap-pam-service-name'' kAuthorizationContextFlagExtractable s;
          ext = kAuthorizationContextFlagExtractable OR kAuthorizationContextFlagVolatile;
          provided = en_credentialsProvided (ms_en s);
          s = (if result = kAuthorizationResultUserCanceled \<or> result = kAuthorizationResultAllow \<or> provided then
                 let s = put_flags Local_Context ''password'' kAuthorizationContextFlagVolatile s;
                     s = put_flags Local_Context ''username'' kAuthorizationContextFlagExtractable s;
                     s = copy_items_with_flags Context (ms_lcontext s) ext s
                 in copy_items_with_flags Context (ms_lcontext s)
                      (if provided then ext OR kAuthorizationContextFlagSticky else ext) s
               else s)
      in if result = kAuthorizationResultDeny then
           copy_items_with_flags Sticky_Context (ms_lcontext s) kAuthorizationContextFlagSticky
             (bag_set Sticky_Context (auth_items_clear (en_sticky_context (ms_en s))) s)
         else s)"

definition mechanisms_status :: "64 word \<Rightarrow> osstatus" where
  "mechanisms_status result =
     (if result = kAuthorizationResultDeny then errAuthorizationDenied
      else if result = kAuthorizationResultUserCanceled then errAuthorizationCanceled
      else if result = kAuthorizationResultAllow then errAuthorizationSuccess
      else errAuthorizationInternal)"

definition evaluate_mechanisms ::
  "nat \<Rightarrow> ('w, 'z) eenv_scheme \<Rightarrow> mechanism list \<Rightarrow> 'w machine \<Rightarrow> (osstatus \<times> 'w machine) option" where
  "evaluate_mechanisms n env mechs s =
     (let s = s\<lparr> ms_lcontext := auth_items_create, ms_lhints := auth_items_create \<rparr>;
          s = copy_items Local_Context (en_context (ms_en s)) s;
          s = copy_items Local_Hints (en_hints (ms_en s)) s;
          s = copy_items Local_Context (en_sticky_context (ms_en s)) s;
          laResult = (case en_la_context (ms_en s) of None \<Rightarrow> False | Some la \<Rightarrow> ee_la_result env (ms_world s) la);
          apUsed = has_key Context ''ap-pam-service-name'' s;
          (uname, s) = mechanisms_user env apUsed s;
          finish = (\<lambda>(result, s). (mechanisms_status result, mechanisms_export result s))
      in if en_la_context (ms_en s) \<noteq> None \<and> (case uname of None \<Rightarrow> True | Some u \<Rightarrow> \<not> ee_utf8 env u)
         then Some (finish (kAuthorizationResultDeny, s))
         else map_option finish
           (mechanisms_loop n env apUsed laResult (case uname of None \<Rightarrow> [] | Some u \<Rightarrow> u) mechs 0 False kAuthorizationResultAllow s))"

section \<open>Authentication\<close>

text \<open>A right granted to a least-privileged client becomes a credential of its own.\<close>

definition set_right_credential :: "('w, 'z) eenv_scheme \<Rightarrow> rule \<Rightarrow> 'w machine \<Rightarrow> 'w machine" where
  "set_right_credential env rule s =
     (case new_cred (credential_create_with_right env (ms_world s) (en_currentRightName (ms_en s))) s of
        (c, s) \<Rightarrow> engine_set_credential env c (rule_get_shared env (ms_world s) rule) s)"

definition set_session_attributes :: "('w, 'z) eenv_scheme \<Rightarrow> 64 word \<Rightarrow> 'w machine \<Rightarrow> 'w machine" where
  "set_session_attributes env flags s =
     (case session_set_attributes env (ms_world s) (ms_session s) flags of
        (ses, w) \<Rightarrow> upd_d (\<lambda>d. d\<lparr> dm_world := w \<rparr>) (set_session ses s))"

text \<open>The credential that successful mechanisms stand for.\<close>

definition authenticated_credential :: "('w, 'z) eenv_scheme \<Rightarrow> 'w machine \<Rightarrow> nat option \<times> 'w machine" where
  "authenticated_credential env s =
     (if isInFVUnlockOrRecovery env (ms_world s) \<and> has_key Context ''fvadmin'' s then
        (case credential_create_fvunlock env (ms_world s) (ms_items s) (en_context (ms_en s)) False of
           (cred, h) \<Rightarrow> (case new_cred cred (set_heap h s) of (c, s) \<Rightarrow> (Some c, s)))
      else if has_key Context ''uid'' s then
        (case get_uint Context ''uid'' s of
           (uid, s) \<Rightarrow> (case new_cred (credential_create env (ms_world s) uid) s of (c, s) \<Rightarrow> (Some c, s)))
      else (None, upd_en (\<lambda>e. e\<lparr> en_la_context := None \<rparr>) s))"

definition put_tries :: "'w machine \<Rightarrow> 'w machine" where
  "put_tries s =
     (let s = put_data Hints ''reason'' (reason_bytes (en_reason (ms_en s))) s
      in put_int Hints ''tries'' (en_tries (ms_en s)) s)"

text \<open>The user who authenticated satisfies the rule: the credentials are taken over.\<close>

definition accept_credential :: "('w, 'z) eenv_scheme \<Rightarrow> nat \<Rightarrow> rule \<Rightarrow> 'w machine \<Rightarrow> 'w machine" where
  "accept_credential env c rule s =
     (let s = engine_set_credential env c (rule_get_shared env (ms_world s) rule) s;
          s = (if at_least_privileged (ms_token s) then set_right_credential env rule s else s)
      in if cr_uid (ms_cred s c) = session_get_uid (ms_session s)
         then set_session_attributes env (ee_has_authenticated env) s else s)"

fun authentication_loop ::
  "nat \<Rightarrow> ('w, 'z) eenv_scheme \<Rightarrow> rule \<Rightarrow> mechanism list \<Rightarrow> 64 word \<Rightarrow> osstatus \<Rightarrow> 'w machine \<Rightarrow> (osstatus \<times> 'w machine) option" where
  "authentication_loop 0 env rule mechs ruleTries status s = None"
| "authentication_loop (Suc n) env rule mechs ruleTries status s =
     (if \<not> scast (en_tries (ms_en s)) <s ruleTries then Some (status, s)
      else (case evaluate_mechanisms n env mechs (put_tries s) of
          None \<Rightarrow> None
        | Some (status, s) \<Rightarrow>
            let again = (\<lambda>status s. authentication_loop n env rule mechs ruleTries status
                           (upd_en (\<lambda>e. e\<lparr> en_tries := en_tries e + 1 \<rparr>) s))
            in if status = errAuthorizationSuccess then
                 (case authenticated_credential env s of
                    (None, s) \<Rightarrow> again errAuthorizationDenied s
                  | (Some c, s) \<Rightarrow>
                      (case evaluate_user_credential_for_rule env c rule True True s of
                         (status, s) \<Rightarrow>
                           if status = errAuthorizationSuccess then Some (status, accept_credential env c rule s)
                           else again status s))
               else if status = errAuthorizationCanceled \<or> status = errAuthorizationInternal then Some (status, s)
               else if status = errAuthorizationDenied then
                 again status (upd_en (\<lambda>e. e\<lparr> en_reason := invalidPassphrase \<rparr>) s)
               else again status s))"

definition evaluate_authentication ::
  "nat \<Rightarrow> ('w, 'z) eenv_scheme \<Rightarrow> rule \<Rightarrow> 'w machine \<Rightarrow> (osstatus \<times> 'w machine) option" where
  "evaluate_authentication n env rule s =
     (let s = set_rule_hints rule s;
          s = (if \<not> isInFVUnlockOrRecovery env (ms_world s) then set_session_hints env rule s else s);
          mechs = (if ru_mechanisms rule \<noteq> [] then ru_mechanisms rule
                   else (case en_authenticateRule (ms_en s) of None \<Rightarrow> [] | Some r \<Rightarrow> ru_mechanisms r));
          s = ms_crash (ru_mechanisms rule = [] \<and> en_authenticateRule (ms_en s) = None) s
      in if mechs = [] then Some (errAuthorizationDenied, s)
         else
           let ruleTries = (if en_credentialsProvided (ms_en s) then 1 else rule_get_tries rule)
           in map_option (\<lambda>(status, s).
                (status,
                 if scast (en_tries (ms_en s)) = ruleTries
                 then put_tries (upd_en (\<lambda>e. e\<lparr> en_reason := tooManyTries \<rparr>) s) else s))
              (authentication_loop n env rule mechs ruleTries errAuthorizationDenied
                (upd_en (\<lambda>e. e\<lparr> en_tries := 0 \<rparr>) s)))"

section \<open>Rules\<close>

definition check_entitlement_for_rule :: "('w, 'z) eenv_scheme \<Rightarrow> rule \<Rightarrow> 'w machine \<Rightarrow> bool \<times> 'w machine" where
  "check_entitlement_for_rule env rule s =
     (let member = (\<lambda>s. case auth_token_get_credential env (ms_world s) (dm_creds (ms_d s)) (ms_token s) of
            (c, creds, auth) \<Rightarrow>
              check_membership env c (rule_get_group rule)
                (upd_d (\<lambda>d. upd_token (en_auth (ms_en s)) (\<lambda>_. auth) (d\<lparr> dm_creds := creds \<rparr>)) s));
          (entitled, s) =
            (if rule_check_flags rule RuleFlagEntitledAndGroup \<and>
                auth_token_has_entitlement_for_right (dm_procs (ms_d s)) (ms_token s) (en_currentRightName (ms_en s))
             then member s else (False, s))
      in if entitled then (True, s)
         else if rule_check_flags rule RuleFlagVPNEntitledAndGroup \<and>
            auth_token_copy_entitlement_value (dm_procs (ms_d s)) (ms_token s) ''com.apple.networking.vpn.configuration'' \<noteq> None
         then member s else (False, s))"

text \<open>The two searches for a credential that satisfies the rule, each left at the first success.\<close>

definition acquired_credential_step ::
  "('w, 'z) eenv_scheme \<Rightarrow> rule \<Rightarrow> nat \<Rightarrow> osstatus \<times> 'w machine \<Rightarrow> bool \<times> osstatus \<times> 'w machine" where
  "acquired_credential_step env rule c = (\<lambda>(status, s).
     let user = at_least_privileged (ms_token s) \<and> \<not> cr_right (ms_cred s c) \<and> cr_valid (ms_cred s c);
         (status, s) = (if user then evaluate_user_credential_for_rule env c rule False False s else (status, s))
     in if user \<and> status = errAuthorizationSuccess then (False, status, set_right_credential env rule s)
        else (case evaluate_credential_for_rule env c rule False False s of
            (status, s) \<Rightarrow> (status \<noteq> errAuthorizationSuccess, status, s)))"

definition effective_credential_step ::
  "('w, 'z) eenv_scheme \<Rightarrow> rule \<Rightarrow> nat \<Rightarrow> osstatus \<times> 'w machine \<Rightarrow> bool \<times> osstatus \<times> 'w machine" where
  "effective_credential_step env rule c = (\<lambda>(status, s).
     case evaluate_credential_for_rule env c rule False False s of
       (status, s) \<Rightarrow>
         if status = errAuthorizationSuccess then (False, status, engine_set_credential env c False s) else (True, status, s))"

definition evaluate_class_user ::
  "nat \<Rightarrow> ('w, 'z) eenv_scheme \<Rightarrow> rule \<Rightarrow> 'w machine \<Rightarrow> (osstatus \<times> 'w machine) option" where
  "evaluate_class_user n env rule s =
     (case check_entitlement_for_rule env rule s of
        (True, s) \<Rightarrow> Some (errAuthorizationSuccess, s)
      | (False, s) \<Rightarrow>
          if rule_get_allow_root rule \<and> auth_token_get_uid (ms_token s) = 0 then Some (errAuthorizationSuccess, s)
          else if \<not> rule_get_authenticate_user rule then Some
            (if \<not> isInFVUnlockOrRecovery env (ms_world s) then
               (case evaluate_user_credential_for_rule env (en_sessionCredential (ms_en s)) rule True False s of
                  (status, s) \<Rightarrow>
                    (if status = errAuthorizationSuccess then errAuthorizationSuccess else errAuthorizationDenied, s))
             else (errAuthorizationDenied, s))
          else
            let (_, status, s) = cf_iterate (acquired_credential_step env rule)
                  (env_order env (ms_world s) (en_credentials (ms_en s))) False (errAuthorizationDenied, s)
            in if status = errAuthorizationSuccess then Some (status, s)
            else
              let (_, status, s) = cf_iterate (effective_credential_step env rule)
                    (env_order env (ms_world s) (en_effectiveCredentials (ms_en s))) False (status, s);
                  flag = (\<lambda>f. en_flags (ms_en s) AND f \<noteq> 0);
                  (attributes, ses) = session_get_attributes env (ms_world s) (ms_session s)
              in if status = errAuthorizationSuccess then Some (status, s)
                 else if \<not> flag kAuthorizationFlagExtendRights then Some (errAuthorizationDenied, s)
                 else if flag kAuthorizationFlagPreAuthorize \<and> rule_get_timeout rule = 0 then Some (errAuthorizationSuccess, s)
                 else if en_credentialsProvided (ms_en s) then evaluate_authentication n env rule s
                 else if \<not> flag kAuthorizationFlagInteractionAllowed then Some (errAuthorizationInteractionNotAllowed, s)
                 else if attributes AND ee_graphic_access env = 0 then
                   Some (errAuthorizationInteractionNotAllowed, set_session ses s)
                 else if ee_dark_wake env (ms_world s) \<and> \<not> flag kAuthorizationFlagIgnoreDarkWake then
                   Some (errAuthorizationDenied, set_session ses s)
                 else evaluate_authentication n env rule (set_session ses s))"

text \<open>One try of the mechanisms of a rule, whose credential, if they give one, is taken as it is.\<close>

definition mechanism_try ::
  "nat \<Rightarrow> ('w, 'z) eenv_scheme \<Rightarrow> rule \<Rightarrow> 'w machine \<Rightarrow> (osstatus \<times> 'w machine) option" where
  "mechanism_try n env rule s =
     map_option (\<lambda>(status, s).
       (status,
        if status = errAuthorizationSuccess \<and> has_key Context ''uid'' s then
          (case get_uint Context ''uid'' s of
             (uid, s) \<Rightarrow> (case new_cred (credential_create env (ms_world s) uid) s of
               (c, s) \<Rightarrow>
                 let s = engine_set_credential env c (rule_get_shared env (ms_world s) rule) s;
                     s = (if at_least_privileged (ms_token s) then set_right_credential env rule s else s)
                 in if en_currentRightName (ms_en s) = ''system.login.console'' \<and> \<not> has_key Context ''auto-login'' s
                    then set_session_attributes env (ee_has_authenticated env) s else s))
        else s))
       (evaluate_mechanisms n env (ru_mechanisms rule) (put_tries s))"

fun mechanism_tries ::
  "nat \<Rightarrow> ('w, 'z) eenv_scheme \<Rightarrow> rule \<Rightarrow> 'w machine \<Rightarrow> (osstatus \<times> 'w machine) option" where
  "mechanism_tries 0 env rule s = None"
| "mechanism_tries (Suc n) env rule s =
     (case mechanism_try n env rule s of
        None \<Rightarrow> None
      | Some (status, s) \<Rightarrow>
          let s = upd_en (\<lambda>e. e\<lparr> en_tries := en_tries e + 1 \<rparr>) s; ruleTries = rule_get_tries rule
          in if status = errAuthorizationDenied \<and>
                (ruleTries = 0 \<or> 0 <s ruleTries \<and> scast (en_tries (ms_en s)) <s ruleTries)
             then mechanism_tries n env rule s else Some (status, s))"

definition evaluate_class_mechanism ::
  "nat \<Rightarrow> ('w, 'z) eenv_scheme \<Rightarrow> rule \<Rightarrow> 'w machine \<Rightarrow> (osstatus \<times> 'w machine) option" where
  "evaluate_class_mechanism n env rule s =
     (if ru_mechanisms rule = [] then Some (errAuthorizationSuccess, s)
      else if ee_dark_wake env (ms_world s) \<and> en_flags (ms_en s) AND kAuthorizationFlagIgnoreDarkWake = 0 \<and>
         list_ex (\<lambda>m. \<not> mechanism_is_privileged m) (ru_mechanisms rule)
      then Some (errAuthorizationDenied, s)
      else mechanism_tries n env rule (upd_en (\<lambda>e. e\<lparr> en_tries := 0 \<rparr>) s))"

text \<open>\<^verbatim>\<open>_evaluate_rule\<close> and the loop of \<^verbatim>\<open>_evaluate_class_rule\<close> over the delegates, in the release
  configuration, which denies what is not signed by Apple.\<close>

fun evaluate_rule :: "nat \<Rightarrow> ('w, 'z) eenv_scheme \<Rightarrow> rule \<Rightarrow> 'w machine \<Rightarrow> (osstatus \<times> 'w machine) option"
and evaluate_class_rule ::
  "nat \<Rightarrow> ('w, 'z) eenv_scheme \<Rightarrow> 64 word \<Rightarrow> 32 word \<Rightarrow> 32 word \<Rightarrow> 32 word \<Rightarrow> osstatus \<Rightarrow> rule list \<Rightarrow> 'w machine \<Rightarrow>
    (osstatus \<times> 'w machine) option" where
  "evaluate_rule n env (Rule data ms ds ps bs rd) s =
     (let rule = Rule data ms ds ps bs rd
      in if rule_check_flags rule RuleFlagEntitled \<and>
            auth_token_has_entitlement_for_right (dm_procs (ms_d s)) (ms_token s) (en_currentRightName (ms_en s))
         then Some (errAuthorizationSuccess, s)
         else if (en_la_context (ms_en s) \<noteq> None \<or> rule_check_flags rule RuleFlagRequireAppleSigned) \<and>
            \<not> at_appleSigned (ms_token s)
         then Some (errAuthorizationDenied, s)
         else
           let s = s\<lparr> ms_save_pwd := ms_save_pwd s \<or> rule_get_extract_password rule \<rparr>; cls = rule_get_class rule
           in if cls = RC_ALLOW then Some (errAuthorizationSuccess, s)
              else if cls = RC_DENY then Some (errAuthorizationDenied, s)
              else if cls = RC_USER then evaluate_class_user n env rule s
              else if cls = RC_RULE then
                evaluate_class_rule n env (rule_get_kofn rule) (of_nat (length ds)) 0 0 errAuthorizationDenied ds s
              else if cls = RC_MECHANISM then evaluate_class_mechanism n env rule s
              else Some (errAuthorizationInternal, s))"
| "evaluate_class_rule n env kofn tot cnt succ status [] s = Some (status, s)"
| "evaluate_class_rule n env kofn tot cnt succ status (delegate # ds) s =
     (let cnt = cnt + 1
      in if kofn \<noteq> 0 \<and> ucast succ = kofn then Some (errAuthorizationSuccess, s)
         else (case evaluate_rule n env delegate s of
             None \<Rightarrow> None
           | Some (status, s) \<Rightarrow>
               if status = errAuthorizationCanceled \<or> status = errAuthorizationInternal then Some (status, s)
               else if status \<noteq> errAuthorizationSuccess then
                 (if kofn \<noteq> 0 then
                    if ucast (tot - cnt) <s kofn - ucast succ then Some (status, s)
                    else evaluate_class_rule n env kofn tot cnt succ status ds s
                  else Some (status, s))
               else evaluate_class_rule n env kofn tot cnt (succ + 1) status ds s))"

text \<open>\<^verbatim>\<open>_preevaluate_rule\<close>: whether a rule or one of its delegates asks for passwords only, and what the
  user rules met on the way say of the group, the session owner and secure tokens.\<close>

record preevaluation =
  pe_group :: "string option"
  pe_sessionOwner :: bool
  pe_secureToken :: bool

fun preevaluate_rule :: "rule \<Rightarrow> preevaluation \<Rightarrow> bool \<times> preevaluation"
and preevaluate_class_rule :: "rule list \<Rightarrow> bool \<Rightarrow> preevaluation \<Rightarrow> bool \<times> preevaluation" where
  "preevaluate_rule (Rule data ms ds ps bs rd) p =
     (let rule = Rule data ms ds ps bs rd
      in if rule_get_class rule = RC_USER then
           (rule_get_password_only rule,
            \<lparr> pe_group = (if pe_group p = None then rule_get_group rule else pe_group p),
              pe_sessionOwner = rule_get_session_owner rule, pe_secureToken = rule_get_securetokenuser rule \<rparr>)
         else if rule_get_class rule = RC_RULE then preevaluate_class_rule ds False p
         else (False, p))"
| "preevaluate_class_rule [] password_only p = (password_only, p)"
| "preevaluate_class_rule (d # ds) password_only p =
     (case preevaluate_rule d p of (b, p) \<Rightarrow> preevaluate_class_rule ds (password_only \<or> b) p)"

section \<open>Finding the rule of a right\<close>

text \<open>\<^verbatim>\<open>strrchr\<close>: the string up to its last dot, the dot included.\<close>

definition up_to_dot :: "string \<Rightarrow> string option" where
  "up_to_dot s = (if CHR ''.'' \<in> set s then Some (rev (dropWhile (\<lambda>c. c \<noteq> CHR ''.'') (rev s))) else None)"

definition right_in_db :: "db \<Rightarrow> string \<Rightarrow> bool" where
  "right_in_db dbconn name \<longleftrightarrow>
     list_ex (\<lambda>r. row_get r ''name'' = SQL_Text name \<and> row_get r ''type'' = SQL_Int 1) (db_rules dbconn)"

lemma up_to_dot_length: "up_to_dot s = Some t \<Longrightarrow> length t \<le> length s"
  using length_dropWhile_le [of "\<lambda>c. c \<noteq> CHR ''.''" "rev s"] by (auto simp: up_to_dot_def split: if_splits)

text \<open>The loop of \<^verbatim>\<open>_find_rule\<close> over what is left of the name; \<^term>\<open>dot\<close> says that it ends in the dot found last.\<close>

function find_name :: "db \<Rightarrow> bool \<Rightarrow> string \<Rightarrow> bool \<Rightarrow> string option" where
  "find_name dbconn exact_match buf dot =
     (if right_in_db dbconn buf then Some buf
      else if exact_match then None
      else (case up_to_dot (if dot then butlast buf else buf) of
          None \<Rightarrow> None
        | Some buf' \<Rightarrow> find_name dbconn exact_match buf' True))"
  by pat_completeness auto

termination find_name
proof (relation "measure (\<lambda>(dbconn, exact, buf, dot). 2 * length buf + (if dot then 0 else 1))")
  fix dbconn :: db and exact_match dot :: bool and buf buf' :: string
  assume b: "up_to_dot (if dot then butlast buf else buf) = Some buf'"
  have "length buf' \<le> length (if dot then butlast buf else buf)"
    using up_to_dot_length [OF b] .
  moreover have "dot \<longrightarrow> buf \<noteq> []"
    using b by (auto simp: up_to_dot_def split: if_splits)
  ultimately show "((dbconn, exact_match, buf', True), dbconn, exact_match, buf, dot)
      \<in> measure (\<lambda>(dbconn, exact, buf, dot). 2 * length buf + (if dot then 0 else 1))"
    by (cases buf) (auto split: if_splits)
qed simp

declare find_name.simps [simp del]

definition find_rule :: "nat \<Rightarrow> db \<Rightarrow> string \<Rightarrow> bool \<Rightarrow> rule option" where
  "find_rule depth dbconn str exact_match =
     (case find_name dbconn exact_match str False of
        Some name \<Rightarrow> rule_create_with_string depth (Some name) (Some dbconn)
      | None \<Rightarrow>
          if exact_match then None
          else (case rule_create_with_string depth (Some []) (Some dbconn) of
              None \<Rightarrow> None
            | Some r \<Rightarrow> Some (if rule_get_id r = 0 then rule_create_default else r)))"

end
