(* ===== verification/Engine_Authorize.thy ===== *)
theory Engine_Authorize
  imports Engine
begin

text \<open>
  \<^verbatim>\<open>src/OSX/authd/engine.c\<close>, the part that authorizes a set of rights: \<^verbatim>\<open>engine_authorize\<close> with the
  environment of the client, the loop over the rights and the export of what was learnt, the
  modification of rights, and the properties of a right.  \<^term>\<open>depth\<close> is the stack for fetching rules,
  \<^term>\<open>n\<close> the number of steps of the evaluation.
\<close>

unbundle bit_operations_syntax

section \<open>The environment of the client\<close>

text \<open>A string and bytes of a dictionary that is not one of the engine's.\<close>

definition items_string :: "auth_items \<Rightarrow> string \<Rightarrow> 'w machine \<Rightarrow> string option \<times> 'w machine" where
  "items_string items k s = (case auth_items_get_string (ms_items s) items k of (v, h) \<Rightarrow> (v, set_heap h s))"

definition items_bytes :: "auth_items \<Rightarrow> string \<Rightarrow> 'w machine \<Rightarrow> string option" where
  "items_bytes items k s = (case auth_items_get_data (ms_items s) items k of Some (v, len) \<Rightarrow> v | None \<Rightarrow> None)"

definition has_flag :: "32 word \<Rightarrow> 'w machine \<Rightarrow> bool" where
  "has_flag f s \<longleftrightarrow> en_flags (ms_en s) AND f \<noteq> 0"

definition provide_credentials :: "'w machine \<Rightarrow> 'w machine" where
  "provide_credentials s = upd_en (\<lambda>e. e\<lparr> en_credentialsProvided := True \<rparr>) s"

definition parse_environment :: "('w, 'z) eenv_scheme \<Rightarrow> auth_items \<Rightarrow> 'w machine \<Rightarrow> 'w machine" where
  "parse_environment env environment s =
     (if has_flag kAuthorizationFlagExtendRights s \<and> \<not> has_flag kAuthorizationFlagSheet s then
        let (user, s) = items_string environment ''username'' s;
            (pass, s) = items_string environment ''password'' s;
            (ahp, s) = items_string environment ''ap-pam-service-name'' s
        in if ahp \<noteq> None \<and> ahp \<noteq> Some [] then
             (case pass of None \<Rightarrow> s | Some p \<Rightarrow> put_string Context ''password'' p s)
           else (case user of
               None \<Rightarrow> s
             | Some u \<Rightarrow>
                 (case env_getpwnam env (ms_world s) u of
                    None \<Rightarrow> s
                  | Some pw \<Rightarrow>
                      let p = (case pass of None \<Rightarrow> [] | Some p \<Rightarrow> p);
                          s = put_string Context ''username'' u s;
                          s = put_string Context ''password'' p s;
                          s = (if pass \<noteq> None then provide_credentials s else s)
                      in if \<not> ee_utf8 env u \<or> ee_smartcard env (ms_world s) u \<noteq> 0 then s
                         else if has_flag kAuthorizationFlagSkipInternalAuth s then s
                         else if \<not> ee_checkpw env (ms_world s) pw p then s
                         else (case new_cred (credential_create env (ms_world s) (pw_uid pw)) s of
                             (c, s) \<Rightarrow>
                               if cr_valid (ms_cred s c)
                               then engine_set_credential env c (auth_items_exist environment ''shared'') s else s)))
      else s)"

definition verify_sandbox :: "('w, 'z) eenv_scheme \<Rightarrow> string \<Rightarrow> 'w machine \<Rightarrow> bool" where
  "verify_sandbox env right s \<longleftrightarrow>
     ee_sandbox_right env (ms_world s) (au_opaqueToken (pr_auditInfo (ms_proc s))) right \<and>
     (at_sandboxed (ms_token s) \<longrightarrow> ee_sandbox_right env (ms_world s) (au_opaqueToken (at_auditInfo (ms_token s))) right)"

section \<open>Local authentication\<close>

definition engine_copy_context :: "('w, 'z) eenv_scheme \<Rightarrow> auth_items \<Rightarrow> 'w machine \<Rightarrow> nat option" where
  "engine_copy_context env source s =
     (let client_uid = process_get_uid (dm_procs (ms_d s) ! cn_proc (dm_conns (ms_d s) ! en_conn (ms_en s)))
      in if client_uid = 0 then None
         else (case items_bytes source ''sheet-context'' s of
             None \<Rightarrow> None | Some data \<Rightarrow> ee_la_create env (ms_world s) client_uid data))"

definition engine_acquire_sheet_data :: "('w, 'z) eenv_scheme \<Rightarrow> 'w machine \<Rightarrow> bool \<times> 'w machine" where
  "engine_acquire_sheet_data env s =
     (if \<not> has_key Context ''sheet-uid'' s then (False, s)
      else let la = engine_copy_context env (en_hints (ms_en s)) s
           in (la \<noteq> None, upd_en (\<lambda>e. e\<lparr> en_la_context := la \<rparr>) s))"

definition extract_password_from_la :: "('w, 'z) eenv_scheme \<Rightarrow> 'w machine \<Rightarrow> 'w machine" where
  "extract_password_from_la env s =
     (case en_la_context (ms_en s) of
        None \<Rightarrow> s
      | Some la \<Rightarrow>
          (case ee_la_passcode env (ms_world s) la of
             None \<Rightarrow> s
           | Some (Some bytes) \<Rightarrow> put_data Context ''password'' bytes s
           | Some None \<Rightarrow> put_data Context ''password'' [NUL] s))"

section \<open>Preparation\<close>

abbreviation "elevation_rights \<equiv> [''system.privilege.admin'', ''com.apple.ServiceManagement.blesshelper'']"

definition local_flags :: "string list \<Rightarrow> 32 word \<Rightarrow> 32 word" where
  "local_flags names flags =
     (if ''system.login.screensaver'' \<in> set names then flags OR kAuthorizationFlagSkipInternalAuth else flags)"

text \<open>The context of the token is copied and decrypted, and what belongs to an earlier authentication removed.\<close>

definition restore_context :: "('w, 'z) eenv_scheme \<Rightarrow> 'w machine \<Rightarrow> 'w machine" where
  "restore_context env s =
     (case auth_items_content_copy (ms_items s) auth_items_create (at_context (ms_token s)) of
        (h, items) \<Rightarrow>
          let s = set_heap (auth_items_decrypt (env_cccrypt env) h items (at_encryption_key (ms_token s))) s;
              s = copy_items Context items s
          in fold (remove_key Context)
               [''ap-pam-service-name'', ''ap-user-name'', ''ap-token'', ''ap-pam-error-message'', ''uid'', ''username'',
                ''password'', ''authentication-failure'', ''pam_result''] s)"

text \<open>What the client says of an alternative authentication moves from the hints to the context.\<close>

definition move_alternative_pam :: "string option \<Rightarrow> 'w machine \<Rightarrow> 'w machine" where
  "move_alternative_pam user s =
     (case get_string Hints ''ap-pam-service-name'' s of
        (None, s) \<Rightarrow> remove_key Context ''ap-user-name'' (remove_key Context ''ap-pam-service-name'' s)
      | (Some service, s) \<Rightarrow>
          let s = (if has_key Hints ''ap-user-name'' s then
                     (case get_string Hints ''ap-user-name'' s of
                        (None, s) \<Rightarrow> remove_key Hints ''ap-user-name'' (ms_crash True s)
                      | (Some u, s) \<Rightarrow> remove_key Hints ''ap-user-name'' (put_string Context ''ap-user-name'' u s))
                   else (case user of None \<Rightarrow> s | Some u \<Rightarrow> put_string Context ''ap-user-name'' u s));
              s = put_string Context ''ap-pam-service-name'' service s
          in provide_credentials (remove_key Hints ''ap-pam-service-name'' s))"

definition set_provided_uid :: "('w, 'z) eenv_scheme \<Rightarrow> string option \<Rightarrow> 'w machine \<Rightarrow> 'w machine" where
  "set_provided_uid env user s =
     (if en_credentialsProvided (ms_en s) \<and> \<not> has_key Context ''uid'' s then
        (case Option.bind user (env_getpwnam env (ms_world s)) of
           None \<Rightarrow> s | Some pw \<Rightarrow> put_uint Context ''uid'' (pw_uid pw) s)
      else s)"

definition move_token :: "auth_items option \<Rightarrow> 'w machine \<Rightarrow> 'w machine" where
  "move_token environment s =
     (case environment of
        None \<Rightarrow> s
      | Some items \<Rightarrow>
          if auth_items_exist items ''ap-token'' then
            remove_key Hints ''ap-token''
              (case items_bytes (en_hints (ms_en s)) ''ap-token'' s of
                 None \<Rightarrow> s | Some data \<Rightarrow> put_data Context ''ap-token'' data s)
          else s)"

text \<open>The sheet: false when the authorization is refused.\<close>

definition prepare_sheet :: "('w, 'z) eenv_scheme \<Rightarrow> auth_items option \<Rightarrow> string option \<Rightarrow> 'w machine \<Rightarrow> bool \<times> 'w machine" where
  "prepare_sheet env environment user s =
     (if \<not> has_flag kAuthorizationFlagSheet s then (True, s)
      else (case (environment, user) of
          (Some _, Some u) \<Rightarrow>
            let s = put_string Context ''username'' u s
            in (case env_getpwnam env (ms_world s) u of
                  None \<Rightarrow> (False, s)
                | Some pw \<Rightarrow>
                    let s = put_uint Context ''sheet-uid'' (pw_uid pw) s;
                        s = snd (engine_acquire_sheet_data env s)
                    in (True, provide_credentials (extract_password_from_la env s)))
        | _ \<Rightarrow> (False, s)))"

text \<open>Everything of \<^verbatim>\<open>engine_authorize\<close> before the rights are looked at; false when it ends there.\<close>

definition prepare_authorization ::
  "('w, 'z) eenv_scheme \<Rightarrow> string list \<Rightarrow> auth_items option \<Rightarrow> 32 word \<Rightarrow> 'w machine \<Rightarrow> bool \<times> 'w machine" where
  "prepare_authorization env names environment flags s =
     (let s = upd_en (\<lambda>e. e\<lparr> en_flags := local_flags names flags \<rparr>) s;
          s = restore_context env s;
          s = (case environment of None \<Rightarrow> s | Some items \<Rightarrow> copy_items Hints items (parse_environment env items s));
          s = (if list_ex (\<lambda>r. r \<in> set names) elevation_rights then put_bool Immutable_Hints ''tid-prohibited'' True s else s);
          (user, s) = (case environment of None \<Rightarrow> (None, s) | Some items \<Rightarrow> items_string items ''username'' s);
          s = move_alternative_pam user s;
          s = set_provided_uid env user s;
          s = move_token environment s;
          (go_on, s) = prepare_sheet env environment user s
      in (go_on, if go_on then upd_en (\<lambda>e. e\<lparr> en_dismissed := False, en_grantedRights := auth_rights_clear (en_grantedRights e) \<rparr>) s
                 else s))"

section \<open>The rights\<close>

definition no_preevaluation :: preevaluation where
  "no_preevaluation = \<lparr> pe_group = None, pe_sessionOwner = False, pe_secureToken = False \<rparr>"

definition password_only_right :: "nat \<Rightarrow> db \<Rightarrow> string \<Rightarrow> bool" where
  "password_only_right depth dbconn name =
     (case find_rule depth dbconn name False of None \<Rightarrow> False | Some r \<Rightarrow> fst (preevaluate_rule r no_preevaluation))"

text \<open>The rule of a right: during a system update the login right is looked up in the database made of the
  property list, and so is every right after it.\<close>

definition rule_of_right :: "nat \<Rightarrow> ('w, 'z) eenv_scheme \<Rightarrow> string \<Rightarrow> db option \<Rightarrow> 'w machine \<Rightarrow> rule option \<times> db option" where
  "rule_of_right depth env key memory_db s =
     (let memory_db' = (if memory_db \<noteq> None \<or> \<not> (ee_system_update env (ms_world s) \<and> key = ''system.login.console'')
                        then memory_db else ee_plist_db env (ms_world s));
          r = (case memory_db' of None \<Rightarrow> None | Some m \<Rightarrow> find_rule depth m key True)
      in (if r \<noteq> None then r else find_rule depth (dm_db (ms_d s)) key False, memory_db'))"

definition prepare_right :: "nat \<Rightarrow> 32 word \<Rightarrow> string \<Rightarrow> rule \<Rightarrow> 'w machine \<Rightarrow> 'w machine" where
  "prepare_right depth flags key rule s =
     (let s = put_int64 Hints ''flags'' (ucast flags) (set_right_hints key s);
          s = (if has_flag kAuthorizationFlagInteractionAllowed s \<or> en_credentialsProvided (ms_en s) then
                 let s = set_localization_hints rule s
                 in upd_en (\<lambda>e. e\<lparr> en_authenticateRule := (case en_authenticateRule e of
                      Some r \<Rightarrow> Some r
                    | None \<Rightarrow> rule_create_with_string depth (Some ''authenticate'') (Some (dm_db (ms_d s)))) \<rparr>) s
               else s)
      in upd_en (\<lambda>e. e\<lparr> en_currentRightName := key \<rparr>) s)"

definition grant_right :: "auth_rights \<Rightarrow> string \<Rightarrow> rule \<Rightarrow> 'w machine \<Rightarrow> 'w machine" where
  "grant_right rights key rule s =
     upd_en (\<lambda>e. e\<lparr> en_grantedRights :=
       (let g = auth_rights_set_flags (auth_rights_add (en_grantedRights e) key) key (auth_rights_get_flags rights key)
        in if en_flags e AND kAuthorizationFlagPreAuthorize \<noteq> 0 \<and> rule_get_class rule = RC_USER \<and> rule_get_timeout rule = 0
           then auth_rights_set_flags g key kAuthorizationFlagPreAuthorize else g) \<rparr>) s"

definition finish_right :: "'w machine \<Rightarrow> 'w machine" where
  "finish_right s =
     (let s = upd_en (\<lambda>e. e\<lparr> en_currentRightName := [] \<rparr>) s
      in bag_set Hints (auth_items_remove_with_flags (ms_items s) (en_hints (ms_en s)) kEngineHintsFlagTemporary) s)"

definition known_status :: "osstatus \<Rightarrow> osstatus" where
  "known_status status =
     (if status \<in> {errAuthorizationSuccess, errAuthorizationDenied, errAuthorizationInteractionNotAllowed, errAuthorizationCanceled}
      then status else errAuthorizationInternal)"

fun authorize_rights ::
  "nat \<Rightarrow> nat \<Rightarrow> ('w, 'z) eenv_scheme \<Rightarrow> auth_rights \<Rightarrow> 32 word \<Rightarrow> string list \<Rightarrow> db option \<Rightarrow> osstatus \<Rightarrow> 'w machine \<Rightarrow>
    (osstatus \<times> 'w machine) option" where
  "authorize_rights n depth env rights flags [] memory_db status s = Some (status, s)"
| "authorize_rights n depth env rights flags (key # keys) memory_db status s =
     (if \<not> verify_sandbox env key s then Some (errAuthorizationDenied, s)
      else (case rule_of_right depth env key memory_db s of
          (None, memory_db) \<Rightarrow> Some (errAuthorizationInternal, ms_crash True s)
        | (Some rule, memory_db) \<Rightarrow>
            (case evaluate_rule n env rule (prepare_right depth flags key rule (ms_crash (rule_fault rule) s)) of
               None \<Rightarrow> None
             | Some (status, s) \<Rightarrow>
                 let s = (if status = errAuthorizationSuccess then grant_right rights key rule s else s);
                     status = known_status status;
                     s = finish_right s
                 in if \<not> has_flag kAuthorizationFlagPartialRights s \<and> status \<noteq> errAuthorizationSuccess then Some (status, s)
                    else authorize_rights n depth env rights flags keys memory_db status s)))"

section \<open>The end of an authorization\<close>

definition store_credentials :: "('w, 'z) eenv_scheme \<Rightarrow> 'w machine \<Rightarrow> 'w machine" where
  "store_credentials env s =
     (if has_flag kAuthorizationFlagExtendRights s \<and> \<not> has_flag kAuthorizationFlagDestroyRights s then
        snd (cf_iterate (\<lambda>c s.
            (True,
             if at_least_privileged (ms_token s) \<and> \<not> cr_right (ms_cred s c) then s
             else
               let creds = dm_creds (ms_d s);
                   s = upd_d (upd_token (en_auth (ms_en s)) (\<lambda>a. auth_token_set_credential creds a c)) s
               in if cr_shared (ms_cred s c) then set_session (session_set_credential creds (ms_session s) c) s else s))
          (env_order env (ms_world s) (en_credentials (ms_en s))) False s)
      else s)"

definition export_context :: "('w, 'z) eenv_scheme \<Rightarrow> osstatus \<Rightarrow> 'w machine \<Rightarrow> 'w machine" where
  "export_context env status s =
     (let provided = en_credentialsProvided (ms_en s);
          extractable = (\<lambda>k. put_flags Context k kAuthorizationContextFlagExtractable);
          s = (if status = errAuthorizationSuccess \<and> ms_save_pwd s then extractable ''password'' s
               else if provided then
                 fold extractable [''username'', ''password'', ''ap-user-name'', ''ap-pam-service-name'',
                   ''authentication-failure'', ''ap-pam-error-message'', ''pam_result''] s
               else s)
      in if status = errAuthorizationSuccess \<or> status = errAuthorizationCanceled \<or> provided then
           (case auth_items_content_copy_with_flags (ms_items s) auth_items_create (en_context (ms_en s))
                   kAuthorizationContextFlagExtractable of
              (h, items) \<Rightarrow>
                let h = auth_items_encrypt (env_cccrypt env) h items (at_encryption_key (ms_token s));
                    ctx = auth_items_copy_with_flags h (at_context (ms_token s)) items kAuthorizationContextFlagExtractable
                in upd_d (upd_token (en_auth (ms_en s)) (\<lambda>a. a\<lparr> at_context := ctx \<rparr>)) (set_heap h s))
         else s)"

definition engine_cleanup :: "'w machine \<Rightarrow> 'w machine" where
  "engine_cleanup s = upd_en (\<lambda>e. e\<lparr> en_context := auth_items_clear (en_context e),
     en_sticky_context := auth_items_clear (en_sticky_context e), en_mechanism_agents := [] \<rparr>) s"

text \<open>The status after the loop, before smart cards.\<close>

definition rights_status :: "osstatus \<Rightarrow> 'w machine \<Rightarrow> osstatus" where
  "rights_status status s =
     (if en_dismissed (ms_en s) then errAuthorizationDenied
      else if has_flag kAuthorizationFlagPartialRights s \<and> 0 < auth_rights_get_count (en_grantedRights (ms_en s))
      then errAuthorizationSuccess else status)"

text \<open>A context that requires the smart card of a user starts a second authorization, with an engine, a
  connection and a token of its own; \<^term>\<open>authorize\<close> is \<^verbatim>\<open>engine_authorize\<close> on it.\<close>

definition smartcard_authorize ::
  "(auth_rights option \<Rightarrow> auth_items option \<Rightarrow> 32 word \<Rightarrow> 'w machine \<Rightarrow> (osstatus \<times> 'w machine) option) \<Rightarrow>
    ('w, 'z) eenv_scheme \<Rightarrow> string \<Rightarrow> 'w machine \<Rightarrow> (osstatus \<times> 'w machine) option" where
  "smartcard_authorize authorize env user s =
     (case ee_self_authorize env (ms_world s) of
        (st, w) \<Rightarrow>
          let s = upd_d (\<lambda>d. d\<lparr> dm_world := w \<rparr>) s
          in if st \<noteq> errAuthorizationSuccess then Some (st, s)
             else
               let s = remove_key Context ''rscuser'' s;
                   (conn, d) = connection_create (ms_d s) (en_proc (ms_en s))
               in (case new_auth_token env d (en_proc (ms_en s)) False of
                     (None, d) \<Rightarrow> Some (errSecInternalError, s\<lparr> ms_d := connection_finalize env d conn \<rparr>)
                   | (Some auth, d) \<Rightarrow>
                       (case auth_items_set_string (dm_items d) auth_items_create ''required-user'' user of
                          (h, items) \<Rightarrow>
                            map_option (\<lambda>(st, s'). (st, s\<lparr> ms_d := connection_finalize env (ms_d s') conn \<rparr>))
                              (authorize (Some (auth_rights_add auth_rights_create ''com.apple.auth.user'')) (Some items)
                                (kAuthorizationFlagInteractionAllowed OR kAuthorizationFlagExtendRights)
                                (engine_create env (d\<lparr> dm_items := h \<rparr>) conn auth)))))"

text \<open>What follows the loop over the rights.\<close>

definition finish_authorization ::
  "(auth_rights option \<Rightarrow> auth_items option \<Rightarrow> 32 word \<Rightarrow> 'w machine \<Rightarrow> (osstatus \<times> 'w machine) option) \<Rightarrow>
    ('w, 'z) eenv_scheme \<Rightarrow> bool \<Rightarrow> osstatus \<Rightarrow> 'w machine \<Rightarrow> (osstatus \<times> 'w machine) option" where
  "finish_authorization authorize env password_only status s =
     (let s = (if password_only then remove_key Immutable_Hints ''password-only'' s else s);
          status = rights_status status s;
          (reqScUser, s) = get_string Context ''rscuser'' s
      in map_option (\<lambda>(status, s). (status, engine_cleanup (export_context env status (store_credentials env s))))
           (case reqScUser of
              None \<Rightarrow> Some (status, s)
            | Some user \<Rightarrow>
                if status \<noteq> errAuthorizationSuccess then Some (status, s) else smartcard_authorize authorize env user s))"

text \<open>The flags shown to the agents: without the sheet for a client that is not signed by Apple.\<close>

definition shown_flags :: "string list \<Rightarrow> 32 word \<Rightarrow> 'w machine \<Rightarrow> 32 word" where
  "shown_flags names flags s =
     (if \<not> at_appleSigned (ms_token s) \<and> local_flags names flags AND kAuthorizationFlagSheet \<noteq> 0
      then flags AND NOT kAuthorizationFlagSheet else flags)"

text \<open>\<^verbatim>\<open>engine_authorize\<close>; a nested authorization has one step less.\<close>

primrec engine_authorize ::
  "nat \<Rightarrow> nat \<Rightarrow> ('w, 'z) eenv_scheme \<Rightarrow> auth_rights option \<Rightarrow> auth_items option \<Rightarrow> 32 word \<Rightarrow> 'w machine \<Rightarrow>
    (osstatus \<times> 'w machine) option" where
  "engine_authorize 0 depth env rights environment flags s = None"
| "engine_authorize (Suc n) depth env rights environment flags s =
     (case rights of
        None \<Rightarrow> Some (errAuthorizationSuccess, engine_cleanup s)
      | Some rs \<Rightarrow>
          let names = map ai_name rs; hint_flags = shown_flags names flags s
          in (case prepare_authorization env names environment flags (s\<lparr> ms_save_pwd := False \<rparr>) of
                (False, s) \<Rightarrow> Some (errAuthorizationDenied, engine_cleanup s)
              | (True, s) \<Rightarrow>
                  let password_only = (\<not> has_flag kAuthorizationFlagIgnorePasswordOnly s \<and>
                        list_ex (password_only_right depth (dm_db (ms_d s))) names);
                      s = (if password_only then put_bool Immutable_Hints ''password-only'' True s else s)
                  in Option.bind (authorize_rights n depth env rs hint_flags names None errAuthorizationSuccess s)
                       (\<lambda>(status, s). finish_authorization (engine_authorize n depth env) env password_only status s)))"

section \<open>Properties of a right\<close>

definition engine_get_right_properties :: "('w, 'z) eenv_scheme \<Rightarrow> nat \<Rightarrow> db \<Rightarrow> string option \<Rightarrow> osstatus \<times> (string \<times> cf) list option" where
  "engine_get_right_properties env depth dbconn rightName =
     (case rightName of
        None \<Rightarrow> (errAuthorizationInternal, None)
      | Some name \<Rightarrow>
          (case find_rule depth dbconn name False of
             None \<Rightarrow> (errAuthorizationInvalidRef, None)
           | Some r \<Rightarrow>
               (case preevaluate_rule r no_preevaluation of
                  (passwordOnly, p) \<Rightarrow>
                    (errAuthorizationSuccess,
                     Some ([(''password-only'', CF_Bool passwordOnly), (''session-owner-ok'', CF_Bool (pe_sessionOwner p)),
                       (''securetoken-only'', CF_Bool (pe_secureToken p))] @
                       (case pe_group p of None \<Rightarrow> [] | Some g \<Rightarrow> if ee_utf8 env g then [(''group'', CF_String g)] else []))))))"

section \<open>Modification of rights\<close>

definition wildcard_right_exists :: "nat \<Rightarrow> db \<Rightarrow> string \<Rightarrow> bool" where
  "wildcard_right_exists depth dbconn right =
     (case find_rule depth dbconn right False of
        None \<Rightarrow> False
      | Some r \<Rightarrow> (case rule_get_name r of None \<Rightarrow> False | Some n \<Rightarrow> n \<noteq> [] \<and> last n = CHR ''.''))"

abbreviation BUFSIZ :: nat where "BUFSIZ \<equiv> 1024"

text \<open>The right a client needs to change another: nothing when the change is refused or needs no right.\<close>

definition modification_right :: "nat \<Rightarrow> db \<Rightarrow> rule \<Rightarrow> bool \<Rightarrow> bool \<Rightarrow> osstatus + string" where
  "modification_right depth dbconn rule remove force_modify =
     (case rule_get_name rule of
        None \<Rightarrow> Inl errAuthorizationDenied
      | Some right \<Rightarrow>
          if right = [] \<or> last right = CHR ''.'' then Inl errAuthorizationDenied
          else
            let existing = (rule_get_id rule \<noteq> 0 \<or> wildcard_right_exists depth dbconn right);
                add = (\<lambda>prefix. Inr (strlcat (strlcat [] prefix BUFSIZ) right BUFSIZ))
            in if strncase_eq right ''config.'' 7 then add ''config.''
               else if \<not> remove then add (if existing \<or> force_modify then ''config.modify.'' else ''config.add.'')
               else if existing then add ''config.remove.''
               else Inl errAuthorizationSuccess)"

definition engine_verify_modification ::
  "nat \<Rightarrow> nat \<Rightarrow> ('w, 'z) eenv_scheme \<Rightarrow> rule \<Rightarrow> bool \<Rightarrow> bool \<Rightarrow> 'w machine \<Rightarrow> (osstatus \<times> 'w machine) option" where
  "engine_verify_modification n depth env rule remove force_modify s =
     (case modification_right depth (dm_db (ms_d s)) rule remove force_modify of
        Inl status \<Rightarrow> Some (status, s)
      | Inr name \<Rightarrow>
          engine_authorize n depth env (Some (auth_rights_add auth_rights_create name)) None
            (kAuthorizationFlagInteractionAllowed OR kAuthorizationFlagExtendRights) s)"

end
