(* ===== verification/Engine_Samples.thy ===== *)
theory Engine_Samples
  imports Engine_Authorize
begin

text \<open>
  Environments and states for the witnesses about the engine: agents that answer every request with a
  fixed reply, a daemon with one session, one process and one token, and an engine on it that has no hints yet.
\<close>

section \<open>Environments\<close>

definition sample_eenv :: "agent_reply \<Rightarrow> 'w eenv" where
  "sample_eenv reply = env.extend plain_env \<lparr> ee_send = \<lambda>w a m. (reply, [], w), ee_post = \<lambda>w a m. w,
     ee_uninit = \<lambda>w. 0, ee_secure_token = \<lambda>w u. False, ee_smartcard = \<lambda>w u. 0, ee_checkpw = \<lambda>w u p. False,
     ee_dark_wake = \<lambda>w. False, ee_system_update = \<lambda>w. False, ee_sandbox_right = \<lambda>w t r. True,
     ee_self_authorize = \<lambda>w. (errAuthorizationDenied, w), ee_plist_db = \<lambda>w. None, ee_utf8 = \<lambda>s. True,
     ee_la_create = \<lambda>w u d. None, ee_la_result = \<lambda>w l. False, ee_la_passcode = \<lambda>w l. None,
     ee_graphic_access = 16, ee_has_authenticated = 16384 \<rparr>"

definition sample_process :: process where
  "sample_process = \<lparr> pr_auditInfo = sample_audit 42, pr_session = 0, pr_authTokens = [0], pr_connections = [0],
     pr_code_url = ''/bin/sh'', pr_code_identifier = None, pr_code_requirement_data = None,
     pr_code_entitlements = None, pr_bootstrap = 0, pr_appStoreSigned = False, pr_firstPartySigned = False \<rparr>"

definition sample_token :: auth_token where
  "sample_token = \<lparr> at_blob = ''blob'', at_state = 1, at_auditInfo = sample_audit 42, at_processes = [0],
     at_session = 0, at_creator = Some 0, at_creator_bootstrap_port = 0, at_context = [], at_credentials = [],
     at_authorized_rights = [], at_encryption_key = None, at_least_privileged = False, at_appleSigned = False,
     at_firstPartySigned = False, at_sandboxed = False, at_code_url = ''/bin/sh'', at_auth_index = 0, at_credential = None \<rparr>"

definition sample_daemon :: "db \<Rightarrow> unit daemon" where
  "sample_daemon dbase = (daemon_empty () dbase)\<lparr> dm_sessions := [sample_session\<lparr> ss_credentials := [] \<rparr>],
     dm_procs := [sample_process], dm_tokens := [sample_token],
     dm_conns := [\<lparr> cn_proc = 0, cn_state = Conn_Live, cn_sent_syslog_warn = False \<rparr>] \<rparr>"

definition sample_machine :: "db \<Rightarrow> unit machine" where
  "sample_machine dbase = \<lparr> ms_en = engine_new 0 0 0, ms_d = sample_daemon dbase, ms_agents = [], ms_lcontext = [],
     ms_lhints = [], ms_save_pwd = False \<rparr>"

text \<open>A rule of a class with flags, tries, mechanisms and delegates.\<close>

definition sample_rule :: "64 word \<Rightarrow> 64 word \<Rightarrow> 64 word \<Rightarrow> mechanism list \<Rightarrow> rule list \<Rightarrow> rule" where
  "sample_rule cls flags tries ms ds =
     Rule (pd_set_int64 (pd_set_int64 (pd_set_int64 pd_empty ''class'' cls) ''flags'' flags) ''tries'' tries) ms ds None None None"

lemma pd_empty_fields: "pd_int64 pd_empty k = 0" "pd_string pd_empty k = None"
  by (simp_all add: pd_int64_item pd_string_item item_int64_def item_string_def)

lemma sample_rule_fields [simp]:
  "rule_get_class (sample_rule cls flags tries ms ds) = ucast cls"
  "rule_check_flags (sample_rule cls flags tries ms ds) f \<longleftrightarrow> and flags (ucast f) \<noteq> 0"
  "rule_get_tries (sample_rule cls flags tries ms ds) = tries" "rule_get_timeout (sample_rule cls flags tries ms ds) = 0"
  "rule_get_kofn (sample_rule cls flags tries ms ds) = 0" "rule_get_id (sample_rule cls flags tries ms ds) = 0"
  "rule_get_name (sample_rule cls flags tries ms ds) = None" "rule_get_group (sample_rule cls flags tries ms ds) = None"
  "ru_mechanisms (sample_rule cls flags tries ms ds) = ms" "ru_delegations (sample_rule cls flags tries ms ds) = ds"
  by (simp_all add: sample_rule_def rule_get_class_def rule_check_flags_def rule_get_tries_def rule_get_timeout_def
      rule_get_kofn_def rule_get_id_def rule_get_name_def rule_get_group_def pd_laws pd_empty_fields)

lemma sample_machine_fields [simp]:
  "en_la_context (ms_en (sample_machine dbase)) = None" "en_flags (ms_en (sample_machine dbase)) = 0"
  "en_grantedRights (ms_en (sample_machine dbase)) = []" "ms_agents (sample_machine dbase) = []"
  "ms_token (sample_machine dbase) = sample_token" "ms_world (sample_machine dbase) = ()"
  "dm_db (ms_d (sample_machine dbase)) = dbase"
  by (simp_all add: sample_machine_def engine_new_def auth_rights_create_def sample_daemon_def ms_world_def daemon_empty_def)

end
