(* ===== verification/Engine_Laws.thy ===== *)
theory Engine_Laws
  imports Engine_Samples
begin

text \<open>
  What no evaluation of a rule changes (the frame): the flags and rights of the engine, the database, the processes.
  With it the rights that are granted are followed through a whole authorization.  The laws of single evaluations
  are in \<^verbatim>\<open>Evaluation_Laws\<close>, \<^verbatim>\<open>Held_Laws\<close>, \<^verbatim>\<open>Right_Laws\<close> and \<^verbatim>\<open>Return_Laws\<close>.
\<close>

unbundle bit_operations_syntax

section \<open>The frame of an evaluation\<close>

definition en_frame :: "'w machine \<Rightarrow> nat \<times> nat \<times> nat \<times> 32 word \<times> auth_rights \<times> string \<times> real \<times> db \<times> process list" where
  "en_frame s = (en_conn (ms_en s), en_proc (ms_en s), en_auth (ms_en s), en_flags (ms_en s), en_grantedRights (ms_en s),
     en_currentRightName (ms_en s), en_now (ms_en s), dm_db (ms_d s), dm_procs (ms_d s))"

named_theorems frame

lemma frame_upd [simp]:
  "en_frame (set_heap h s) = en_frame s" "en_frame (ms_crash b s) = en_frame s"
  "en_frame (upd_agent a g s) = en_frame s" "en_frame (s\<lparr> ms_save_pwd := p \<rparr>) = en_frame s"
  "en_frame (s\<lparr> ms_lcontext := i \<rparr>) = en_frame s" "en_frame (s\<lparr> ms_lhints := i \<rparr>) = en_frame s"
  "en_frame (s\<lparr> ms_agents := l \<rparr>) = en_frame s"
  "en_frame (upd_d (\<lambda>d. d\<lparr> dm_world := w \<rparr>) s) = en_frame s"
  "en_frame (upd_d (\<lambda>d. d\<lparr> dm_creds := f d \<rparr>) s) = en_frame s"
  "en_frame (upd_d (upd_token a u) s) = en_frame s"
  "en_frame (upd_d (upd_session k v) s) = en_frame s"
  by (simp_all add: en_frame_def set_heap_def ms_crash_def upd_agent_def upd_d_def upd_token_def upd_session_def)

lemma frame_upd_en [simp]:
  "en_frame (upd_en (\<lambda>e. e\<lparr> en_la_context := x1 \<rparr>) s) = en_frame s"
  "en_frame (upd_en (\<lambda>e. e\<lparr> en_credentialsProvided := x2 \<rparr>) s) = en_frame s"
  "en_frame (upd_en (\<lambda>e. e\<lparr> en_reason := x3 \<rparr>) s) = en_frame s"
  "en_frame (upd_en (\<lambda>e. e\<lparr> en_tries := f4 e \<rparr>) s) = en_frame s"
  "en_frame (upd_en (\<lambda>e. e\<lparr> en_credentials := f5 e \<rparr>) s) = en_frame s"
  "en_frame (upd_en (\<lambda>e. e\<lparr> en_mechanism_agents := f6 e \<rparr>) s) = en_frame s"
  "en_frame (upd_en (\<lambda>e. e\<lparr> en_authenticateRule := f7 e \<rparr>) s) = en_frame s"
  "en_frame (upd_en (\<lambda>e. e\<lparr> en_dismissed := x8 \<rparr>) s) = en_frame s"
  "en_frame (upd_en (\<lambda>e. e\<lparr> en_hints := f9 e \<rparr>) s) = en_frame s"
  "en_frame (upd_en (\<lambda>e. e\<lparr> en_context := f9 e \<rparr>) s) = en_frame s"
  "en_frame (upd_en (\<lambda>e. e\<lparr> en_sticky_context := f9 e \<rparr>) s) = en_frame s"
  "en_frame (upd_en (\<lambda>e. e\<lparr> en_immutable_hints := f9 e \<rparr>) s) = en_frame s"
  by (simp_all add: en_frame_def upd_en_def)

lemma frame_bag [simp]: "en_frame (bag_set b i s) = en_frame s"
  by (cases b) (simp_all add: en_frame_def upd_en_def)

lemma frame_put [simp]:
  "en_frame (bag_put b f s) = en_frame s" "en_frame (put_string b k v1 s) = en_frame s" "en_frame (put_data b k v1 s) = en_frame s"
  "en_frame (put_int b k v2 s) = en_frame s" "en_frame (put_uint b k v2 s) = en_frame s" "en_frame (put_int64 b k v3 s) = en_frame s"
  "en_frame (put_bool b k v4 s) = en_frame s" "en_frame (put_flags b k fl s) = en_frame s" "en_frame (remove_key b k s) = en_frame s"
  "en_frame (copy_items b i s) = en_frame s" "en_frame (copy_items_with_flags b i fl s) = en_frame s"
  by (simp_all add: bag_put_def put_string_def put_data_def put_int_def put_uint_def put_int64_def put_bool_def put_flags_def
      remove_key_def copy_items_def copy_items_with_flags_def split: prod.split)

lemma frame_read [frame]:
  "bag_read b f s = (v, s') \<Longrightarrow> en_frame s' = en_frame s"
  "get_string b k s = (v1, s') \<Longrightarrow> en_frame s' = en_frame s"
  "get_uint b k s = (v2, s') \<Longrightarrow> en_frame s' = en_frame s"
  "new_cred c s = (a, s') \<Longrightarrow> en_frame s' = en_frame s"
  "items_string i k s = (v1, s') \<Longrightarrow> en_frame s' = en_frame s"
  by (auto simp: bag_read_def get_string_def get_uint_def new_cred_def items_string_def split: prod.splits)

lemma frame_fold: "(\<And>x s. en_frame (f x s) = en_frame s) \<Longrightarrow> en_frame (fold f xs s) = en_frame s"
  by (induction xs arbitrary: s) simp_all

lemma frame_cf_iterate:
  assumes "\<And>x st s b st' s'. iter x (st, s) = (b, st', s') \<Longrightarrow> en_frame s' = en_frame s"
  shows "cf_iterate iter xs b (st, s) = (b', st', s') \<Longrightarrow> en_frame s' = en_frame s"
proof (induction xs arbitrary: b st s)
  case Nil
  then show ?case by simp
next
  case (Cons x xs)
  then show ?case
    using assms by (fastforce split: prod.splits if_splits)
qed

subsection \<open>Agents\<close>

lemma frame_agent_ops [simp]:
  "en_frame (post_agent env a msg s) = en_frame s" "en_frame (agent_notify_interrupt env a s) = en_frame s"
  "en_frame (agent_clear_interrupt a s) = en_frame s" "en_frame (agent_destroy env a s) = en_frame s"
  "en_frame (engine_interrupt_agent env s) = en_frame s" "en_frame (engine_destroy_agents env s) = en_frame s"
  "en_frame (agent_interrupt_handler env a s) = en_frame s"
proof -
  show post: "en_frame (post_agent env a msg s) = en_frame s" for a msg s
    by (simp add: en_frame_def post_agent_def upd_d_def)
  show notify: "en_frame (agent_notify_interrupt env a s) = en_frame s" for a s
    by (simp add: agent_notify_interrupt_def post Let_def)
  show "en_frame (agent_clear_interrupt a s) = en_frame s"
    by (simp add: agent_clear_interrupt_def)
  show destroy: "en_frame (agent_destroy env a s) = en_frame s" for a s
    by (simp add: agent_destroy_def post)
  show all: "en_frame (engine_interrupt_agent env s) = en_frame s" for s
    by (simp add: engine_interrupt_agent_def frame_fold notify)
  show "en_frame (engine_destroy_agents env s) = en_frame s"
    by (simp add: engine_destroy_agents_def frame_fold destroy Let_def)
  show "en_frame (agent_interrupt_handler env a s) = en_frame s"
    by (simp add: agent_interrupt_handler_def all)
qed

lemma frame_agent_event [simp]: "en_frame (agent_handler env e s) = en_frame s"
  by (cases e) simp_all

lemma frame_send [frame]: "send_agent env a msg s = (r, s') \<Longrightarrow> en_frame s' = en_frame s"
  by (auto simp: send_agent_def frame_fold split: prod.splits)

lemma frame_agent_replies [simp]:
  "en_frame (agent_create_reply a r s) = en_frame s" "en_frame (agent_take_items a object s) = en_frame s"
  "en_frame (agent_run_reply a r s) = en_frame s"
proof -
  show "en_frame (agent_create_reply a r s) = en_frame s"
    by (simp add: agent_create_reply_def Let_def split: agent_reply.split)
  show take: "en_frame (agent_take_items a object s) = en_frame s" for object
    by (simp add: agent_take_items_def Let_def split: prod.split)
  show "en_frame (agent_run_reply a r s) = en_frame s"
    by (simp add: agent_run_reply_def take split: agent_reply.split)
qed

lemma frame_create_loop [frame]: "agent_create_loop n env a msg first s = Some s' \<Longrightarrow> en_frame s' = en_frame s"
proof (induction n arbitrary: s)
  case 0
  then show ?case by simp
next
  case (Suc n)
  then show ?case
    by (auto simp: Let_def split: prod.splits if_splits dest: frame_send)
qed

lemma frame_agent_create [frame]: "agent_create n env mech first s = Some (r, s') \<Longrightarrow> en_frame s' = en_frame s"
  by (auto simp: agent_create_def Let_def split: prod.splits dest!: frame_create_loop)

lemma frame_agent_run [frame]: "agent_run env a hints context imm s = (r, s') \<Longrightarrow> en_frame s' = en_frame s"
  by (auto simp: agent_run_def Let_def split: prod.splits if_splits dest!: frame_send)

lemma frame_agent_deactivate [simp]: "en_frame (agent_deactivate env a s) = en_frame s"
  by (auto simp: agent_deactivate_def split: prod.splits agent_reply.splits dest!: frame_send)

subsection \<open>Credentials and mechanisms\<close>

lemma frame_set_session [simp]: "en_frame (set_session ses s) = en_frame s"
  by (simp add: set_session_def)

lemma frame_set_credential [simp]: "en_frame (engine_set_credential env c shared s) = en_frame s"
  by (auto simp: engine_set_credential_def Let_def split: prod.splits dest!: frame_read(4))

lemma frame_set_reason [simp]: "en_frame (set_reason want r s) = en_frame s"
  by (simp add: set_reason_def)

lemma frame_check_membership [frame]: "check_membership env c g s = (b, s') \<Longrightarrow> en_frame s' = en_frame s"
  by (auto simp: check_membership_def split: prod.splits)

lemma frame_fvunlock [frame]: "is_fvunlock_user_in_group env rule s = (b, s') \<Longrightarrow> en_frame s' = en_frame s"
  by (auto simp: is_fvunlock_user_in_group_def split: prod.splits option.splits if_splits dest!: frame_read(2))

lemma frame_user_credential [frame]:
  "evaluate_user_credential_for_rule env c rule ign want s = (st, s') \<Longrightarrow> en_frame s' = en_frame s"
  by (auto simp: evaluate_user_credential_for_rule_def Let_def split: prod.splits option.splits if_splits bool.splits
      dest!: frame_check_membership frame_fvunlock)

lemma frame_credential [frame]:
  "evaluate_credential_for_rule env c rule ign want s = (st, s') \<Longrightarrow> en_frame s' = en_frame s"
  by (auto simp: evaluate_credential_for_rule_def Let_def split: if_splits dest!: frame_user_credential)

lemma frame_set_hints [simp]:
  "en_frame (set_right_hints key s) = en_frame s" "en_frame (set_rule_hints rule s) = en_frame s"
  "en_frame (set_session_hints env rule s) = en_frame s" "en_frame (set_localization_hints rule s) = en_frame s"
  "en_frame (put_tries s) = en_frame s"
proof -
  show "en_frame (set_right_hints key s) = en_frame s" "en_frame (put_tries s) = en_frame s"
    by (simp_all add: set_right_hints_def put_tries_def Let_def)
  show "en_frame (set_rule_hints rule s) = en_frame s"
    by (simp add: set_rule_hints_def Let_def split: option.split)
  show "en_frame (set_session_hints env rule s) = en_frame s"
    by (auto simp: set_session_hints_def Let_def split: prod.splits option.splits dest!: frame_user_credential)
  show "en_frame (set_localization_hints rule s) = en_frame s"
    by (auto simp: set_localization_hints_def Let_def intro!: frame_fold [THEN trans] split: prod.splits)
qed

lemma frame_get_agent [frame]: "get_agent n env mech first s = Some (r, s') \<Longrightarrow> en_frame s' = en_frame s"
  by (auto simp: get_agent_def split: option.splits dest!: frame_agent_create)

lemma frame_copy_from_agent [simp]: "en_frame (copy_from_agent a s) = en_frame s"
  by (simp add: copy_from_agent_def Let_def)

lemma frame_drop_token [simp]: "en_frame (drop_empty_token s) = en_frame s"
  by (auto simp: drop_empty_token_def split: prod.splits dest!: frame_read(2))

lemma frame_run_mechanism [frame]:
  "run_mechanism_agent n env mechs i s = Some (r, s') \<Longrightarrow> en_frame s' = en_frame s"
  by (auto simp: run_mechanism_agent_def Let_def frame_fold split: option.splits prod.splits
      dest!: frame_get_agent frame_agent_run)

lemma frame_sheet_step [frame]:
  "sheet_step env ap la u mech sheet result s = (b, sh, res, s') \<Longrightarrow> en_frame s' = en_frame s"
  by (auto simp: sheet_step_def Let_def split: prod.splits if_splits dest!: frame_read(3))

lemma frame_mechanisms_loop [frame]:
  "mechanisms_loop n env ap la u mechs i sheet result s = Some (r, s') \<Longrightarrow> en_frame s' = en_frame s"
proof (induction n arbitrary: i sheet result s)
  case 0
  then show ?case by simp
next
  case (Suc n)
  then show ?case
    by (auto simp: Let_def split: if_splits prod.splits bool.splits option.splits mech_outcome.splits
        dest!: Suc.IH frame_sheet_step frame_run_mechanism)
qed

lemma frame_mechanisms_user [frame]: "mechanisms_user env ap s = (u, s') \<Longrightarrow> en_frame s' = en_frame s"
  by (auto simp: mechanisms_user_def split: if_splits prod.splits dest!: frame_read(2,3))

lemma frame_mechanisms_export [simp]: "en_frame (mechanisms_export result s) = en_frame s"
  by (simp add: mechanisms_export_def Let_def)

lemma frame_evaluate_mechanisms [frame]:
  "evaluate_mechanisms n env mechs s = Some (st, s') \<Longrightarrow> en_frame s' = en_frame s"
  by (auto simp: evaluate_mechanisms_def Let_def split: if_splits prod.splits option.splits
      dest!: frame_mechanisms_user frame_mechanisms_loop)

lemma frame_right_credential [simp]: "en_frame (set_right_credential env rule s) = en_frame s"
  by (auto simp: set_right_credential_def split: prod.splits dest!: frame_read(4))

lemma frame_session_attributes [simp]: "en_frame (set_session_attributes env flags s) = en_frame s"
  by (simp add: set_session_attributes_def split: prod.split)

lemma frame_authenticated [frame]: "authenticated_credential env s = (c, s') \<Longrightarrow> en_frame s' = en_frame s"
  by (auto simp: authenticated_credential_def split: if_splits prod.splits dest!: frame_read(3,4))

lemma frame_accept [simp]: "en_frame (accept_credential env c rule s) = en_frame s"
  by (simp add: accept_credential_def Let_def)

lemma frame_authentication_loop [frame]:
  "authentication_loop n env rule mechs tries st s = Some (r, s') \<Longrightarrow> en_frame s' = en_frame s"
proof (induction n arbitrary: st s)
  case 0
  then show ?case by simp
next
  case (Suc n)
  then show ?case
    by (auto simp: Let_def split: if_splits prod.splits option.splits
        dest!: Suc.IH frame_evaluate_mechanisms frame_authenticated frame_user_credential)
qed

lemma frame_authentication [frame]: "evaluate_authentication n env rule s = Some (r, s') \<Longrightarrow> en_frame s' = en_frame s"
  by (auto simp: evaluate_authentication_def Let_def split: if_splits option.splits dest!: frame_authentication_loop)

subsection \<open>Rules\<close>

lemma frame_entitlement [frame]: "check_entitlement_for_rule env rule s = (b, s') \<Longrightarrow> en_frame s' = en_frame s"
proof -
  have upd: "en_frame (upd_d (\<lambda>d. upd_token a u (d\<lparr> dm_creds := cs \<rparr>)) s) = en_frame s" for a u cs s
    by (simp add: en_frame_def upd_d_def upd_token_def)
  show "check_entitlement_for_rule env rule s = (b, s') \<Longrightarrow> en_frame s' = en_frame s"
    by (auto simp: check_entitlement_for_rule_def Let_def upd split: if_splits prod.splits dest!: frame_check_membership)
qed

lemma frame_acquired [frame]: "acquired_credential_step env rule c (st, s) = (b, st', s') \<Longrightarrow> en_frame s' = en_frame s"
  by (auto simp: acquired_credential_step_def Let_def split: if_splits prod.splits
      dest!: frame_user_credential frame_credential)

lemma frame_effective [frame]: "effective_credential_step env rule c (st, s) = (b, st', s') \<Longrightarrow> en_frame s' = en_frame s"
  by (auto simp: effective_credential_step_def split: if_splits prod.splits dest!: frame_credential)

lemma frame_acquired_all:
  "cf_iterate (acquired_credential_step env rule) cs b (st, s) = (b', st', s') \<Longrightarrow> en_frame s' = en_frame s"
  by (rule frame_cf_iterate [where iter = "acquired_credential_step env rule"]) (rule frame_acquired)

lemma frame_effective_all:
  "cf_iterate (effective_credential_step env rule) cs b (st, s) = (b', st', s') \<Longrightarrow> en_frame s' = en_frame s"
  by (rule frame_cf_iterate [where iter = "effective_credential_step env rule"]) (rule frame_effective)

lemma frame_class_user [frame]: "evaluate_class_user n env rule s = Some (st, s') \<Longrightarrow> en_frame s' = en_frame s"
  by (auto simp: evaluate_class_user_def Let_def split: bool.splits if_splits prod.splits
      dest!: frame_entitlement frame_user_credential frame_acquired_all frame_effective_all frame_authentication)

lemma frame_mechanism_try [frame]: "mechanism_try n env rule s = Some (st, s') \<Longrightarrow> en_frame s' = en_frame s"
  by (auto simp: mechanism_try_def Let_def split: if_splits prod.splits dest!: frame_evaluate_mechanisms frame_read(3,4))

lemma frame_mechanism_tries [frame]: "mechanism_tries n env rule s = Some (st, s') \<Longrightarrow> en_frame s' = en_frame s"
proof (induction n arbitrary: s)
  case 0
  then show ?case by simp
next
  case (Suc n)
  then show ?case
    by (auto simp: Let_def split: if_splits prod.splits option.splits dest!: Suc.IH frame_mechanism_try)
qed

lemma frame_class_mechanism [frame]: "evaluate_class_mechanism n env rule s = Some (st, s') \<Longrightarrow> en_frame s' = en_frame s"
  by (auto simp: evaluate_class_mechanism_def split: if_splits dest!: frame_mechanism_tries)

lemma rule_tree_induct:
  assumes "\<And>r. (\<And>d. d \<in> set (ru_delegations r) \<Longrightarrow> P d) \<Longrightarrow> P r"
  shows "P r"
proof (induction r)
  case (Rule data ms ds ps bs rd)
  show ?case
  proof (rule assms)
    fix d
    assume "d \<in> set (ru_delegations (Rule data ms ds ps bs rd))"
    then have "d \<in> set ds"
      by simp
    then show "P d"
      by (rule Rule)
  qed
qed

lemma evaluate_rule_eq:
  "evaluate_rule n env rule s =
     (if rule_check_flags rule RuleFlagEntitled \<and>
         auth_token_has_entitlement_for_right (dm_procs (ms_d s)) (ms_token s) (en_currentRightName (ms_en s))
      then Some (errAuthorizationSuccess, s)
      else if (en_la_context (ms_en s) \<noteq> None \<or> rule_check_flags rule RuleFlagRequireAppleSigned) \<and>
         \<not> at_appleSigned (ms_token s)
      then Some (errAuthorizationDenied, s)
      else
        let s = s\<lparr> ms_save_pwd := ms_save_pwd s \<or> rule_get_extract_password rule \<rparr>; cls = rule_get_class rule
        in if cls = RC_ALLOW then Some (errAuthorizationSuccess, s)
           else if cls = RC_DENY then Some (errAuthorizationDenied, s)
           else if cls = RC_USER then evaluate_class_user n env rule s
           else if cls = RC_RULE then
             evaluate_class_rule n env (rule_get_kofn rule) (of_nat (length (ru_delegations rule))) 0 0 errAuthorizationDenied
               (ru_delegations rule) s
           else if cls = RC_MECHANISM then evaluate_class_mechanism n env rule s
           else Some (errAuthorizationInternal, s))"
  by (cases rule) (simp only: evaluate_rule.simps rule.sel Let_def)

declare evaluate_rule.simps [simp del]

lemma frame_class_rule:
  assumes "\<And>d s st s'. d \<in> set ds \<Longrightarrow> evaluate_rule n env d s = Some (st, s') \<Longrightarrow> en_frame s' = en_frame s"
  shows "evaluate_class_rule n env kofn tot cnt succ status ds s = Some (st, s') \<Longrightarrow> en_frame s' = en_frame s"
  using assms
proof (induction ds arbitrary: kofn cnt succ status s)
  case Nil
  then show ?case by simp
next
  case (Cons d ds)
  have one: "evaluate_rule n env d s = Some (st, s') \<Longrightarrow> en_frame s' = en_frame s" for s st s'
    using Cons.prems(2) [of d] by simp
  have rest: "evaluate_class_rule n env kofn tot cnt succ status ds s = Some (st, s') \<Longrightarrow> en_frame s' = en_frame s"
    for kofn cnt succ status s
    by (rule Cons.IH) (use Cons.prems(2) in \<open>auto\<close>)
  show ?case
    using Cons.prems(1) by (auto simp: Let_def split: if_splits option.splits dest!: one rest)
qed

lemma frame_rule [frame]: "evaluate_rule n env rule s = Some (st, s') \<Longrightarrow> en_frame s' = en_frame s"
proof (induction rule arbitrary: s st s' rule: rule_tree_induct)
  case (1 r)
  have delegates: "evaluate_class_rule n env k tot cnt succ status (ru_delegations r) s = Some (st, s') \<Longrightarrow> en_frame s' = en_frame s"
    for k tot cnt succ status s st s'
    by (rule frame_class_rule) (use 1(1) in auto)
  show ?case
    using 1(2) unfolding evaluate_rule_eq [of n env r]
    by (auto simp: Let_def split: if_splits dest!: frame_class_user frame_class_mechanism delegates)
qed

section \<open>What an authorization grants\<close>

lemma en_frame_eq:
  assumes "en_frame s' = en_frame s"
  shows "en_flags (ms_en s') = en_flags (ms_en s)" "en_grantedRights (ms_en s') = en_grantedRights (ms_en s)"
    "en_auth (ms_en s') = en_auth (ms_en s)" "en_proc (ms_en s') = en_proc (ms_en s)" "dm_db (ms_d s') = dm_db (ms_d s)"
    "en_currentRightName (ms_en s') = en_currentRightName (ms_en s)" "has_flag f s' = has_flag f s"
  using assms by (simp_all add: en_frame_def has_flag_def)

lemma rights_names_add [simp]: "map ai_name (auth_rights_add g k) = map ai_name g @ [k]"
  by (simp add: auth_rights_add_def auth_item_create_def)

lemma rights_names_set_flags [simp]: "map ai_name (auth_rights_set_flags g k f) = map ai_name g"
proof -
  have "map ai_name (update_right_item (\<lambda>i. i\<lparr> ai_flags := ai_flags i OR f \<rparr>) g k) = map ai_name g"
    by (induction g) auto
  then show ?thesis
    by (simp add: auth_rights_set_flags_def)
qed

lemma grant_right_simps [simp]:
  "map ai_name (en_grantedRights (ms_en (grant_right rights key rule s))) = map ai_name (en_grantedRights (ms_en s)) @ [key]"
  "en_flags (ms_en (grant_right rights key rule s)) = en_flags (ms_en s)"
  "dm_db (ms_d (grant_right rights key rule s)) = dm_db (ms_d s)"
  by (simp_all add: grant_right_def upd_en_def Let_def)

lemma finish_right_simps [simp]:
  "en_grantedRights (ms_en (finish_right s)) = en_grantedRights (ms_en s)"
  "en_flags (ms_en (finish_right s)) = en_flags (ms_en s)" "dm_db (ms_d (finish_right s)) = dm_db (ms_d s)"
  by (simp_all add: finish_right_def upd_en_def Let_def)

lemma prepare_right_simps [simp]:
  "en_grantedRights (ms_en (prepare_right depth flags key rule s)) = en_grantedRights (ms_en s)"
  "en_flags (ms_en (prepare_right depth flags key rule s)) = en_flags (ms_en s)"
  "dm_db (ms_d (prepare_right depth flags key rule s)) = dm_db (ms_d s)"
  "en_currentRightName (ms_en (prepare_right depth flags key rule s)) = key"
proof -
  define t where "t = put_int64 Hints ''flags'' (ucast flags) (set_right_hints key s)"
  define u where "u = (if has_flag kAuthorizationFlagInteractionAllowed t \<or> en_credentialsProvided (ms_en t) then
      let s = set_localization_hints rule t
      in upd_en (\<lambda>e. e\<lparr> en_authenticateRule := (case en_authenticateRule e of Some r \<Rightarrow> Some r
         | None \<Rightarrow> rule_create_with_string depth (Some ''authenticate'') (Some (dm_db (ms_d s)))) \<rparr>) s else t)"
  have "en_frame u = en_frame s"
    by (simp add: u_def t_def Let_def)
  moreover have "prepare_right depth flags key rule s = upd_en (\<lambda>e. e\<lparr> en_currentRightName := key \<rparr>) u"
    by (simp add: prepare_right_def u_def t_def Let_def)
  ultimately show "en_grantedRights (ms_en (prepare_right depth flags key rule s)) = en_grantedRights (ms_en s)"
    "en_flags (ms_en (prepare_right depth flags key rule s)) = en_flags (ms_en s)"
    "dm_db (ms_d (prepare_right depth flags key rule s)) = dm_db (ms_d s)"
    "en_currentRightName (ms_en (prepare_right depth flags key rule s)) = key"
    using en_frame_eq [of u s] by (simp_all add: upd_en_def)
qed

text \<open>The states the loop over the rights goes through from a first one, and a right that its rule grants in
  one of them, in which the sandbox let it be asked for.\<close>

definition right_state :: "nat \<Rightarrow> 32 word \<Rightarrow> string \<Rightarrow> rule \<Rightarrow> 'w machine \<Rightarrow> 'w machine" where
  "right_state depth fl key rule s = prepare_right depth fl key rule (ms_crash (rule_fault rule) s)"

inductive rights_reach ::
  "nat \<Rightarrow> nat \<Rightarrow> ('w, 'z) eenv_scheme \<Rightarrow> auth_rights \<Rightarrow> 32 word \<Rightarrow> 'w machine \<Rightarrow> db option \<Rightarrow> 'w machine \<Rightarrow> bool"
  for n depth env rights fl start where
    first: "rights_reach n depth env rights fl start None start"
  | right: "rights_reach n depth env rights fl start m s \<Longrightarrow> verify_sandbox env key s \<Longrightarrow>
      rule_of_right depth env key m s = (Some rule, m') \<Longrightarrow>
      evaluate_rule n env rule (right_state depth fl key rule s) = Some (st, s1) \<Longrightarrow>
      rights_reach n depth env rights fl start m'
        (finish_right (if st = errAuthorizationSuccess then grant_right rights key rule s1 else s1))"

definition granted_by ::
  "nat \<Rightarrow> nat \<Rightarrow> ('w, 'z) eenv_scheme \<Rightarrow> auth_rights \<Rightarrow> 32 word \<Rightarrow> 'w machine \<Rightarrow> string \<Rightarrow> bool" where
  "granted_by n depth env rights fl start key \<longleftrightarrow> (\<exists>s m rule m' s'. rights_reach n depth env rights fl start m s \<and>
     verify_sandbox env key s \<and> rule_of_right depth env key m s = (Some rule, m') \<and>
     evaluate_rule n env rule (right_state depth fl key rule s) = Some (errAuthorizationSuccess, s'))"

text \<open>The state in which the loop over the rights begins.\<close>

definition authorization_start ::
  "nat \<Rightarrow> ('w, 'z) eenv_scheme \<Rightarrow> auth_rights \<Rightarrow> auth_items option \<Rightarrow> 32 word \<Rightarrow> 'w machine \<Rightarrow> 'w machine" where
  "authorization_start depth env rights environment flags s =
     (let names = map ai_name rights;
          s = snd (prepare_authorization env names environment flags (s\<lparr> ms_save_pwd := False \<rparr>))
      in if \<not> has_flag kAuthorizationFlagIgnorePasswordOnly s \<and> list_ex (password_only_right depth (dm_db (ms_d s))) names
         then put_bool Immutable_Hints ''password-only'' True s else s)"

lemma authorize_rights_granted:
  "authorize_rights n depth env rights fl keys m st s = Some (st', s') \<Longrightarrow> rights_reach n depth env rights fl start m s \<Longrightarrow>
    \<exists>ks. map ai_name (en_grantedRights (ms_en s')) = map ai_name (en_grantedRights (ms_en s)) @ ks \<and> set ks \<subseteq> set keys \<and>
      list_all (granted_by n depth env rights fl start) ks \<and> en_flags (ms_en s') = en_flags (ms_en s) \<and>
      (\<not> has_flag kAuthorizationFlagPartialRights s \<and> st' = errAuthorizationSuccess \<longrightarrow> ks = keys)"
proof (induction keys arbitrary: m st s)
  case Nil
  then show ?case by simp
next
  case (Cons key keys)
  show ?case
  proof (cases "verify_sandbox env key s")
    case False
    then show ?thesis
      using Cons.prems by simp
  next
    case sandbox: True
    obtain r m1 where r: "rule_of_right depth env key m s = (r, m1)"
      by (cases "rule_of_right depth env key m s")
    show ?thesis
    proof (cases r)
      case None
      then show ?thesis
        using Cons.prems sandbox r by (auto simp: ms_crash_def upd_d_def)
    next
      case (Some rule)
      define s0 where "s0 = right_state depth fl key rule s"
      obtain st1 s1 where eval: "evaluate_rule n env rule s0 = Some (st1, s1)"
        using Cons.prems(1) sandbox r Some by (auto simp: s0_def right_state_def split: option.splits)
      define s2 where "s2 = finish_right (if st1 = errAuthorizationSuccess then grant_right rights key rule s1 else s1)"
      have s2: "en_flags (ms_en s2) = en_flags (ms_en s)"
        "map ai_name (en_grantedRights (ms_en s2)) = map ai_name (en_grantedRights (ms_en s)) @
           (if st1 = errAuthorizationSuccess then [key] else [])"
        using en_frame_eq [OF frame_rule [OF eval]] by (simp_all add: s2_def s0_def right_state_def ms_crash_def upd_d_def)
      have by_rule: "st1 = errAuthorizationSuccess \<Longrightarrow> granted_by n depth env rights fl start key"
        unfolding granted_by_def
        by (rule exI [of _ s], rule exI [of _ m], rule exI [of _ rule], rule exI [of _ m1], rule exI [of _ s1])
          (use sandbox r Some eval Cons.prems(2) in \<open>simp add: s0_def\<close>)
      have reach: "rights_reach n depth env rights fl start m1 s2"
        using rights_reach.right [OF Cons.prems(2) sandbox, of rule m1 st1 s1] r Some eval by (simp add: s0_def s2_def)
      have known: "known_status st1 = errAuthorizationSuccess \<longleftrightarrow> st1 = errAuthorizationSuccess"
        by (simp add: known_status_def)
      show ?thesis
      proof (cases "\<not> has_flag kAuthorizationFlagPartialRights s2 \<and> known_status st1 \<noteq> errAuthorizationSuccess")
        case True
        then have "st' = known_status st1" "s' = s2"
          using Cons.prems(1) sandbox r Some eval by (simp_all add: s0_def right_state_def s2_def Let_def)
        then show ?thesis
          using True s2 known by (intro exI [of _ "[]"]) simp
      next
        case False
        then have "authorize_rights n depth env rights fl keys m1 (known_status st1) s2 = Some (st', s')"
          using Cons.prems(1) sandbox r Some eval by (auto simp: s0_def right_state_def s2_def Let_def)
        from Cons.IH [OF this reach] obtain ks where ks:
          "map ai_name (en_grantedRights (ms_en s')) = map ai_name (en_grantedRights (ms_en s2)) @ ks" "set ks \<subseteq> set keys"
          "list_all (granted_by n depth env rights fl start) ks" "en_flags (ms_en s') = en_flags (ms_en s2)"
          "\<not> has_flag kAuthorizationFlagPartialRights s2 \<and> st' = errAuthorizationSuccess \<longrightarrow> ks = keys"
          by auto
        have flag: "has_flag kAuthorizationFlagPartialRights s2 = has_flag kAuthorizationFlagPartialRights s"
          using s2(1) by (simp add: has_flag_def)
        show ?thesis
          using ks s2 by_rule False flag known
          by (intro exI [of _ "(if st1 = errAuthorizationSuccess then [key] else []) @ ks"]) (auto split: if_splits)
      qed
    qed
  qed
qed

subsection \<open>The whole authorization\<close>

lemma frame_upd_token [simp]: "en_frame (upd_d (\<lambda>d. upd_token a u d) s) = en_frame s"
  by (simp add: en_frame_def upd_d_def upd_token_def)

lemma frame_prepare [simp]:
  "en_frame (restore_context env s) = en_frame s" "en_frame (parse_environment env items s) = en_frame s"
  "en_frame (provide_credentials s) = en_frame s" "en_frame (move_alternative_pam user s) = en_frame s"
  "en_frame (set_provided_uid env user s) = en_frame s" "en_frame (move_token environment s) = en_frame s"
proof -
  show provide: "en_frame (provide_credentials s) = en_frame s" for s
    by (simp add: provide_credentials_def)
  show "en_frame (restore_context env s) = en_frame s"
    by (auto simp: restore_context_def Let_def simp del: fold_simps intro!: frame_fold [THEN trans] split: prod.splits)
  show "en_frame (parse_environment env items s) = en_frame s"
    by (auto simp: parse_environment_def Let_def provide split: prod.splits option.splits dest!: frame_read(4,5))
  show "en_frame (move_alternative_pam user s) = en_frame s"
    by (auto simp: move_alternative_pam_def Let_def provide split: prod.splits option.splits dest!: frame_read(2))
  show "en_frame (set_provided_uid env user s) = en_frame s"
    by (simp add: set_provided_uid_def split: option.split)
  show "en_frame (move_token environment s) = en_frame s"
    by (simp add: move_token_def split: option.split)
qed

lemma frame_prepare_sheet [frame]: "prepare_sheet env environment user s = (b, s') \<Longrightarrow> en_frame s' = en_frame s"
proof -
  have take_pw: "en_frame (extract_password_from_la env s) = en_frame s" for s
    by (simp add: extract_password_from_la_def split: option.split)
  have acquire: "en_frame (snd (engine_acquire_sheet_data env s)) = en_frame s" for s
    by (simp add: engine_acquire_sheet_data_def Let_def)
  show "prepare_sheet env environment user s = (b, s') \<Longrightarrow> en_frame s' = en_frame s"
    by (auto simp: prepare_sheet_def Let_def take_pw acquire split: if_splits option.splits)
qed

lemma prepare_authorization_frame:
  assumes "prepare_authorization env names environment flags s = (b, s')"
  shows "en_flags (ms_en s') = local_flags names flags" "b \<Longrightarrow> en_grantedRights (ms_en s') = []"
    "\<not> b \<Longrightarrow> en_grantedRights (ms_en s') = en_grantedRights (ms_en s)" "dm_db (ms_d s') = dm_db (ms_d s)"
proof -
  define s1 where "s1 = upd_en (\<lambda>e. e\<lparr> en_flags := local_flags names flags \<rparr>) s"
  define s2 where "s2 = (case environment of None \<Rightarrow> restore_context env s1
    | Some items \<Rightarrow> copy_items Hints items (parse_environment env items (restore_context env s1)))"
  define s3 where "s3 = (if list_ex (\<lambda>r. r \<in> set names) elevation_rights then put_bool Immutable_Hints ''tid-prohibited'' True s2 else s2)"
  obtain user s4 where s4: "(case environment of None \<Rightarrow> (None, s3) | Some items \<Rightarrow> items_string items ''username'' s3) = (user, s4)"
    by fastforce
  define s5 where "s5 = move_token environment (set_provided_uid env user (move_alternative_pam user s4))"
  obtain go s6 where s6: "prepare_sheet env environment user s5 = (go, s6)"
    by fastforce
  have "en_frame s2 = en_frame s1" "en_frame s3 = en_frame s2" "en_frame s5 = en_frame s4"
    by (simp_all add: s2_def s3_def s5_def split: option.split)
  moreover have "en_frame s4 = en_frame s3"
    using s4 frame_read(5) by (auto split: option.splits)
  ultimately have "en_frame s6 = en_frame s1"
    using frame_prepare_sheet [OF s6] by simp
  note s6_eq = en_frame_eq [OF this]
  have "prepare_authorization env names environment flags s =
     (case (case environment of None \<Rightarrow> (None, s3) | Some items \<Rightarrow> items_string items ''username'' s3) of
        (user, s4) \<Rightarrow>
          (case prepare_sheet env environment user (move_token environment (set_provided_uid env user (move_alternative_pam user s4))) of
             (go, s6) \<Rightarrow> (go, if go then upd_en (\<lambda>e. e\<lparr> en_dismissed := False,
                en_grantedRights := auth_rights_clear (en_grantedRights e) \<rparr>) s6 else s6)))"
    unfolding prepare_authorization_def Let_def s3_def s2_def s1_def by (rule refl)
  then have "(b, s') = (go, if go then upd_en (\<lambda>e. e\<lparr> en_dismissed := False, en_grantedRights := auth_rights_clear (en_grantedRights e) \<rparr>) s6 else s6)"
    using assms s6 by (simp add: s4 s5_def)
  then show "en_flags (ms_en s') = local_flags names flags" "b \<Longrightarrow> en_grantedRights (ms_en s') = []"
    "\<not> b \<Longrightarrow> en_grantedRights (ms_en s') = en_grantedRights (ms_en s)" "dm_db (ms_d s') = dm_db (ms_d s)"
    using s6_eq by (auto simp: s1_def upd_en_def auth_rights_clear_def)
qed

lemma frame_finish [simp]: "en_frame (store_credentials env s) = en_frame s" "en_frame (export_context env status s) = en_frame s"
proof -
  show "en_frame (store_credentials env s) = en_frame s"
    unfolding store_credentials_def by (simp add: cf_iterate_all Let_def frame_fold)
  show "en_frame (export_context env status s) = en_frame s"
    by (auto simp: export_context_def Let_def split: prod.splits)
qed

lemma engine_cleanup_simps [simp]:
  "en_grantedRights (ms_en (engine_cleanup s)) = en_grantedRights (ms_en s)" "en_flags (ms_en (engine_cleanup s)) = en_flags (ms_en s)"
  by (simp_all add: engine_cleanup_def upd_en_def)

lemma smartcard_authorize_en:
  assumes "smartcard_authorize authorize env user s = Some (st, s')"
  shows "en_grantedRights (ms_en s') = en_grantedRights (ms_en s)"
  using assms by (auto simp: smartcard_authorize_def Let_def upd_d_def remove_key_def upd_en_def connection_create_def
      split: prod.splits if_splits option.splits)

lemma finish_authorization_spec:
  assumes "finish_authorization authorize env password_only status s = Some (st, s')"
  shows "en_grantedRights (ms_en s') = en_grantedRights (ms_en s)"
    "st = errAuthorizationSuccess \<Longrightarrow> rights_status status s = errAuthorizationSuccess"
proof -
  define s1 where "s1 = (if password_only then remove_key Immutable_Hints ''password-only'' s else s)"
  obtain req s2 where s2: "get_string Context ''rscuser'' s1 = (req, s2)"
    by fastforce
  have frame: "en_frame s1 = en_frame s" "en_frame s2 = en_frame s"
    using frame_read(2) [OF s2] by (simp_all add: s1_def)
  have same: "rights_status status s1 = rights_status status s"
    using en_frame_eq [OF frame(1)] by (simp add: rights_status_def s1_def remove_key_def upd_en_def)
  obtain st3 s3 where s3: "(case req of None \<Rightarrow> Some (rights_status status s1, s2)
      | Some user \<Rightarrow> if rights_status status s1 \<noteq> errAuthorizationSuccess then Some (rights_status status s1, s2)
          else smartcard_authorize authorize env user s2) = Some (st3, s3)"
    "st = st3" "s' = engine_cleanup (export_context env st3 (store_credentials env s3))"
    using assms unfolding finish_authorization_def s1_def [symmetric] by (auto simp: s2 Let_def)
  have "en_grantedRights (ms_en s3) = en_grantedRights (ms_en s2)"
    using s3(1) smartcard_authorize_en by (auto split: option.splits if_splits)
  then show "en_grantedRights (ms_en s') = en_grantedRights (ms_en s)"
    using en_frame_eq [OF frame(2)] en_frame_eq(2) [of "export_context env st3 (store_credentials env s3)" s3] by (simp add: s3(3))
  show "st = errAuthorizationSuccess \<Longrightarrow> rights_status status s = errAuthorizationSuccess"
    using s3(1,2) same by (auto split: option.splits if_splits)
qed

text \<open>What an authorization grants was asked for, and every right in it was granted by its rule, as the
  database had it, in a state that the loop over the rights reached and in which the sandboxes of the client
  and of the creator allowed the right to be asked for.  Without the flag for
  partial rights, success means that all the rights were granted, in their order.\<close>

theorem engine_authorize_grants:
  assumes "engine_authorize n depth env (Some rights) environment flags s = Some (status, s')"
    and "en_grantedRights (ms_en s) = []"
  shows "set (map ai_name (en_grantedRights (ms_en s'))) \<subseteq> set (map ai_name rights) \<and>
    list_all (granted_by (n - 1) depth env rights (shown_flags (map ai_name rights) flags s)
        (authorization_start depth env rights environment flags s)) (map ai_name (en_grantedRights (ms_en s'))) \<and>
    (status = errAuthorizationSuccess \<and> flags AND kAuthorizationFlagPartialRights = 0 \<longrightarrow>
      map ai_name (en_grantedRights (ms_en s')) = map ai_name rights)"
proof -
  let ?names = "map ai_name rights"
  obtain k where n: "n = Suc k"
    using assms(1) by (cases n) auto
  obtain go s1 where prep: "prepare_authorization env ?names environment flags (s\<lparr> ms_save_pwd := False \<rparr>) = (go, s1)"
    by fastforce
  note s1 = prepare_authorization_frame [OF prep]
  have flag: "flags AND kAuthorizationFlagPartialRights = 0 \<Longrightarrow> local_flags ?names flags AND kAuthorizationFlagPartialRights = 0"
    by (simp add: local_flags_def bit.conj_disj_distrib2)
  show ?thesis
  proof (cases go)
    case False
    then show ?thesis
      using assms prep s1(3) by (auto simp: n Let_def)
  next
    case True
    define p where "p = (\<not> has_flag kAuthorizationFlagIgnorePasswordOnly s1 \<and> list_ex (password_only_right depth (dm_db (ms_d s1))) ?names)"
    define s2 where "s2 = (if p then put_bool Immutable_Hints ''password-only'' True s1 else s1)"
    obtain st3 s3 where loop: "authorize_rights k depth env rights (shown_flags ?names flags s) ?names None errAuthorizationSuccess s2 =
        Some (st3, s3)"
      and fin: "finish_authorization (engine_authorize k depth env) env p st3 s3 = Some (status, s')"
      using assms(1) prep True
      by (auto simp: n Let_def p_def s2_def shown_flags_def bind_eq_Some_conv)
    have s2: "en_grantedRights (ms_en s2) = []" "en_flags (ms_en s2) = local_flags ?names flags"
      using s1 True en_frame_eq [of s2 s1] by (simp_all add: s2_def)
    obtain ks where ks: "map ai_name (en_grantedRights (ms_en s3)) = ks" "set ks \<subseteq> set ?names"
      "list_all (granted_by k depth env rights (shown_flags ?names flags s) s2) ks" "en_flags (ms_en s3) = en_flags (ms_en s2)"
      "\<not> has_flag kAuthorizationFlagPartialRights s2 \<and> st3 = errAuthorizationSuccess \<longrightarrow> ks = ?names"
      using authorize_rights_granted [OF loop rights_reach.first] s2(1) by auto
    note fs = finish_authorization_spec [OF fin]
    have "ks = ?names" if "status = errAuthorizationSuccess" "flags AND kAuthorizationFlagPartialRights = 0"
      using ks(4,5) fs(2) [OF that(1)] flag [OF that(2)] s2(2)
      by (auto simp: rights_status_def has_flag_def split: if_splits)
    moreover have "authorization_start depth env rights environment flags s = s2"
      using prep by (simp add: authorization_start_def s2_def p_def)
    ultimately show ?thesis
      using ks fs(1) by (simp add: n)
  qed
qed

lemma sample_authorization:
  "map_option (\<lambda>(st, s). (st, map ai_name (en_grantedRights (ms_en s))))
     (engine_authorize 1 2 (sample_eenv Agent_Invalid) (Some (auth_rights_add auth_rights_create ''b'')) None 0
       (sample_machine chain_db)) = Some (errAuthorizationSuccess, [''b''])"
  by code_simp

theorem engine_authorize_grants_witness:
  "\<exists>s'. engine_authorize 1 2 (sample_eenv Agent_Invalid) (Some (auth_rights_add auth_rights_create ''b'')) None 0
      (sample_machine chain_db) = Some (errAuthorizationSuccess, s') \<and>
    granted_by 0 2 (sample_eenv Agent_Invalid) (auth_rights_add auth_rights_create ''b'')
      (shown_flags [''b''] 0 (sample_machine chain_db))
      (authorization_start 2 (sample_eenv Agent_Invalid) (auth_rights_add auth_rights_create ''b'') None 0
        (sample_machine chain_db)) ''b''"
proof -
  obtain s' where s': "engine_authorize 1 2 (sample_eenv Agent_Invalid) (Some (auth_rights_add auth_rights_create ''b'')) None 0
      (sample_machine chain_db) = Some (errAuthorizationSuccess, s')" "map ai_name (en_grantedRights (ms_en s')) = [''b'']"
    using sample_authorization unfolding map_option_eq_Some by auto
  have "map ai_name (auth_rights_add auth_rights_create ''b'') = [''b'']"
    by (simp add: auth_rights_create_def)
  then show ?thesis
    using engine_authorize_grants [OF s'(1)] s' by (simp add: sample_machine_def engine_new_def auth_rights_create_def)
qed

end
