(* ===== verification/Held_Laws.thy ===== *)
theory Held_Laws
  imports Engine_Laws
begin

text \<open>
  What a rule of class user grants on the credentials that are there.  Membership tests fill a cache in
  the credentials while they are looked through; the facts the rule depends on (the view of a
  credential) do not change thereby, so that the outcome can be said of the state before.
\<close>

unbundle bit_operations_syntax

section \<open>Views of the credentials\<close>

definition cred_view ::
  "('w, 'z) eenv_scheme \<Rightarrow> 'w \<Rightarrow> string option \<Rightarrow> credential \<Rightarrow>
    bool \<times> 32 word \<times> string option \<times> real \<times> bool \<times> bool \<times> bool" where
  "cred_view env w grp cred = (cr_right cred, cr_uid cred, cr_name cred, cr_creationTime cred, cr_valid cred, cr_shared cred,
     fst (credential_check_membership env w cred grp))"

lemma cred_view_eqD:
  assumes "cred_view env w grp c = cred_view env w grp c'"
  shows "cr_right c = cr_right c'" "cr_uid c = cr_uid c'" "cr_name c = cr_name c'"
    "cr_creationTime c = cr_creationTime c'" "cr_valid c = cr_valid c'" "cr_shared c = cr_shared c'"
    "fst (credential_check_membership env w c grp) = fst (credential_check_membership env w c' grp)"
  using assms by (simp_all add: cred_view_def)

text \<open>The cache that a membership test leaves answers the same test as before.\<close>

lemma cred_view_checked: "cred_view env w grp (snd (credential_check_membership env w cred grp)) = cred_view env w grp cred"
proof -
  have "x \<in> set (cfset_set (=) xs x)" for x :: string and xs
    by (rule pointer_set.set_mem)
  then show ?thesis
    by (auto simp: cred_view_def credential_check_membership_def split: option.splits)
qed

text \<open>States between which only caches, the creator's credential and new credentials differ.\<close>

definition held_same :: "('w, 'z) eenv_scheme \<Rightarrow> string option \<Rightarrow> 'w machine \<Rightarrow> 'w machine \<Rightarrow> bool" where
  "held_same env grp s s' \<longleftrightarrow> ms_en s' = ms_en s \<and> ms_agents s' = ms_agents s \<and> ms_world s' = ms_world s \<and>
     dm_sessions (ms_d s') = dm_sessions (ms_d s) \<and> dm_procs (ms_d s') = dm_procs (ms_d s) \<and>
     at_least_privileged (ms_token s') = at_least_privileged (ms_token s) \<and> at_session (ms_token s') = at_session (ms_token s) \<and>
     auth_token_get_uid (ms_token s') = auth_token_get_uid (ms_token s) \<and>
     map (cred_view env (ms_world s) grp) (take (length (dm_creds (ms_d s))) (dm_creds (ms_d s'))) =
       map (cred_view env (ms_world s) grp) (dm_creds (ms_d s))"

lemma held_same_refl: "held_same env grp s s"
  by (simp add: held_same_def)

lemma held_same_length: "held_same env grp s s' \<Longrightarrow> length (dm_creds (ms_d s)) \<le> length (dm_creds (ms_d s'))"
  unfolding held_same_def by (drule conjunct2)+ (drule arg_cong [where f = length], simp)

lemma held_same_view:
  assumes "held_same env grp s s'" "c < length (dm_creds (ms_d s))"
  shows "cred_view env (ms_world s) grp (ms_cred s' c) = cred_view env (ms_world s) grp (ms_cred s c)"
proof -
  have "map (cred_view env (ms_world s) grp) (take (length (dm_creds (ms_d s))) (dm_creds (ms_d s'))) ! c =
      map (cred_view env (ms_world s) grp) (dm_creds (ms_d s)) ! c"
    using assms(1) by (simp add: held_same_def)
  then show ?thesis
    using assms(2) held_same_length [OF assms(1)] by simp
qed

lemma held_same_trans:
  assumes "held_same env grp s s'" "held_same env grp s' s''"
  shows "held_same env grp s s''"
proof -
  let ?n = "length (dm_creds (ms_d s))" and ?v = "cred_view env (ms_world s) grp"
  have w: "ms_world s' = ms_world s"
    using assms(1) by (simp add: held_same_def)
  have "map ?v (take ?n (dm_creds (ms_d s''))) = map ?v (dm_creds (ms_d s))"
  proof (rule nth_equalityI)
    show "length (map ?v (take ?n (dm_creds (ms_d s'')))) = length (map ?v (dm_creds (ms_d s)))"
      using held_same_length [OF assms(1)] held_same_length [OF assms(2)] by simp
    fix i
    assume "i < length (map ?v (take ?n (dm_creds (ms_d s''))))"
    then have i: "i < ?n" "i < length (dm_creds (ms_d s'))"
      using held_same_length [OF assms(1)] by simp_all
    show "map ?v (take ?n (dm_creds (ms_d s''))) ! i = map ?v (dm_creds (ms_d s)) ! i"
      using held_same_view [OF assms(1) i(1)] held_same_view [OF assms(2) i(2)] i
        held_same_length [OF assms(2)] by (simp add: w)
  qed
  then show ?thesis
    using assms unfolding held_same_def by (elim conjE) (intro conjI; simp)
qed

lemma check_membership_held:
  assumes "check_membership env c grp s = (b, s')"
  shows "held_same env grp s s'" "b = fst (credential_check_membership env (ms_world s) (ms_cred s c) grp)"
proof -
  let ?cs = "dm_creds (ms_d s)" and ?c = "snd (credential_check_membership env (ms_world s) (ms_cred s c) grp)"
  have s': "s' = upd_d (\<lambda>d. d\<lparr> dm_creds := (dm_creds d)[c := ?c] \<rparr>) s"
    and b: "b = fst (credential_check_membership env (ms_world s) (ms_cred s c) grp)"
    using assms by (auto simp: check_membership_def split: prod.splits)
  show "b = fst (credential_check_membership env (ms_world s) (ms_cred s c) grp)"
    by (rule b)
  have "map (cred_view env (ms_world s) grp) (?cs[c := ?c]) = map (cred_view env (ms_world s) grp) ?cs"
    by (cases "c < length ?cs") (simp_all add: map_update cred_view_checked list_update_same_conv list_update_beyond)
  then show "held_same env grp s s'"
    by (simp add: held_same_def s' upd_d_def ms_world_def)
qed

section \<open>Credentials against a rule\<close>

text \<open>What a uid credential needs to satisfy a rule, outside FileVault unlock.\<close>

definition satisfies :: "('w, 'z) eenv_scheme \<Rightarrow> rule \<Rightarrow> bool \<Rightarrow> 'w machine \<Rightarrow> nat \<Rightarrow> bool" where
  "satisfies env rule ignoreShared s c \<longleftrightarrow>
     (let cred = ms_cred s c; w = ms_world s
      in rule_get_class rule = RC_USER \<and> cr_valid cred \<and>
         en_now (ms_en s) - cr_creationTime cred \<le> real_of_int (sint (rule_get_timeout rule)) \<and>
         (ignoreShared \<or> rule_get_shared env w rule \<or> \<not> cr_shared cred) \<and>
         (cr_uid cred = 0 \<or>
          rule_get_session_owner rule \<and> cr_uid cred = session_get_uid (ms_session s) \<or>
          (rule_get_securetokenuser rule \<longrightarrow> ee_secure_token env w (cr_name cred)) \<and>
          (rule_get_authenticate_user rule \<or> \<not> rule_check_flags rule (RuleFlagEntitledAndGroup OR RuleFlagVPNEntitledAndGroup)) \<and>
          fst (credential_check_membership env w cred (rule_get_group rule))))"

text \<open>A least-privileged client needs a credential for the right itself.\<close>

definition satisfies_right :: "('w, 'z) eenv_scheme \<Rightarrow> rule \<Rightarrow> bool \<Rightarrow> 'w machine \<Rightarrow> nat \<Rightarrow> bool" where
  "satisfies_right env rule ignoreShared s c \<longleftrightarrow>
     (if at_least_privileged (ms_token s)
      then let cred = ms_cred s c
           in cr_right cred \<and> cr_valid cred \<and> compare_string (Some (en_currentRightName (ms_en s))) (cr_name cred) \<and>
              (ignoreShared \<or> rule_get_shared env (ms_world s) rule \<or> \<not> cr_shared cred)
      else satisfies env rule ignoreShared s c)"

lemma held_same_simps:
  assumes "held_same env grp s s'"
  shows "ms_en s' = ms_en s" "ms_agents s' = ms_agents s" "ms_world s' = ms_world s"
    "dm_sessions (ms_d s') = dm_sessions (ms_d s)" "dm_procs (ms_d s') = dm_procs (ms_d s)"
    "at_least_privileged (dm_tokens (ms_d s') ! en_auth (ms_en s)) = at_least_privileged (ms_token s)"
    "at_session (dm_tokens (ms_d s') ! en_auth (ms_en s)) = at_session (ms_token s)"
    "auth_token_get_uid (dm_tokens (ms_d s') ! en_auth (ms_en s)) = auth_token_get_uid (ms_token s)"
  using assms unfolding held_same_def by (elim conjE; simp)+

lemma satisfies_held:
  assumes "held_same env (rule_get_group rule) s s'" "c < length (dm_creds (ms_d s))"
  shows "satisfies env rule ign s' c = satisfies env rule ign s c"
    "satisfies_right env rule ign s' c = satisfies_right env rule ign s c"
proof -
  note view = cred_view_eqD [OF held_same_view [OF assms]]
  show sat: "satisfies env rule ign s' c = satisfies env rule ign s c"
    unfolding satisfies_def Let_def held_same_simps [OF assms(1)] view ..
  show "satisfies_right env rule ign s' c = satisfies_right env rule ign s c"
    unfolding satisfies_right_def Let_def held_same_simps [OF assms(1)] sat view ..
qed

lemma user_credential_held:
  assumes "\<not> env_fvunlock env (ms_world s)"
    and "evaluate_user_credential_for_rule env c rule ign False s = (st, s')"
  shows "held_same env (rule_get_group rule) s s'" "st = errAuthorizationSuccess \<longleftrightarrow> satisfies env rule ign s c"
    "st = errAuthorizationSuccess \<or> st = errAuthorizationDenied"
proof -
  have none: "fst (credential_check_membership env w cred None) = False" for w cred
    by (simp add: credential_check_membership_def)
  have fv: "is_fvunlock_user_in_group env rule t = (False, t)" if "ms_world t = ms_world s" for t
    using assms(1) that by (simp add: is_fvunlock_user_in_group_def isInFVUnlockOrRecovery_def)
  obtain b t where member: "check_membership env c (rule_get_group rule) s = (b, t)"
    by fastforce
  note held = check_membership_held [OF member]
  have "(held_same env (rule_get_group rule) s s' \<and> (st = errAuthorizationSuccess \<longleftrightarrow> satisfies env rule ign s c)) \<and>
      (st = errAuthorizationSuccess \<or> st = errAuthorizationDenied)"
    using assms(2) assms(1) member held fv [OF held_same_simps(3) [OF held(1)]]
    by (auto simp: evaluate_user_credential_for_rule_def satisfies_def Let_def set_reason_def isInFVUnlockOrRecovery_def none held_same_refl
        split: if_splits option.splits)
  then show "held_same env (rule_get_group rule) s s'" "st = errAuthorizationSuccess \<longleftrightarrow> satisfies env rule ign s c"
    "st = errAuthorizationSuccess \<or> st = errAuthorizationDenied"
    by blast+
qed

lemma credential_held:
  assumes "\<not> env_fvunlock env (ms_world s)"
    and "evaluate_credential_for_rule env c rule ign False s = (st, s')"
  shows "held_same env (rule_get_group rule) s s'" "st = errAuthorizationSuccess \<longleftrightarrow> satisfies_right env rule ign s c"
    "st = errAuthorizationSuccess \<or> st = errAuthorizationDenied"
proof -
  have "(held_same env (rule_get_group rule) s s' \<and> (st = errAuthorizationSuccess \<longleftrightarrow> satisfies_right env rule ign s c)) \<and>
      (st = errAuthorizationSuccess \<or> st = errAuthorizationDenied)"
  proof (cases "at_least_privileged (ms_token s)")
    case True
    then show ?thesis
      using assms(2)
      by (auto simp: evaluate_credential_for_rule_def satisfies_right_def Let_def set_reason_def held_same_refl split: if_splits)
  next
    case False
    then show ?thesis
      using assms(2) user_credential_held [OF assms(1), of c rule ign st s']
      by (auto simp: evaluate_credential_for_rule_def satisfies_right_def)
  qed
  then show "held_same env (rule_get_group rule) s s'" "st = errAuthorizationSuccess \<longleftrightarrow> satisfies_right env rule ign s c"
    "st = errAuthorizationSuccess \<or> st = errAuthorizationDenied"
    by blast+
qed

section \<open>Going through the credentials\<close>

text \<open>Nothing was sent to an agent.\<close>

definition quiet :: "'w machine \<Rightarrow> 'w machine \<Rightarrow> bool" where
  "quiet s s' \<longleftrightarrow> ms_agents s' = ms_agents s \<and> ms_world s' = ms_world s"

lemma quiet_held: "held_same env grp s s' \<Longrightarrow> quiet s s'"
  by (simp add: held_same_def quiet_def)

lemma quiet_trans: "quiet s s' \<Longrightarrow> quiet s' s'' \<Longrightarrow> quiet s s''"
  by (simp add: quiet_def)

lemma quiet_set_credential: "quiet s (engine_set_credential env c shared s)"
  by (auto simp: quiet_def engine_set_credential_def new_cred_def upd_en_def upd_d_def ms_world_def Let_def split: prod.splits)

lemma quiet_right_credential: "quiet s (set_right_credential env rule s)"
proof -
  obtain c t where t: "new_cred (credential_create_with_right env (ms_world s) (en_currentRightName (ms_en s))) s = (c, t)"
    by fastforce
  then have "quiet s t"
    by (auto simp: quiet_def new_cred_def upd_d_def ms_world_def)
  then show ?thesis
    using quiet_trans [OF _ quiet_set_credential] t by (simp add: set_right_credential_def)
qed

lemma iterate_held:
  assumes step: "\<And>c st s1. held_same env grp s s1 \<Longrightarrow> c \<in> set cs \<Longrightarrow>
      \<exists>st' s'. iter c (st, s1) = (\<not> ok c, st', s') \<and> quiet s s' \<and>
        (if ok c then st' = errAuthorizationSuccess else st' = errAuthorizationDenied \<and> held_same env grp s s')"
  shows "held_same env grp s s1 \<Longrightarrow> cf_iterate iter cs b (errAuthorizationDenied, s1) = (b', st', s') \<Longrightarrow>
    st' = (if \<exists>c\<in>set cs. ok c then errAuthorizationSuccess else errAuthorizationDenied) \<and> quiet s s' \<and>
    (st' = errAuthorizationDenied \<longrightarrow> held_same env grp s s')"
  using step
proof (induction cs arbitrary: b s1)
  case Nil
  then show ?case
    by (simp add: quiet_held)
next
  case (Cons c cs)
  obtain st2 s2 where one: "iter c (errAuthorizationDenied, s1) = (\<not> ok c, st2, s2)" "quiet s s2"
    "if ok c then st2 = errAuthorizationSuccess else st2 = errAuthorizationDenied \<and> held_same env grp s s2"
    using Cons.prems(3) [OF Cons.prems(1), of c errAuthorizationDenied] by force
  show ?case
  proof (cases "ok c")
    case True
    then show ?thesis
      using Cons.prems(2) one by auto
  next
    case False
    then have "held_same env grp s s2" "cf_iterate iter cs True (errAuthorizationDenied, s2) = (b', st', s')"
      using Cons.prems(2) one by auto
    then show ?thesis
      using Cons.IH [of s2 True] Cons.prems(3) False by auto
  qed
qed

text \<open>A credential that was acquired satisfies the rule; for a least-privileged client a uid credential may
  stand for the right.\<close>

definition acquired_satisfies :: "('w, 'z) eenv_scheme \<Rightarrow> rule \<Rightarrow> 'w machine \<Rightarrow> nat \<Rightarrow> bool" where
  "acquired_satisfies env rule s c \<longleftrightarrow>
     at_least_privileged (ms_token s) \<and> \<not> cr_right (ms_cred s c) \<and> satisfies env rule False s c \<or>
     satisfies_right env rule False s c"

lemma satisfies_valid: "satisfies env rule ign s c \<Longrightarrow> cr_valid (ms_cred s c)"
  by (simp add: satisfies_def Let_def)

lemma acquired_step_held:
  assumes "\<not> env_fvunlock env (ms_world s)" "held_same env (rule_get_group rule) s s1" "c < length (dm_creds (ms_d s))"
  shows "\<exists>st' s'. acquired_credential_step env rule c (st, s1) = (\<not> acquired_satisfies env rule s c, st', s') \<and> quiet s s' \<and>
    (if acquired_satisfies env rule s c then st' = errAuthorizationSuccess
     else st' = errAuthorizationDenied \<and> held_same env (rule_get_group rule) s s')"
proof -
  note same = held_same_simps [OF assms(2)] and sat = satisfies_held [OF assms(2,3)]
    and view = cred_view_eqD [OF held_same_view [OF assms(2,3)]]
  have fv: "\<not> env_fvunlock env (ms_world s1)"
    using assms(1) same by simp
  define user where "user \<longleftrightarrow> at_least_privileged (ms_token s) \<and> \<not> cr_right (ms_cred s c) \<and> cr_valid (ms_cred s c)"
  obtain st2 s2 where uc: "evaluate_user_credential_for_rule env c rule False False s1 = (st2, s2)"
    by fastforce
  note uch = user_credential_held [OF fv uc]
  define t where "t = (if user then s2 else s1)"
  have t: "held_same env (rule_get_group rule) s t"
    using held_same_trans [OF assms(2) uch(1)] assms(2) by (simp add: t_def)
  obtain st3 s3 where ec: "evaluate_credential_for_rule env c rule False False t = (st3, s3)"
    by fastforce
  have fv_t: "\<not> env_fvunlock env (ms_world t)"
    using assms(1) held_same_simps(3) [OF t] by simp
  note ech = credential_held [OF fv_t ec]
  have s3: "held_same env (rule_get_group rule) s s3"
    using held_same_trans [OF t ech(1)] .
  have st3: "st3 = errAuthorizationSuccess \<longleftrightarrow> satisfies_right env rule False s c"
    using ech(2) satisfies_held(2) [OF t assms(3)] by simp
  have right: "quiet s (set_right_credential env rule s2)"
    using quiet_trans [OF quiet_held [OF held_same_trans [OF assms(2) uch(1)]] quiet_right_credential] .
  have st2: "st2 = errAuthorizationSuccess \<longleftrightarrow> satisfies env rule False s c"
    using uch(2) sat(1) by simp
  have eq: "acquired_credential_step env rule c (st, s1) =
      (if user \<and> st2 = errAuthorizationSuccess then (False, st2, set_right_credential env rule s2)
       else (st3 \<noteq> errAuthorizationSuccess, st3, s3))"
    using ec by (auto simp: acquired_credential_step_def Let_def user_def t_def same view uc)
  show ?thesis
  proof (cases "user \<and> st2 = errAuthorizationSuccess")
    case True
    then show ?thesis
      using st2 right unfolding eq by (simp add: acquired_satisfies_def user_def)
  next
    case False
    then have "acquired_satisfies env rule s c \<longleftrightarrow> st3 = errAuthorizationSuccess"
      using st2 st3 satisfies_valid [of env rule False s c] by (auto simp: acquired_satisfies_def user_def)
    then show ?thesis
      using False s3 ech(3) quiet_held [OF s3] unfolding eq by auto
  qed
qed

lemma effective_step_held:
  assumes "\<not> env_fvunlock env (ms_world s)" "held_same env (rule_get_group rule) s s1" "c < length (dm_creds (ms_d s))"
  shows "\<exists>st' s'. effective_credential_step env rule c (st, s1) = (\<not> satisfies_right env rule False s c, st', s') \<and> quiet s s' \<and>
    (if satisfies_right env rule False s c then st' = errAuthorizationSuccess
     else st' = errAuthorizationDenied \<and> held_same env (rule_get_group rule) s s')"
proof -
  have fv: "\<not> env_fvunlock env (ms_world s1)"
    using assms(1) held_same_simps(3) [OF assms(2)] by simp
  obtain st2 s2 where ec: "evaluate_credential_for_rule env c rule False False s1 = (st2, s2)"
    by fastforce
  note ech = credential_held [OF fv ec]
  have s2: "held_same env (rule_get_group rule) s s2"
    using held_same_trans [OF assms(2) ech(1)] .
  have st2: "st2 = errAuthorizationSuccess \<longleftrightarrow> satisfies_right env rule False s c"
    using ech(2) satisfies_held(2) [OF assms(2,3)] by simp
  then show ?thesis
    using ec ech(3) s2 quiet_held [OF s2] quiet_trans [OF quiet_held [OF s2] quiet_set_credential]
    by (auto simp: effective_credential_step_def)
qed

section \<open>Entitlements\<close>

text \<open>The objects an engine refers to exist.\<close>

definition held_wf :: "'w machine \<Rightarrow> bool" where
  "held_wf s \<longleftrightarrow> en_auth (ms_en s) < length (dm_tokens (ms_d s)) \<and>
     list_all (\<lambda>c. c < length (dm_creds (ms_d s)))
       (en_sessionCredential (ms_en s) # en_credentials (ms_en s) @ en_effectiveCredentials (ms_en s) @
        (case at_credential (ms_token s) of None \<Rightarrow> [] | Some c \<Rightarrow> [c]))"

text \<open>The credential of the creator's uid, as it is or as it would be created, is in the rule's group.\<close>

definition creator_member :: "('w, 'z) eenv_scheme \<Rightarrow> string option \<Rightarrow> 'w machine \<Rightarrow> bool" where
  "creator_member env grp s =
     fst (credential_check_membership env (ms_world s)
       (case at_credential (ms_token s) of
          Some c \<Rightarrow> ms_cred s c
        | None \<Rightarrow> credential_create env (ms_world s) (auth_token_get_uid (ms_token s))) grp)"

definition entitled_member :: "('w, 'z) eenv_scheme \<Rightarrow> rule \<Rightarrow> 'w machine \<Rightarrow> bool" where
  "entitled_member env rule s \<longleftrightarrow> creator_member env (rule_get_group rule) s \<and>
     (rule_check_flags rule RuleFlagEntitledAndGroup \<and>
        auth_token_has_entitlement_for_right (dm_procs (ms_d s)) (ms_token s) (en_currentRightName (ms_en s)) \<or>
      rule_check_flags rule RuleFlagVPNEntitledAndGroup \<and>
        auth_token_copy_entitlement_value (dm_procs (ms_d s)) (ms_token s) ''com.apple.networking.vpn.configuration'' \<noteq> None)"

text \<open>One test of the creator's membership.\<close>

definition creator_test :: "('w, 'z) eenv_scheme \<Rightarrow> string option \<Rightarrow> 'w machine \<Rightarrow> bool \<times> 'w machine" where
  "creator_test env grp s =
     (case auth_token_get_credential env (ms_world s) (dm_creds (ms_d s)) (ms_token s) of
        (c, creds, auth) \<Rightarrow>
          check_membership env c grp (upd_d (\<lambda>d. upd_token (en_auth (ms_en s)) (\<lambda>_. auth) (d\<lparr> dm_creds := creds \<rparr>)) s))"

lemma creator_test_held:
  assumes "creator_test env grp s = (b, s')" "held_wf s"
  shows "held_same env grp s s'" "b = creator_member env grp s" "held_wf s'"
    "auth_token_copy_entitlement_value (dm_procs (ms_d s')) (ms_token s') e =
      auth_token_copy_entitlement_value (dm_procs (ms_d s)) (ms_token s) e"
    "creator_member env grp s' = creator_member env grp s"
proof -
  obtain c creds auth where get: "auth_token_get_credential env (ms_world s) (dm_creds (ms_d s)) (ms_token s) = (c, creds, auth)"
    by (metis surj_pair)
  define t where "t = upd_d (\<lambda>d. upd_token (en_auth (ms_en s)) (\<lambda>_. auth) (d\<lparr> dm_creds := creds \<rparr>)) s"
  have a: "en_auth (ms_en s) < length (dm_tokens (ms_d s))"
    using assms(2) by (simp add: held_wf_def)
  have auth: "at_credential auth = Some c" "at_creator auth = at_creator (ms_token s)" "at_session auth = at_session (ms_token s)"
    "at_least_privileged auth = at_least_privileged (ms_token s)" "auth_token_get_uid auth = auth_token_get_uid (ms_token s)"
    "take (length (dm_creds (ms_d s))) creds = dm_creds (ms_d s)" "c < length creds" "length (dm_creds (ms_d s)) \<le> length creds"
    and cred: "creds ! c = (case at_credential (ms_token s) of Some c \<Rightarrow> ms_cred s c
        | None \<Rightarrow> credential_create env (ms_world s) (auth_token_get_uid (ms_token s)))"
    using get assms(2)
    by (auto simp: auth_token_get_credential_def auth_token_get_uid_def held_wf_def split: option.splits)
  have t_fields: "ms_en t = ms_en s" "ms_agents t = ms_agents s" "ms_world t = ms_world s" "dm_procs (ms_d t) = dm_procs (ms_d s)"
    "dm_sessions (ms_d t) = dm_sessions (ms_d s)" "dm_creds (ms_d t) = creds"
    "dm_tokens (ms_d t) ! en_auth (ms_en s) = auth" "length (dm_tokens (ms_d t)) = length (dm_tokens (ms_d s))"
    using a by (simp_all add: t_def upd_d_def upd_token_def ms_world_def)
  have t: "held_same env grp s t"
    by (simp add: held_same_def t_fields auth)
  have chk: "check_membership env c grp t = (b, s')"
    using assms(1) by (simp add: creator_test_def get t_def)
  note held = check_membership_held [OF chk]
  show same: "held_same env grp s s'"
    using held_same_trans [OF t held(1)] .
  show b: "b = creator_member env grp s"
    using held(2) cred by (simp add: creator_member_def t_fields split: option.splits)
  have s': "s' = upd_d (\<lambda>d. d\<lparr> dm_creds := (dm_creds d)[c := snd (credential_check_membership env (ms_world s) (creds ! c) grp)] \<rparr>) t"
    using chk by (auto simp: check_membership_def t_fields split: prod.splits)
  have tok: "dm_tokens (ms_d s') ! en_auth (ms_en s) = auth" "dm_procs (ms_d s') = dm_procs (ms_d s)" "length (dm_tokens (ms_d s')) = length (dm_tokens (ms_d s))"
    "ms_en s' = ms_en s" "length (dm_creds (ms_d s')) = length creds"
    by (simp_all add: s' upd_d_def t_fields)
  have more: "list_all (\<lambda>c. c < length (dm_creds (ms_d s))) xs \<Longrightarrow> list_all (\<lambda>c. c < length creds) xs" for xs
    using auth(8) by (auto simp: list_all_iff)
  show "held_wf s'"
    using assms(2) auth(7,8) a more by (simp add: held_wf_def tok auth(1))
  show "auth_token_copy_entitlement_value (dm_procs (ms_d s')) (ms_token s') e =
      auth_token_copy_entitlement_value (dm_procs (ms_d s)) (ms_token s) e"
    by (simp add: tok auth_token_copy_entitlement_value_def auth(2))
  have "ms_cred s' c = snd (credential_check_membership env (ms_world s) (creds ! c) grp)"
    using auth(7) by (simp add: s' upd_d_def t_fields)
  then show "creator_member env grp s' = creator_member env grp s"
    using cred_view_eqD(7) [OF cred_view_checked [of env "ms_world s" grp "creds ! c"]] cred same
    by (simp add: creator_member_def tok auth(1) held_same_simps(3) [OF same] split: option.splits)
qed

lemma entitlement_held:
  assumes "check_entitlement_for_rule env rule s = (b, s')" "held_wf s"
  shows "held_same env (rule_get_group rule) s s'" "b = entitled_member env rule s" "held_wf s'"
proof -
  define first where "first \<longleftrightarrow> rule_check_flags rule RuleFlagEntitledAndGroup \<and>
    auth_token_has_entitlement_for_right (dm_procs (ms_d s)) (ms_token s) (en_currentRightName (ms_en s))"
  obtain b1 s1 where one: "creator_test env (rule_get_group rule) s = (b1, s1)"
    by fastforce
  define t where "t = (if first then s1 else s)"
  obtain b2 s2 where two: "creator_test env (rule_get_group rule) t = (b2, s2)"
    by fastforce
  note one' = creator_test_held [OF one assms(2)]
  have t: "held_same env (rule_get_group rule) s t" "held_wf t"
    "creator_member env (rule_get_group rule) t = creator_member env (rule_get_group rule) s"
    "auth_token_copy_entitlement_value (dm_procs (ms_d t)) (ms_token t) e =
      auth_token_copy_entitlement_value (dm_procs (ms_d s)) (ms_token s) e" for e
    using one' assms(2) by (simp_all add: t_def held_same_refl)
  note two' = creator_test_held [OF two t(2)]
  have eq: "check_entitlement_for_rule env rule s =
      (if first \<and> b1 then (True, s1)
       else if rule_check_flags rule RuleFlagVPNEntitledAndGroup \<and>
         auth_token_copy_entitlement_value (dm_procs (ms_d s)) (ms_token s) ''com.apple.networking.vpn.configuration'' \<noteq> None
       then (b2, s2) else (False, t))"
    using one two unfolding check_entitlement_for_rule_def creator_test_def [symmetric] Let_def first_def [symmetric]
    by (auto simp: t_def one'(4) split: if_splits)
  show "held_same env (rule_get_group rule) s s'" "held_wf s'"
    using assms(1) one'(1,3) two'(3) t(1,2) held_same_trans [OF t(1) two'(1)] unfolding eq by (auto split: if_splits)
  show "b = entitled_member env rule s"
    using assms(1) one'(2) two'(2) t(3) unfolding eq entitled_member_def first_def by (auto split: if_splits)
qed

section \<open>Rules of class user\<close>

lemma held_wf_held:
  assumes "held_wf s"
  shows "c \<in> set (en_credentials (ms_en s)) \<Longrightarrow> c < length (dm_creds (ms_d s))"
    "c \<in> set (en_effectiveCredentials (ms_en s)) \<Longrightarrow> c < length (dm_creds (ms_d s))"
    "en_sessionCredential (ms_en s) < length (dm_creds (ms_d s))"
  using assms by (auto simp: held_wf_def list_all_iff)

lemma acquired_held:
  assumes "held_same env (rule_get_group rule) s s'" "c < length (dm_creds (ms_d s))"
  shows "acquired_satisfies env rule s' c = acquired_satisfies env rule s c"
  using satisfies_held [OF assms] held_same_simps [OF assms(1)] cred_view_eqD(1) [OF held_same_view [OF assms]]
  by (simp add: acquired_satisfies_def)

text \<open>The two searches, one after the other.\<close>

lemma searches_held:
  assumes "\<not> env_fvunlock env (ms_world s)" "env_order_ok env" "held_wf s"
    and "cf_iterate (acquired_credential_step env rule) (env_order env (ms_world s) (en_credentials (ms_en s)))
      False (errAuthorizationDenied, s) = (b2, st2, s2)"
    and "cf_iterate (effective_credential_step env rule)
      (env_order env (ms_world s2) (en_effectiveCredentials (ms_en s2))) False (st2, s2) = (b3, st3, s3)"
  shows "st2 = (if list_ex (acquired_satisfies env rule s) (en_credentials (ms_en s)) then errAuthorizationSuccess
      else errAuthorizationDenied)" "quiet s s2"
    "st2 = errAuthorizationDenied \<Longrightarrow> st3 = (if list_ex (satisfies_right env rule False s) (en_effectiveCredentials (ms_en s))
      then errAuthorizationSuccess else errAuthorizationDenied)"
    "st2 = errAuthorizationDenied \<Longrightarrow> quiet s s3"
    "st2 = errAuthorizationDenied \<Longrightarrow> st3 = errAuthorizationDenied \<Longrightarrow> ms_en s3 = ms_en s"
proof -
  let ?g = "rule_get_group rule"
  have ex: "list_ex P xs \<longleftrightarrow> (\<exists>c\<in>set xs. P c)" for P and xs :: "nat list"
    by (simp add: list_ex_iff)
  have s2: "st2 = (if \<exists>c\<in>set (en_credentials (ms_en s)). acquired_satisfies env rule s c then errAuthorizationSuccess
      else errAuthorizationDenied) \<and> quiet s s2 \<and> (st2 = errAuthorizationDenied \<longrightarrow> held_same env ?g s s2)"
    by (rule iterate_held [where env = env, OF _ held_same_refl assms(4), unfolded env_order_set [OF assms(2)]])
      (rule acquired_step_held [OF assms(1) _ held_wf_held(1) [OF assms(3)]])
  then show "st2 = (if list_ex (acquired_satisfies env rule s) (en_credentials (ms_en s)) then errAuthorizationSuccess
      else errAuthorizationDenied)" "quiet s s2"
    by (simp_all add: ex)
  have s3: "st3 = (if \<exists>c\<in>set (en_effectiveCredentials (ms_en s)). satisfies_right env rule False s c then errAuthorizationSuccess
      else errAuthorizationDenied) \<and> quiet s s3 \<and> (st3 = errAuthorizationDenied \<longrightarrow> held_same env ?g s s3)"
    if denied: "st2 = errAuthorizationDenied"
  proof -
    have h: "held_same env ?g s s2"
      using s2 denied by simp
    show ?thesis
      by (rule iterate_held [OF _ h assms(5) [unfolded denied], unfolded env_order_set [OF assms(2)] held_same_simps(1) [OF h]])
        (rule effective_step_held [OF assms(1) _ held_wf_held(2) [OF assms(3)]])
  qed
  show "st2 = errAuthorizationDenied \<Longrightarrow> st3 = (if list_ex (satisfies_right env rule False s) (en_effectiveCredentials (ms_en s))
      then errAuthorizationSuccess else errAuthorizationDenied)"
    "st2 = errAuthorizationDenied \<Longrightarrow> quiet s s3"
    "st2 = errAuthorizationDenied \<Longrightarrow> st3 = errAuthorizationDenied \<Longrightarrow> ms_en s3 = ms_en s"
    using s3 held_same_simps(1) [of env ?g s s3] by (simp_all add: ex)
qed

text \<open>What the entitlement test leaves says of the credentials what was said before it.\<close>

lemma searched_held:
  assumes "held_same env (rule_get_group rule) s s1" "held_wf s"
  shows "list_ex (acquired_satisfies env rule s1) (en_credentials (ms_en s1)) = list_ex (acquired_satisfies env rule s) (en_credentials (ms_en s))"
    "list_ex (satisfies_right env rule False s1) (en_effectiveCredentials (ms_en s1)) =
      list_ex (satisfies_right env rule False s) (en_effectiveCredentials (ms_en s))"
    "satisfies env rule True s1 (en_sessionCredential (ms_en s1)) = satisfies env rule True s (en_sessionCredential (ms_en s))"
  using acquired_held [OF assms(1)] satisfies_held [OF assms(1)] held_wf_held [OF assms(2)] held_same_simps(1) [OF assms(1)]
  by (auto simp: list_ex_iff)

text \<open>Outside FileVault unlock and without the flag to extend rights, a rule of class user is decided at
  once, without a step of an agent, and by what is held: it is granted exactly when the creator is entitled
  and in the group, or is root and root is allowed, or the session's credential satisfies a rule that does
  not authenticate, or a credential that was acquired or that the session or the token holds satisfies it.\<close>

theorem user_rule_held:
  assumes "\<not> env_fvunlock env (ms_world s)" "env_order_ok env" "held_wf s"
    and "en_flags (ms_en s) AND kAuthorizationFlagExtendRights = 0"
  shows "\<exists>s'. quiet s s' \<and> evaluate_class_user n env rule s = Some
    (if entitled_member env rule s \<or> rule_get_allow_root rule \<and> auth_token_get_uid (ms_token s) = 0 \<or>
        (if rule_get_authenticate_user rule
         then list_ex (acquired_satisfies env rule s) (en_credentials (ms_en s)) \<or>
           list_ex (satisfies_right env rule False s) (en_effectiveCredentials (ms_en s))
         else satisfies env rule True s (en_sessionCredential (ms_en s)))
     then errAuthorizationSuccess else errAuthorizationDenied, s')"
proof -
  let ?acquired = "list_ex (acquired_satisfies env rule s) (en_credentials (ms_en s))"
  let ?effective = "list_ex (satisfies_right env rule False s) (en_effectiveCredentials (ms_en s))"
  obtain b s1 where ent: "check_entitlement_for_rule env rule s = (b, s1)"
    by fastforce
  note s1 = entitlement_held [OF ent assms(3)]
  note same1 = held_same_simps [OF s1(1)] and held1 = searched_held [OF s1(1) assms(3)]
  have fv: "\<not> env_fvunlock env (ms_world s1)"
    using assms(1) same1 by simp
  obtain b2 st2 s2 where loop: "cf_iterate (acquired_credential_step env rule) (env_order env (ms_world s1) (en_credentials (ms_en s1)))
      False (errAuthorizationDenied, s1) = (b2, st2, s2)"
    by (metis surj_pair)
  obtain b3 st3 s3 where loop2: "cf_iterate (effective_credential_step env rule)
      (env_order env (ms_world s2) (en_effectiveCredentials (ms_en s2))) False (st2, s2) = (b3, st3, s3)"
    by (metis surj_pair)
  note found = searches_held [OF fv assms(2) s1(3) loop loop2, unfolded held1]
  obtain st4 s4 where sc: "evaluate_user_credential_for_rule env (en_sessionCredential (ms_en s1)) rule True False s1 = (st4, s4)"
    by fastforce
  note sc' = user_credential_held [OF fv sc, unfolded held1]
  have quiet: "quiet s s1" "quiet s s4" "quiet s s2" "st2 = errAuthorizationDenied \<Longrightarrow> quiet s s3"
    using quiet_held [OF s1(1)] quiet_held [OF sc'(1)] found(2,4) by (auto intro: quiet_trans)
  have "evaluate_class_user n env rule s = Some
      (if b \<or> rule_get_allow_root rule \<and> auth_token_get_uid (ms_token s) = 0 then (errAuthorizationSuccess, s1)
       else if \<not> rule_get_authenticate_user rule
         then (if st4 = errAuthorizationSuccess then errAuthorizationSuccess else errAuthorizationDenied, s4)
       else if st2 = errAuthorizationSuccess then (st2, s2)
       else if st3 = errAuthorizationSuccess then (st3, s3) else (errAuthorizationDenied, s3))"
    using ent same1 loop loop2 sc fv found(1,3,5) assms(4)
    by (cases b) (auto simp: evaluate_class_user_def isInFVUnlockOrRecovery_def Let_def split: prod.splits if_splits)
  then show ?thesis
    using s1(2) sc'(2) found(1,3) quiet
    by (cases "b"; cases "rule_get_allow_root rule \<and> auth_token_get_uid (ms_token s) = 0"; cases "rule_get_authenticate_user rule";
        cases ?acquired; cases ?effective) auto
qed

text \<open>A credential of root that the engine has acquired satisfies a rule without a timeout.\<close>

definition held_machine :: "unit machine" where
  "held_machine = upd_en (\<lambda>e. e\<lparr> en_credentials := [0] \<rparr>)
     (upd_d (\<lambda>d. d\<lparr> dm_creds := [sample_cred 0 True] \<rparr>) (sample_machine chain_db))"

theorem user_rule_held_witness:
  "\<exists>s'. quiet held_machine s' \<and>
    evaluate_class_user 0 (sample_eenv Agent_Invalid) (sample_rule 1 (ucast RuleFlagAuthenticateUser) 0 [] []) held_machine =
      Some (errAuthorizationSuccess, s')"
proof -
  let ?env = "sample_eenv Agent_Invalid :: unit eenv" and ?rule = "sample_rule 1 (ucast RuleFlagAuthenticateUser) 0 [] []"
  have "env_order_ok ?env" "\<not> env_fvunlock ?env ()"
    by (simp_all add: sample_eenv_def env_order_ok_def plain_env_def env.defs)
  moreover have "held_wf held_machine" "en_flags (ms_en held_machine) AND kAuthorizationFlagExtendRights = 0" "ms_world held_machine = ()"
    by (simp_all add: held_wf_def held_machine_def sample_machine_def engine_new_def upd_en_def upd_d_def sample_daemon_def
        sample_token_def daemon_empty_def ms_world_def)
  moreover have "satisfies_right ?env ?rule False held_machine 0"
    by (simp add: satisfies_right_def satisfies_def held_machine_def sample_machine_def engine_new_def upd_en_def upd_d_def
        sample_daemon_def sample_token_def sample_cred_def Let_def)
  then have "acquired_satisfies ?env ?rule held_machine 0"
    by (simp add: acquired_satisfies_def)
  then have "list_ex (acquired_satisfies ?env ?rule held_machine) (en_credentials (ms_en held_machine))"
    by (simp add: held_machine_def upd_en_def)
  moreover have "rule_get_authenticate_user ?rule"
    by (simp add: rule_get_authenticate_user_def)
  ultimately show ?thesis
    using user_rule_held [of ?env held_machine 0 ?rule] by simp
qed

end
