(* ===== verification/Right_Laws.thy ===== *)
theory Right_Laws
  imports Engine_Laws "HOL-Library.Sublist"
begin

text \<open>
  The rule of a right is the one registered for its longest prefix, and the right that guards a
  modification of the database names the right that is modified.
\<close>

section \<open>Prefixes\<close>

text \<open>The names that are looked up for a right: itself, and its prefixes that end in a dot, the longest first.\<close>

definition dotted :: "string \<Rightarrow> string list" where
  "dotted s = rev (filter (\<lambda>p. p \<noteq> [] \<and> last p = CHR ''.'') (prefixes s))"

lemma dotted_simps [simp]:
  "dotted [] = []" "dotted (s @ [c]) = (if c = CHR ''.'' then (s @ [c]) # dotted s else dotted s)"
  by (simp_all add: dotted_def prefixes_snoc)

lemma up_to_dot_snoc: "up_to_dot (s @ [c]) = (if c = CHR ''.'' then Some (s @ [c]) else up_to_dot s)"
  by (simp add: up_to_dot_def)

lemma up_to_dot_dotted: "dotted s = (case up_to_dot s of None \<Rightarrow> [] | Some p \<Rightarrow> p # dotted (butlast p))"
proof (induction s rule: rev_induct)
  case Nil
  then show ?case by (simp add: up_to_dot_def)
next
  case (snoc c s)
  then show ?case by (simp add: up_to_dot_snoc)
qed

lemma find_name_candidates:
  "find_name dbconn exact name dot = List.find (right_in_db dbconn)
     (name # (if exact then [] else dotted (if dot then butlast name else name)))"
proof (induction dbconn exact name dot rule: find_name.induct)
  case (1 dbconn exact_match buf dot)
  then show ?case
    by (subst find_name.simps) (auto simp: up_to_dot_dotted [of "if dot then butlast buf else buf"] split: option.splits)
qed

lemma dotted_order: "sorted_wrt (\<lambda>p q. length q < length p) (dotted name)" "set (dotted name) = {p. prefix p name \<and> p \<noteq> [] \<and> last p = CHR ''.''}"
proof -
  show set: "set (dotted name) = {p. prefix p name \<and> p \<noteq> [] \<and> last p = CHR ''.''}" for name
    by (auto simp: dotted_def)
  show "sorted_wrt (\<lambda>p q. length q < length p) (dotted name)"
  proof (induction name rule: rev_induct)
    case Nil
    then show ?case by simp
  next
    case (snoc c name)
    then show ?case
      using set [of name] prefix_length_le by fastforce
  qed
qed

text \<open>The rule of a right is the rule of the first name that is registered as a right among the right itself
  and, unless an exact match is asked for, its prefixes that end in a dot, from the longest to the shortest;
  when none is registered it is the rule without a name, or the builtin default when that is missing.\<close>

theorem find_rule_longest_prefix:
  "find_rule depth dbconn name exact =
     (case List.find (right_in_db dbconn) (name # (if exact then [] else dotted name)) of
        Some p \<Rightarrow> rule_create_with_string depth (Some p) (Some dbconn)
      | None \<Rightarrow>
          if exact then None
          else map_option (\<lambda>r. if rule_get_id r = 0 then rule_create_default else r)
            (rule_create_with_string depth (Some []) (Some dbconn))) \<and>
   sorted_wrt (\<lambda>p q. length q < length p) (dotted name) \<and>
   set (dotted name) = {p. prefix p name \<and> p \<noteq> [] \<and> last p = CHR ''.''}"
  using dotted_order by (simp add: find_rule_def find_name_candidates map_option_case split: option.split)

section \<open>Modification\<close>

definition modification_prefixes :: "string list" where
  "modification_prefixes = [''config.'', ''config.modify.'', ''config.add.'', ''config.remove.'']"

lemma modification_right_cases:
  assumes "modification_right depth dbconn rule remove force = Inr x" "rule_get_name rule = Some name"
  shows "name \<noteq> []" "last name \<noteq> CHR ''.''"
    "\<exists>p\<in>set modification_prefixes. x = take 1023 (p @ name) \<and> (p = ''config.'' \<longleftrightarrow> strncase_eq name ''config.'' 7)"
proof -
  have cat: "strlcat (strlcat [] p BUFSIZ) name BUFSIZ = take 1023 (p @ name)" if "p \<in> set modification_prefixes" for p
    using that by (auto simp: modification_prefixes_def strlcat_def)
  show "name \<noteq> []" "last name \<noteq> CHR ''.''"
    using assms by (auto simp: modification_right_def)
  show "\<exists>p\<in>set modification_prefixes. x = take 1023 (p @ name) \<and> (p = ''config.'' \<longleftrightarrow> strncase_eq name ''config.'' 7)"
    using assms cat by (auto simp: modification_right_def modification_prefixes_def Let_def split: if_splits)
qed

lemma strncase_config: "strncase_eq name ''config.'' 7 \<Longrightarrow> name \<noteq> [] \<and> to_lower (hd name) = CHR ''c''"
  by (cases name) (auto simp: strncase_eq_def to_lower_def)

text \<open>The prefixes tell the kinds of modification apart.\<close>

lemma modification_prefixes_apart:
  assumes "p \<in> set modification_prefixes" "q \<in> set modification_prefixes" "p @ name = q @ name'"
    and "p = ''config.'' \<longleftrightarrow> strncase_eq name ''config.'' 7" "q = ''config.'' \<longleftrightarrow> strncase_eq name' ''config.'' 7"
  shows "p = q \<and> name = name'"
proof -
  have "to_lower (CHR ''m'') \<noteq> CHR ''c''" "to_lower (CHR ''a'') \<noteq> CHR ''c''" "to_lower (CHR ''r'') \<noteq> CHR ''c''"
    by (simp_all add: to_lower_def)
  then show ?thesis
    using assms strncase_config [of name] strncase_config [of name'] by (auto simp: modification_prefixes_def)
qed

text \<open>A modification of a right is guarded by a right below \<^verbatim>\<open>config.\<close> that names it: for names of up to 1009
  bytes no other right and no other kind of modification is guarded by the same right.  The buffer cuts longer names
  off, and rights that agree on their first 1016 bytes are guarded by one right.\<close>

theorem modification_right_names:
  assumes "rule_get_name rule = Some name" "rule_get_name rule' = Some name'"
  shows "(length name \<le> 1009 \<and> length name' \<le> 1009 \<and> modification_right depth dbconn rule remove force = Inr x \<and>
      modification_right depth dbconn rule' remove' force' = Inr x \<longrightarrow>
      name = name' \<and> (\<exists>p\<in>set modification_prefixes. x = p @ name)) \<and>
    (take 1016 name = take 1016 name' \<and> 1016 < length name \<and> 1016 < length name' \<and>
      last name \<noteq> CHR ''.'' \<and> last name' \<noteq> CHR ''.'' \<and> rule_get_id rule \<noteq> 0 \<and> rule_get_id rule' \<noteq> 0 \<longrightarrow>
      modification_right depth dbconn rule remove force = modification_right depth dbconn rule' remove force')"
proof (intro conjI impI)
  assume a: "length name \<le> 1009 \<and> length name' \<le> 1009 \<and> modification_right depth dbconn rule remove force = Inr x \<and>
      modification_right depth dbconn rule' remove' force' = Inr x"
  obtain p where p: "p \<in> set modification_prefixes" "x = take 1023 (p @ name)" "p = ''config.'' \<longleftrightarrow> strncase_eq name ''config.'' 7"
    using modification_right_cases(3) [OF _ assms(1)] a by blast
  obtain q where q: "q \<in> set modification_prefixes" "x = take 1023 (q @ name')" "q = ''config.'' \<longleftrightarrow> strncase_eq name' ''config.'' 7"
    using modification_right_cases(3) [OF _ assms(2)] a by blast
  have short: "length r \<le> 14" if "r \<in> set modification_prefixes" for r
    using that by (auto simp: modification_prefixes_def)
  have "take 1023 (p @ name) = p @ name" "take 1023 (q @ name') = q @ name'"
    by (rule take_all; use short [OF p(1)] short [OF q(1)] a in simp)+
  then have x: "x = p @ name" "x = q @ name'"
    using p(2) q(2) by simp_all
  then have "p @ name = q @ name'"
    by simp
  then show "name = name'" "\<exists>p\<in>set modification_prefixes. x = p @ name"
    using modification_prefixes_apart [OF p(1) q(1) _ p(3) q(3)] p(1) x(1) by blast+
next
  assume a: "take 1016 name = take 1016 name' \<and> 1016 < length name \<and> 1016 < length name' \<and>
      last name \<noteq> CHR ''.'' \<and> last name' \<noteq> CHR ''.'' \<and> rule_get_id rule \<noteq> 0 \<and> rule_get_id rule' \<noteq> 0"
  then obtain t u u' where t: "name = t @ u" "name' = t @ u'" "length t = 1016"
    by (metis append_take_drop_id length_take min.absorb2 less_imp_le)
  have cut: "strlcat (strlcat [] p BUFSIZ) name BUFSIZ = strlcat (strlcat [] p BUFSIZ) name' BUFSIZ"
    if "p \<in> set modification_prefixes" for p
    using that t(3) by (auto simp: modification_prefixes_def strlcat_def t(1,2))
  have config: "strncase_eq name ''config.'' 7 = strncase_eq name' ''config.'' 7"
    by (simp add: strncase_eq_def t)
  have "name \<noteq> []" "name' \<noteq> []"
    using a by auto
  then show "modification_right depth dbconn rule remove force = modification_right depth dbconn rule' remove force'"
    using a config cut assms by (simp add: modification_right_def Let_def modification_prefixes_def)
qed

lemma CHR_a_NUL: "CHR ''a'' \<noteq> NUL"
  by simp

definition named_sample :: "string \<Rightarrow> rule" where
  "named_sample name = Rule (pd_set_int64 (pd_set_string pd_empty ''name'' name) ''id'' 1) [] [] None None None"

lemma named_sample_fields:
  "NUL \<notin> set name \<Longrightarrow> rule_get_name (named_sample name) = Some name" "NUL \<notin> set name \<Longrightarrow> rule_get_id (named_sample name) = 1"
  by (simp_all add: named_sample_def rule_get_name_def rule_get_id_def pd_laws)

theorem modification_right_names_witness:
  "modification_right 1 db_initial (named_sample (replicate 1016 CHR ''a'' @ ''b'')) True False =
    modification_right 1 db_initial (named_sample (replicate 1016 CHR ''a'' @ ''c'')) True False"
proof -
  have "modification_right 1 db_initial (named_sample (t @ ''b'')) True False = modification_right 1 db_initial (named_sample (t @ ''c'')) True False"
    if "length t = 1016" "NUL \<notin> set t" for t
    by (rule modification_right_names [of _ "t @ ''b''" _ "t @ ''c''", THEN conjunct2, THEN mp])
      (use that in \<open>simp_all add: named_sample_fields\<close>)
  then show ?thesis
    by (metis CHR_a_NUL in_set_replicate length_replicate)
qed

end
