(* ===== verification/Evaluation_Laws.thy ===== *)
theory Evaluation_Laws
  imports Engine_Laws
begin

text \<open>
  The laws of the evaluation of rules: the number of steps only decides whether an evaluation returns, never what
  it returns; and the delegates of a rule of class rule are run in order and counted by k of n.
\<close>

unbundle bit_operations_syntax

section \<open>Steps\<close>

text \<open>With more steps a computation that returned returns the same: the flat order of the results, and
  its rules for the ways in which the evaluation is composed.\<close>

named_theorems extends

definition extends :: "'a option \<Rightarrow> 'a option \<Rightarrow> bool" where
  "extends a b \<longleftrightarrow> a = None \<or> b = a"

lemma extendsD: "extends a b \<Longrightarrow> a = Some r \<Longrightarrow> b = Some r"
  by (auto simp: extends_def)

lemma extends_None: "extends None b"
  by (simp add: extends_def)

lemma extends_refl: "extends a a"
  by (simp add: extends_def)

lemma extends_map [extends]: "extends a b \<Longrightarrow> extends (map_option f a) (map_option f b)"
  by (auto simp: extends_def)

lemma extends_if [extends]: "(b \<Longrightarrow> extends x x') \<Longrightarrow> (\<not> b \<Longrightarrow> extends y y') \<Longrightarrow>
    extends (if b then x else y) (if b then x' else y')"
  by simp

lemma extends_bind [extends]: "extends a b \<Longrightarrow> (\<And>x. extends (f x) (g x)) \<Longrightarrow>
    extends (case a of None \<Rightarrow> None | Some x \<Rightarrow> f x) (case b of None \<Rightarrow> None | Some x \<Rightarrow> g x)"
  by (auto simp: extends_def split: option.splits)

lemma extends_option [extends]: "extends x y \<Longrightarrow> (\<And>a. extends (f a) (g a)) \<Longrightarrow>
    extends (case p of None \<Rightarrow> x | Some a \<Rightarrow> f a) (case p of None \<Rightarrow> y | Some a \<Rightarrow> g a)"
  by (cases p) auto

lemma extends_prod [extends]: "(\<And>a b. extends (f a b) (g a b)) \<Longrightarrow>
    extends (case p of (a, b) \<Rightarrow> f a b) (case p of (a, b) \<Rightarrow> g a b)"
  by (cases p) auto

lemma extends_bool [extends]: "extends x x' \<Longrightarrow> extends y y' \<Longrightarrow>
    extends (case b of True \<Rightarrow> x | False \<Rightarrow> y) (case b of True \<Rightarrow> x' | False \<Rightarrow> y')"
  by (cases b) auto

lemma extends_outcome [extends]:
  "(\<And>a. extends (f a) (f' a)) \<Longrightarrow> (\<And>a. extends (g a) (g' a)) \<Longrightarrow> (\<And>a. extends (h a) (h' a)) \<Longrightarrow>
    extends x x' \<Longrightarrow>
    extends (case r of Mech_Result a \<Rightarrow> f a | Mech_Restart a \<Rightarrow> g a | Mech_Interrupted a \<Rightarrow> h a | Mech_Failed \<Rightarrow> x)
      (case r of Mech_Result a \<Rightarrow> f' a | Mech_Restart a \<Rightarrow> g' a | Mech_Interrupted a \<Rightarrow> h' a | Mech_Failed \<Rightarrow> x')"
  by (cases r) auto

lemma agent_create_loop_extends:
  "n \<le> m \<Longrightarrow> extends (agent_create_loop n env a msg first s) (agent_create_loop m env a msg first s)"
proof (induction n arbitrary: m s)
  case 0
  then show ?case by (simp add: extends_None)
next
  case (Suc n)
  then obtain m' where m: "m = Suc m'" "n \<le> m'" by (cases m) auto
  show ?case
    unfolding m(1) agent_create_loop.simps Let_def by (intro extends extends_refl Suc.IH m(2))
qed

lemma get_agent_extends: "n \<le> m \<Longrightarrow> extends (get_agent n env mech first s) (get_agent m env mech first s)"
  unfolding get_agent_def agent_create_def Let_def
  by (intro extends extends_refl agent_create_loop_extends)

lemma run_mechanism_agent_extends:
  "n \<le> m \<Longrightarrow> extends (run_mechanism_agent n env mechs i s) (run_mechanism_agent m env mechs i s)"
  unfolding run_mechanism_agent_def by (intro extends extends_refl get_agent_extends)

lemma mechanisms_loop_extends:
  "n \<le> m \<Longrightarrow> extends (mechanisms_loop n env ap la u mechs i sheet result s)
    (mechanisms_loop m env ap la u mechs i sheet result s)"
proof (induction n arbitrary: m i sheet result s)
  case 0
  then show ?case by (simp add: extends_None)
next
  case (Suc n)
  then obtain m' where m: "m = Suc m'" "n \<le> m'" by (cases m) auto
  show ?case
    unfolding m(1) mechanisms_loop.simps Let_def
    by (intro extends extends_refl run_mechanism_agent_extends Suc.IH m(2))
qed

lemma evaluate_mechanisms_extends:
  "n \<le> m \<Longrightarrow> extends (evaluate_mechanisms n env mechs s) (evaluate_mechanisms m env mechs s)"
  unfolding evaluate_mechanisms_def Let_def by (intro extends extends_refl mechanisms_loop_extends)

lemma authentication_loop_extends:
  "n \<le> m \<Longrightarrow> extends (authentication_loop n env rule mechs tries st s) (authentication_loop m env rule mechs tries st s)"
proof (induction n arbitrary: m st s)
  case 0
  then show ?case by (simp add: extends_None)
next
  case (Suc n)
  then obtain m' where m: "m = Suc m'" "n \<le> m'" by (cases m) auto
  show ?case
    unfolding m(1) authentication_loop.simps Let_def
    by (intro extends extends_refl evaluate_mechanisms_extends Suc.IH m(2))
qed

lemma evaluate_authentication_extends:
  "n \<le> m \<Longrightarrow> extends (evaluate_authentication n env rule s) (evaluate_authentication m env rule s)"
  unfolding evaluate_authentication_def Let_def by (intro extends extends_refl authentication_loop_extends)

lemma mechanism_try_extends: "n \<le> m \<Longrightarrow> extends (mechanism_try n env rule s) (mechanism_try m env rule s)"
  unfolding mechanism_try_def by (intro extends evaluate_mechanisms_extends)

lemma mechanism_tries_extends: "n \<le> m \<Longrightarrow> extends (mechanism_tries n env rule s) (mechanism_tries m env rule s)"
proof (induction n arbitrary: m s)
  case 0
  then show ?case by (simp add: extends_None)
next
  case (Suc n)
  then obtain m' where m: "m = Suc m'" "n \<le> m'" by (cases m) auto
  show ?case
    unfolding m(1) mechanism_tries.simps Let_def
    by (intro extends extends_refl mechanism_try_extends Suc.IH m(2))
qed

lemma evaluate_class_user_extends:
  "n \<le> m \<Longrightarrow> extends (evaluate_class_user n env rule s) (evaluate_class_user m env rule s)"
  unfolding evaluate_class_user_def Let_def by (intro extends extends_refl evaluate_authentication_extends)

lemma evaluate_class_mechanism_extends:
  "n \<le> m \<Longrightarrow> extends (evaluate_class_mechanism n env rule s) (evaluate_class_mechanism m env rule s)"
  unfolding evaluate_class_mechanism_def by (intro extends extends_refl mechanism_tries_extends)

lemma evaluate_class_rule_extends:
  assumes "\<And>d s. d \<in> set ds \<Longrightarrow> extends (evaluate_rule n env d s) (evaluate_rule m env d s)"
  shows "extends (evaluate_class_rule n env kofn tot cnt succ status ds s)
    (evaluate_class_rule m env kofn tot cnt succ status ds s)"
  using assms
proof (induction ds arbitrary: cnt succ status s)
  case Nil
  then show ?case by (simp add: extends_refl)
next
  case (Cons d ds)
  have IH: "extends (evaluate_class_rule n env kofn tot cnt succ status ds s)
      (evaluate_class_rule m env kofn tot cnt succ status ds s)" for cnt succ status s
    by (rule Cons.IH) (use Cons.prems in auto)
  show ?case
    unfolding evaluate_class_rule.simps Let_def
    by (intro extends extends_refl IH Cons.prems) simp
qed

lemma evaluate_rule_extends: "n \<le> m \<Longrightarrow> extends (evaluate_rule n env rule s) (evaluate_rule m env rule s)"
proof (induction rule arbitrary: s rule: rule_tree_induct)
  case (1 rule)
  show ?case
    unfolding evaluate_rule_eq [of n env rule] evaluate_rule_eq [of m env rule] Let_def
    by (intro extends extends_refl evaluate_class_user_extends evaluate_class_mechanism_extends
        evaluate_class_rule_extends 1)
qed

lemma authorize_rights_extends:
  "n \<le> m \<Longrightarrow> extends (authorize_rights n depth env rights fl keys mdb st s)
    (authorize_rights m depth env rights fl keys mdb st s)"
proof (induction keys arbitrary: mdb st s)
  case Nil
  then show ?case by (simp add: extends_refl)
next
  case (Cons key keys)
  show ?case
    unfolding authorize_rights.simps Let_def
    by (intro extends extends_refl evaluate_rule_extends Cons.IH Cons.prems)
qed

lemma finish_authorization_extends:
  "(\<And>r e f s. extends (authorize r e f s) (authorize' r e f s)) \<Longrightarrow>
    extends (finish_authorization authorize env p st s) (finish_authorization authorize' env p st s)"
  unfolding finish_authorization_def smartcard_authorize_def Let_def by (intro extends extends_refl)

lemma option_bind_case: "Option.bind a f = (case a of None \<Rightarrow> None | Some x \<Rightarrow> f x)"
  by (cases a) simp_all

text \<open>The number of steps only decides whether an authorization returns: with more of them an
  authorization that returned gives the same status and the same state.\<close>

lemma engine_authorize_steps: "extends (engine_authorize n depth env rights environment flags s)
    (engine_authorize (n + k) depth env rights environment flags s)"
proof (induction n arbitrary: rights environment flags s)
  case 0
  show ?case by (simp add: extends_None)
next
  case (Suc n)
  show ?case
    unfolding add_Suc engine_authorize.simps Let_def option_bind_case
    by (intro extends extends_refl authorize_rights_extends finish_authorization_extends Suc.IH) simp
qed

section \<open>Delegates\<close>

text \<open>The delegates of a rule, evaluated one after the other.\<close>

fun run_delegates :: "nat \<Rightarrow> ('w, 'z) eenv_scheme \<Rightarrow> rule list \<Rightarrow> 'w machine \<Rightarrow> (osstatus list \<times> 'w machine) option" where
  "run_delegates n env [] s = Some ([], s)"
| "run_delegates n env (d # ds) s =
     (case evaluate_rule n env d s of
        None \<Rightarrow> None
      | Some (status, s) \<Rightarrow> map_option (\<lambda>(sts, s). (status # sts, s)) (run_delegates n env ds s))"

definition successes :: "osstatus list \<Rightarrow> nat" where
  "successes sts = length (filter (\<lambda>st. st = errAuthorizationSuccess) sts)"

text \<open>What the loop over the delegates leaves: those it evaluated, with their results.\<close>

lemma run_delegates_class_rule:
  assumes "evaluate_class_rule n env kofn tot cnt succ status ds s = Some (st, s')"
  shows "\<exists>m sts. m \<le> length ds \<and> run_delegates n env (take m ds) s = Some (sts, s') \<and> length sts = m"
  using assms
proof (induction ds arbitrary: cnt succ status s)
  case Nil
  then show ?case by simp
next
  case (Cons d ds)
  show ?case
  proof (cases "kofn \<noteq> 0 \<and> ucast succ = kofn")
    case True
    then show ?thesis
      using Cons.prems by (intro exI [of _ 0]) simp
  next
    case False
    then obtain st1 s1 where one: "evaluate_rule n env d s = Some (st1, s1)"
      using Cons.prems by (auto simp: Let_def split: option.splits)
    have "s' = s1 \<or> (\<exists>cnt succ status. evaluate_class_rule n env kofn tot cnt succ status ds s1 = Some (st, s'))"
      using Cons.prems False one by (auto simp: Let_def split: if_splits)
    then show ?thesis
    proof
      assume "s' = s1"
      then show ?thesis
        using one by (intro exI [of _ 1]) simp
    next
      assume "\<exists>cnt succ status. evaluate_class_rule n env kofn tot cnt succ status ds s1 = Some (st, s')"
      then obtain m sts where "m \<le> length ds" "run_delegates n env (take m ds) s1 = Some (sts, s')" "length sts = m"
        using Cons.IH by blast
      then show ?thesis
        using one by (intro exI [of _ "Suc m"] exI [of _ "st1 # sts"]) simp
    qed
  qed
qed

text \<open>The counters are 32 bits wide and compared with a 64 bit number.\<close>

lemma sint_of_count: "j < 2 ^ 31 \<Longrightarrow> sint (ucast (of_nat j :: 32 word) :: 64 word) = int j"
  by (simp add: sint_uint unsigned_ucast_eq unsigned_of_nat signed_take_bit_int_eq_self take_bit_nat_eq_self take_bit_int_eq_self)

lemma count_words:
  fixes kofn :: "64 word"
  assumes "N < 2 ^ 31" "c \<le> N" "j \<le> N" "- (2 ^ 63) + int N \<le> sint kofn"
  shows "ucast (of_nat j :: 32 word) = kofn \<longleftrightarrow> int j = sint kofn"
    "ucast (of_nat N - of_nat c :: 32 word) <s kofn - ucast (of_nat j :: 32 word) \<longleftrightarrow> int (N - c) < sint kofn - int j"
proof -
  have j: "sint (ucast (of_nat j :: 32 word) :: 64 word) = int j"
    using assms by (intro sint_of_count) simp
  show "ucast (of_nat j :: 32 word) = kofn \<longleftrightarrow> int j = sint kofn"
    using j by (metis signed_word_eqI)
  have c: "of_nat N - of_nat c = (of_nat (N - c) :: 32 word)"
    using assms(2) by simp
  have "sint kofn < 2 ^ 63"
    using sint_lt [of kofn] by simp
  then have "sint (kofn - ucast (of_nat j :: 32 word)) = sint kofn - int j"
    using assms(3,4) by (simp add: sint_word_ariths j signed_take_bit_int_eq_self)
  then show "ucast (of_nat N - of_nat c :: 32 word) <s kofn - ucast (of_nat j :: 32 word) \<longleftrightarrow> int (N - c) < sint kofn - int j"
    unfolding word_sless_alt c using sint_of_count [of "N - c"] assms(1) by simp
qed

lemma class_rule_step:
  fixes kofn :: "64 word"
  assumes "N < 2 ^ 31" "- (2 ^ 63) + int N \<le> sint kofn" "Suc (c + length ds) = N" "j \<le> c"
    and "kofn = 0 \<or> int j \<noteq> sint kofn" "evaluate_rule n env d s = Some (st1, s1)"
  shows "evaluate_class_rule n env kofn (of_nat N) (of_nat c) (of_nat j) st0 (d # ds) s =
    (if st1 = errAuthorizationSuccess
     then evaluate_class_rule n env kofn (of_nat N) (of_nat (Suc c)) (of_nat (Suc j)) st1 ds s1
     else if st1 = errAuthorizationCanceled \<or> st1 = errAuthorizationInternal \<or> kofn = 0 \<or>
       int (length ds) < sint kofn - int j then Some (st1, s1)
     else evaluate_class_rule n env kofn (of_nat N) (of_nat (Suc c)) (of_nat j) st1 ds s1)"
proof -
  have c: "of_nat c + 1 = (of_nat (Suc c) :: 32 word)" and j: "of_nat j + 1 = (of_nat (Suc j) :: 32 word)"
    by (simp_all add: add.commute)
  have "N - Suc c = length ds"
    using assms(3) by simp
  then have "ucast (of_nat N - of_nat (Suc c) :: 32 word) <s kofn - ucast (of_nat j :: 32 word) \<longleftrightarrow>
      int (length ds) < sint kofn - int j"
    using count_words(2) [OF assms(1) _ _ assms(2), of "Suc c" j] assms(3,4) by simp
  moreover have "\<not> (kofn \<noteq> 0 \<and> ucast (of_nat j :: 32 word) = kofn)"
    using count_words(1) [OF assms(1) _ _ assms(2), of c j] assms(3-5) by auto
  ultimately show ?thesis
    using assms(6) by (simp only: evaluate_class_rule.simps Let_def c j) simp
qed

text \<open>How k of n is counted, from \<^term>\<open>j\<close> successes and the status \<^term>\<open>st0\<close> of the last delegate on.\<close>

definition counted :: "int \<Rightarrow> nat \<Rightarrow> nat \<Rightarrow> osstatus \<Rightarrow> osstatus list \<Rightarrow> bool" where
  "counted K rest j st0 sts \<longleftrightarrow>
     (if K = 0 \<or> int rest < K - int j then (rest \<noteq> 0 \<or> st0 = errAuthorizationSuccess) \<and> successes sts = rest
      else if 0 < K then int (j + successes sts) = K
      else last (st0 # sts) = errAuthorizationSuccess)"

lemma successes_simps [simp]:
  "successes [] = 0" "successes (st # sts) = (if st = errAuthorizationSuccess then Suc (successes sts) else successes sts)"
  by (simp_all add: successes_def)

lemma successes_le: "successes sts \<le> length sts"
  by (simp add: successes_def)

lemma class_rule_counts:
  fixes kofn :: "64 word"
  assumes "N < 2 ^ 31" "- (2 ^ 63) + int N \<le> sint kofn"
  shows "evaluate_class_rule n env kofn (of_nat N) (of_nat c) (of_nat j) st0 ds s = Some (st, s') \<Longrightarrow>
    c + length ds = N \<Longrightarrow> j \<le> c \<Longrightarrow>
    (0 < sint kofn \<longrightarrow> int j \<le> sint kofn \<and> (ds = [] \<and> int j = sint kofn \<longrightarrow> st0 = errAuthorizationSuccess)) \<Longrightarrow>
    \<exists>sts. length sts \<le> length ds \<and> run_delegates n env (take (length sts) ds) s = Some (sts, s') \<and>
      (st = errAuthorizationSuccess \<longleftrightarrow> counted (sint kofn) (length ds) j st0 sts)"
proof (induction ds arbitrary: c j st0 s)
  case Nil
  then show ?case
    by (intro exI [of _ "[]"]) (auto simp: counted_def)
next
  case (Cons d ds)
  have K0: "kofn = 0 \<longleftrightarrow> sint kofn = 0"
    by (metis signed_0 signed_word_eqI)
  show ?case
  proof (cases "kofn \<noteq> 0 \<and> int j = sint kofn")
    case True
    then have "kofn \<noteq> 0 \<and> ucast (of_nat j :: 32 word) = kofn"
      using count_words(1) [OF assms(1) _ _ assms(2), of c j] Cons.prems by simp
    then have "st = errAuthorizationSuccess" "s' = s"
      using Cons.prems(1) by simp_all
    then show ?thesis
      using True K0 by (intro exI [of _ "[]"]) (auto simp: counted_def)
  next
    case False
    then have "\<not> (kofn \<noteq> 0 \<and> ucast (of_nat j :: 32 word) = kofn)"
      using count_words(1) [OF assms(1) _ _ assms(2), of c j] Cons.prems by auto
    then obtain st1 s1 where one: "evaluate_rule n env d s = Some (st1, s1)"
      using Cons.prems(1) by (auto simp: Let_def split: option.splits)
    have len: "Suc (c + length ds) = N"
      using Cons.prems(2) by simp
    note step = class_rule_step [OF assms(1,2) len Cons.prems(3) _ one, of st0]
    have step': "evaluate_class_rule n env kofn (of_nat N) (of_nat c) (of_nat j) st0 (d # ds) s =
        (if st1 = errAuthorizationSuccess
         then evaluate_class_rule n env kofn (of_nat N) (of_nat (Suc c)) (of_nat (Suc j)) st1 ds s1
         else if st1 = errAuthorizationCanceled \<or> st1 = errAuthorizationInternal \<or> kofn = 0 \<or>
           int (length ds) < sint kofn - int j then Some (st1, s1)
         else evaluate_class_rule n env kofn (of_nat N) (of_nat (Suc c)) (of_nat j) st1 ds s1)"
      by (rule step) (use False in auto)
    let ?K = "sint kofn" and ?rest = "length ds"
    have more: ?thesis if run: "evaluate_class_rule n env kofn (of_nat N) (of_nat (Suc c)) (of_nat i) st1 ds s1 = Some (st, s')"
      and le: "i \<le> Suc c" and pos: "0 < ?K \<longrightarrow> int i \<le> ?K \<and> (ds = [] \<and> int i = ?K \<longrightarrow> st1 = errAuthorizationSuccess)"
      and count: "\<And>sts. counted ?K ?rest i st1 sts = counted ?K (Suc ?rest) j st0 (st1 # sts)" for i
    proof -
      obtain sts where "length sts \<le> ?rest" "run_delegates n env (take (length sts) ds) s1 = Some (sts, s')"
        "st = errAuthorizationSuccess \<longleftrightarrow> counted ?K ?rest i st1 sts"
        using Cons.IH [OF run _ le pos] Cons.prems(2) by auto
      then show ?thesis
        using one count by (intro exI [of _ "st1 # sts"]) simp
    qed
    have bound: "0 < ?K \<longrightarrow> int j < ?K"
      using False Cons.prems(4) K0 by auto
    consider (success) "st1 = errAuthorizationSuccess"
      | (stop) "st1 \<noteq> errAuthorizationSuccess" "st = st1" "s' = s1"
      | (go_on) "st1 \<noteq> errAuthorizationSuccess" "?K \<noteq> 0" "\<not> int ?rest < ?K - int j"
          "evaluate_class_rule n env kofn (of_nat N) (of_nat (Suc c)) (of_nat j) st1 ds s1 = Some (st, s')"
      using Cons.prems(1) K0 unfolding step' by (auto split: if_splits)
    then show ?thesis
    proof cases
      case success
      then have run: "evaluate_class_rule n env kofn (of_nat N) (of_nat (Suc c)) (of_nat (Suc j)) st1 ds s1 = Some (st, s')"
        using Cons.prems(1) unfolding step' by simp
      show ?thesis
        using success bound Cons.prems(3) by (intro more [OF run]) (auto simp: counted_def)
    next
      case stop
      then show ?thesis
        using one bound by (intro exI [of _ "[st1]"]) (auto simp: counted_def)
    next
      case go_on
      show ?thesis
        using go_on bound Cons.prems(3) by (intro more [OF go_on(4)]) (auto simp: counted_def)
    qed
  qed
qed

text \<open>The delegates of a rule are evaluated in order, up to some point, and what they give is counted so:
  k of n with k between one and n succeeds exactly when k delegates did; without k, and just so with a
  k larger than n, it succeeds exactly when there are delegates and all of them did; with a negative k
  the last delegate decides.\<close>

theorem evaluate_class_rule_kofn:
  fixes kofn :: "64 word"
  assumes "evaluate_class_rule n env kofn (of_nat (length ds)) 0 0 errAuthorizationDenied ds s = Some (st, s')"
    and "length ds < 2 ^ 31" "- (2 ^ 62) \<le> sint kofn"
  shows "\<exists>sts. length sts \<le> length ds \<and> run_delegates n env (take (length sts) ds) s = Some (sts, s') \<and>
    (st = errAuthorizationSuccess \<longleftrightarrow>
      (if sint kofn = 0 \<or> int (length ds) < sint kofn then ds \<noteq> [] \<and> successes sts = length ds
       else if 0 < sint kofn then int (successes sts) = sint kofn
       else last (errAuthorizationDenied # sts) = errAuthorizationSuccess))"
proof -
  have low: "- (2 ^ 63) + int (length ds) \<le> sint kofn"
    using assms(2,3) by simp
  have "evaluate_class_rule n env kofn (of_nat (length ds)) (of_nat 0) (of_nat 0) errAuthorizationDenied ds s = Some (st, s')"
    using assms(1) by simp
  from class_rule_counts [OF assms(2) low this] obtain sts where sts: "length sts \<le> length ds" "run_delegates n env (take (length sts) ds) s = Some (sts, s')"
    "st = errAuthorizationSuccess \<longleftrightarrow> counted (sint kofn) (length ds) 0 errAuthorizationDenied sts"
    by auto
  show ?thesis
    by (rule exI [of _ sts]) (simp add: sts counted_def del: last.simps)
qed

theorem evaluate_class_rule_kofn_witness:
  "\<exists>sts s'. run_delegates 0 (sample_eenv Agent_Invalid) (take (length sts) [sample_rule 5 0 0 [] [], sample_rule 4 0 0 [] []])
      (sample_machine chain_db) = Some (sts, s') \<and> successes sts = 1"
proof -
  let ?ds = "[sample_rule 5 0 0 [] [], sample_rule 4 0 0 [] []]"
  have "\<exists>s'. evaluate_class_rule 0 (sample_eenv Agent_Invalid) 1 (of_nat (length ?ds)) 0 0 errAuthorizationDenied ?ds
      (sample_machine chain_db) = Some (errAuthorizationSuccess, s')"
    by (simp add: evaluate_rule_eq word_sless_alt)
  then obtain s' where "evaluate_class_rule 0 (sample_eenv Agent_Invalid) 1 (of_nat (length ?ds)) 0 0 errAuthorizationDenied ?ds
      (sample_machine chain_db) = Some (errAuthorizationSuccess, s')" ..
  from evaluate_class_rule_kofn [OF this] obtain sts where
    "run_delegates 0 (sample_eenv Agent_Invalid) (take (length sts) ?ds) (sample_machine chain_db) = Some (sts, s')"
    "successes sts = 1"
    by (auto simp del: run_delegates.simps evaluate_class_rule.simps)
  then show ?thesis
    by (intro exI [of _ sts] exI [of _ s'] conjI)
qed

end
