(* ===== verification/Return_Laws.thy ===== *)
theory Return_Laws
  imports Evaluation_Laws
begin

text \<open>
  When the evaluation of a rule returns.  With agents that answer and do not interrupt, and with rules
  that limit the tries, it does; a rule with unlimited tries whose mechanisms always deny is evaluated
  for ever.
\<close>

unbundle bit_operations_syntax

section \<open>What the loops depend on\<close>

text \<open>Only operations on agents touch the agents, and only the loops the tries.\<close>

definition loop_frame :: "'w machine \<Rightarrow> 32 word \<times> (mechanism \<times> nat) list \<times> agent list" where
  "loop_frame s = (en_tries (ms_en s), en_mechanism_agents (ms_en s), ms_agents s)"

lemma loop_upd [simp]:
  "loop_frame (upd_d f s) = loop_frame s" "loop_frame (set_heap h s) = loop_frame s" "loop_frame (ms_crash b s) = loop_frame s"
  "loop_frame (s\<lparr> ms_save_pwd := p \<rparr>) = loop_frame s"
  "loop_frame (s\<lparr> ms_lcontext := i \<rparr>) = loop_frame s" "loop_frame (s\<lparr> ms_lhints := i \<rparr>) = loop_frame s"
  by (simp_all add: loop_frame_def set_heap_def ms_crash_def upd_d_def)

lemma loop_upd_en [simp]:
  "loop_frame (upd_en (\<lambda>e. e\<lparr> en_la_context := x1 \<rparr>) s) = loop_frame s"
  "loop_frame (upd_en (\<lambda>e. e\<lparr> en_reason := x3 \<rparr>) s) = loop_frame s"
  "loop_frame (upd_en (\<lambda>e. e\<lparr> en_credentials := f5 e \<rparr>) s) = loop_frame s"
  "loop_frame (upd_en (\<lambda>e. e\<lparr> en_sticky_context := f6 e \<rparr>) s) = loop_frame s"
  by (simp_all add: loop_frame_def upd_en_def)

lemma loop_bag [simp]: "loop_frame (bag_set b i s) = loop_frame s"
  by (cases b) (simp_all add: loop_frame_def upd_en_def)

lemma loop_put [simp]:
  "loop_frame (bag_put b f s) = loop_frame s" "loop_frame (put_string b k v1 s) = loop_frame s" "loop_frame (put_data b k v1 s) = loop_frame s"
  "loop_frame (put_int b k v2 s) = loop_frame s" "loop_frame (put_uint b k v2 s) = loop_frame s"
  "loop_frame (put_bool b k v4 s) = loop_frame s" "loop_frame (put_flags b k fl s) = loop_frame s" "loop_frame (remove_key b k s) = loop_frame s"
  "loop_frame (copy_items b i s) = loop_frame s" "loop_frame (copy_items_with_flags b i fl s) = loop_frame s"
  by (simp_all add: bag_put_def put_string_def put_data_def put_int_def put_uint_def put_bool_def put_flags_def
      remove_key_def copy_items_def copy_items_with_flags_def split: prod.split)

lemma loop_read:
  "bag_read b f s = (v, s') \<Longrightarrow> loop_frame s' = loop_frame s"
  "get_string b k s = (v1, s') \<Longrightarrow> loop_frame s' = loop_frame s"
  "get_uint b k s = (v2, s') \<Longrightarrow> loop_frame s' = loop_frame s"
  "new_cred c s = (a, s') \<Longrightarrow> loop_frame s' = loop_frame s"
  by (auto simp: bag_read_def get_string_def get_uint_def new_cred_def split: prod.splits)

lemma loop_credentials [simp]:
  "loop_frame (engine_set_credential env c shared s) = loop_frame s" "loop_frame (set_reason want r s) = loop_frame s"
  "loop_frame (set_session ses s) = loop_frame s" "loop_frame (set_session_attributes env flags s) = loop_frame s"
  "loop_frame (set_right_credential env rule s) = loop_frame s" "loop_frame (put_tries s) = loop_frame s"
  "loop_frame (accept_credential env c rule s) = loop_frame s" "loop_frame (mechanisms_export result s) = loop_frame s"
  "loop_frame (set_rule_hints rule s) = loop_frame s" "loop_frame (drop_empty_token s) = loop_frame s"
  "loop_frame (copy_from_agent a s) = loop_frame s"
proof -
  show set: "loop_frame (engine_set_credential env c shared s) = loop_frame s" for c shared s
    by (auto simp: engine_set_credential_def Let_def split: prod.splits dest!: loop_read(4))
  show "loop_frame (set_reason want r s) = loop_frame s"
    by (simp add: set_reason_def)
  show ses: "loop_frame (set_session ses s) = loop_frame s" for ses s
    by (simp add: set_session_def)
  show attr: "loop_frame (set_session_attributes env flags s) = loop_frame s" for flags s
    by (simp add: set_session_attributes_def ses split: prod.split)
  show right: "loop_frame (set_right_credential env rule s) = loop_frame s" for s
    by (auto simp: set_right_credential_def set split: prod.splits dest!: loop_read(4))
  show "loop_frame (put_tries s) = loop_frame s"
    by (simp add: put_tries_def Let_def)
  show "loop_frame (accept_credential env c rule s) = loop_frame s"
    by (simp add: accept_credential_def Let_def set right attr)
  show "loop_frame (mechanisms_export result s) = loop_frame s"
    by (simp add: mechanisms_export_def Let_def)
  show "loop_frame (set_rule_hints rule s) = loop_frame s"
    by (simp add: set_rule_hints_def Let_def split: option.split)
  show "loop_frame (drop_empty_token s) = loop_frame s"
    by (auto simp: drop_empty_token_def split: prod.splits dest!: loop_read(2))
  show "loop_frame (copy_from_agent a s) = loop_frame s"
    by (simp add: copy_from_agent_def Let_def)
qed

lemma loop_steps:
  "check_membership env c g s = (b, s') \<Longrightarrow> loop_frame s' = loop_frame s"
  "evaluate_user_credential_for_rule env c rule ign want s = (st, s') \<Longrightarrow> loop_frame s' = loop_frame s"
  "evaluate_credential_for_rule env c rule ign want s = (st, s') \<Longrightarrow> loop_frame s' = loop_frame s"
  "authenticated_credential env s = (k, s') \<Longrightarrow> loop_frame s' = loop_frame s"
  "mechanisms_user env ap s = (u, s') \<Longrightarrow> loop_frame s' = loop_frame s"
  "sheet_step env ap la uname mech sheet result s = (b, sh, res, s') \<Longrightarrow> loop_frame s' = loop_frame s"
proof -
  show member: "check_membership env c g s = (b, s') \<Longrightarrow> loop_frame s' = loop_frame s" for c g s b s'
    by (auto simp: check_membership_def split: prod.splits)
  have fv: "is_fvunlock_user_in_group env rule s = (b, s') \<Longrightarrow> loop_frame s' = loop_frame s" for s b s'
    by (auto simp: is_fvunlock_user_in_group_def split: prod.splits option.splits if_splits dest!: loop_read(2))
  show user: "evaluate_user_credential_for_rule env c rule ign want s = (st, s') \<Longrightarrow> loop_frame s' = loop_frame s" for s st s'
    by (auto simp: evaluate_user_credential_for_rule_def Let_def split: prod.splits option.splits if_splits bool.splits
        dest!: member fv)
  show "evaluate_credential_for_rule env c rule ign want s = (st, s') \<Longrightarrow> loop_frame s' = loop_frame s"
    by (auto simp: evaluate_credential_for_rule_def Let_def split: if_splits dest!: user)
  show "authenticated_credential env s = (k, s') \<Longrightarrow> loop_frame s' = loop_frame s"
    by (auto simp: authenticated_credential_def split: if_splits prod.splits dest!: loop_read(3,4))
  show "mechanisms_user env ap s = (u, s') \<Longrightarrow> loop_frame s' = loop_frame s"
    by (auto simp: mechanisms_user_def split: if_splits prod.splits dest!: loop_read(2,3))
  show "sheet_step env ap la uname mech sheet result s = (b, sh, res, s') \<Longrightarrow> loop_frame s' = loop_frame s"
    by (auto simp: sheet_step_def Let_def split: prod.splits if_splits dest!: loop_read(3))
qed

lemma loop_session_hints [simp]: "loop_frame (set_session_hints env rule s) = loop_frame s"
  by (auto simp: set_session_hints_def Let_def split: prod.splits option.splits dest!: loop_steps(2))

lemma loop_searches:
  "check_entitlement_for_rule env rule s = (b, s') \<Longrightarrow> loop_frame s' = loop_frame s"
  "cf_iterate (acquired_credential_step env rule) cs b (st, s) = (b', st', s') \<Longrightarrow> loop_frame s' = loop_frame s"
  "cf_iterate (effective_credential_step env rule) cs b (st, s) = (b', st', s') \<Longrightarrow> loop_frame s' = loop_frame s"
proof -
  show "check_entitlement_for_rule env rule s = (b, s') \<Longrightarrow> loop_frame s' = loop_frame s"
    by (auto simp: check_entitlement_for_rule_def Let_def split: if_splits prod.splits dest!: loop_steps(1))
  have iterate: "cf_iterate iter cs b (st, s) = (b', st', s') \<Longrightarrow> loop_frame s' = loop_frame s"
    if "\<And>c st s b st' s'. iter c (st, s) = (b, st', s') \<Longrightarrow> loop_frame s' = loop_frame s"
    for iter :: "nat \<Rightarrow> osstatus \<times> 'a machine \<Rightarrow> bool \<times> osstatus \<times> 'a machine" and cs b st s b' st' s'
  proof (induction cs arbitrary: b st s)
    case Nil
    then show ?case by simp
  next
    case (Cons c cs)
    then show ?case
      using that by (fastforce split: prod.splits if_splits)
  qed
  have acquired: "acquired_credential_step env rule c (st, s) = (b, st', s') \<Longrightarrow> loop_frame s' = loop_frame s" for c st s b st' s'
    by (auto simp: acquired_credential_step_def Let_def split: if_splits prod.splits dest!: loop_steps(2,3))
  have effective: "effective_credential_step env rule c (st, s) = (b, st', s') \<Longrightarrow> loop_frame s' = loop_frame s" for c st s b st' s'
    by (auto simp: effective_credential_step_def split: if_splits prod.splits dest!: loop_steps(3))
  show "cf_iterate (acquired_credential_step env rule) cs b (st, s) = (b', st', s') \<Longrightarrow> loop_frame s' = loop_frame s"
    by (rule iterate [of "acquired_credential_step env rule"]) (rule acquired)
  show "cf_iterate (effective_credential_step env rule) cs b (st, s) = (b', st', s') \<Longrightarrow> loop_frame s' = loop_frame s"
    by (rule iterate [of "effective_credential_step env rule"]) (rule effective)
qed

section \<open>Agents that answer\<close>

text \<open>Nothing happens while the engine waits, and the request to create a mechanism is refused or answered.\<close>

definition answers :: "('w, 'z) eenv_scheme \<Rightarrow> bool" where
  "answers env \<longleftrightarrow> (\<forall>w a args.
     case ee_send env w a (agent_request ''_agent_request_create'' args) of (reply, events, w') \<Rightarrow>
       reply = Agent_Invalid \<or> (\<exists>object. reply = Agent_Message object \<and> reply_is object ''_agent_reply_create'')) \<and>
     (\<forall>w a msg. fst (snd (ee_send env w a msg)) = [])"

text \<open>The engine's agents exist, and none of them asks to interrupt.\<close>

definition agents_ok :: "'w machine \<Rightarrow> bool" where
  "agents_ok s \<longleftrightarrow> list_all (\<lambda>(m, a). a < length (ms_agents s)) (en_mechanism_agents (ms_en s)) \<and>
     list_all (\<lambda>g. ag_pluginState g \<noteq> PS_interrupting) (ms_agents s)"

lemma agents_ok_frame: "loop_frame s' = loop_frame s \<Longrightarrow> agents_ok s' = agents_ok s"
  by (simp add: loop_frame_def agents_ok_def)

lemma upd_agent_ok:
  "agents_ok s \<Longrightarrow> (\<And>g. ag_pluginState g \<noteq> PS_interrupting \<Longrightarrow> ag_pluginState (f g) \<noteq> PS_interrupting) \<Longrightarrow>
    agents_ok (upd_agent a f s)"
  by (cases "a < length (ms_agents s)") (auto simp: agents_ok_def upd_agent_def list_all_length nth_list_update)

lemma upd_agent_fields [simp]:
  "en_tries (ms_en (upd_agent a f s)) = en_tries (ms_en s)" "length (ms_agents (upd_agent a f s)) = length (ms_agents s)"
  "a < length (ms_agents s) \<Longrightarrow> ms_agents (upd_agent a f s) ! a = f (ms_agents s ! a)"
  by (simp_all add: upd_agent_def)

lemma upd_d_fields [simp]: "ms_en (upd_d f s) = ms_en s" "ms_agents (upd_d f s) = ms_agents s" "agents_ok (upd_d f s) = agents_ok s"
  by (simp_all add: upd_d_def agents_ok_def)

lemma find_interrupting_none: "agents_ok s \<Longrightarrow> find_interrupting mechs i s = None"
proof -
  assume ok: "agents_ok s"
  have "ag_pluginState (ms_agents s ! a) \<noteq> PS_interrupting" if "find_agent m s = Some a" for m a
  proof -
    have "\<exists>k. (k, a) \<in> set (en_mechanism_agents (ms_en s))"
      using that by (auto simp: find_agent_def find_Some_iff) (metis nth_mem)
    then show ?thesis
      using ok by (auto simp: agents_ok_def list_all_iff)
  qed
  then show ?thesis
    by (auto simp: find_interrupting_def find_None_iff map_filter_def split: option.splits)
qed

lemma send_agent_answers:
  assumes "answers env"
  shows "\<exists>reply w. send_agent env a msg s = (reply, upd_d (\<lambda>d. d\<lparr> dm_world := w \<rparr>) s)"
proof -
  obtain reply events w where w: "ee_send env (ms_world s) a msg = (reply, events, w)"
    by (metis surj_pair)
  have "fst (snd (ee_send env (ms_world s) a msg)) = []"
    using assms unfolding answers_def by blast
  then have "send_agent env a msg s = (reply, upd_d (\<lambda>d. d\<lparr> dm_world := w \<rparr>) s)"
    using w by (simp add: send_agent_def)
  then show ?thesis
    by blast
qed

lemma send_create_answers:
  assumes "answers env" "send_agent env a (agent_request ''_agent_request_create'' args) s = (reply, s')"
  shows "reply = Agent_Invalid \<or> (\<exists>object. reply = Agent_Message object \<and> reply_is object ''_agent_reply_create'')"
proof -
  obtain reply' events w where w: "ee_send env (ms_world s) a (agent_request ''_agent_request_create'' args) = (reply', events, w)"
    by (metis surj_pair)
  have "case ee_send env (ms_world s) a (agent_request ''_agent_request_create'' args) of (reply, events, w') \<Rightarrow>
      reply = Agent_Invalid \<or> (\<exists>object. reply = Agent_Message object \<and> reply_is object ''_agent_reply_create'')"
    using assms(1) unfolding answers_def by (elim conjE allE)
  then show ?thesis
    using assms(2) w by (simp add: send_agent_def)
qed

lemma agent_create_returns:
  assumes "answers env" "agents_ok s"
  shows "\<exists>r s'. agent_create (Suc n) env mech first s = Some (r, s') \<and> agents_ok s' \<and> en_tries (ms_en s') = en_tries (ms_en s) \<and>
    (case r of None \<Rightarrow> True | Some a \<Rightarrow> a < length (ms_agents s'))"
proof -
  obtain service switch where con: "agent_connect env (ms_world s) mech (at_auditInfo (ms_token s)) = (service, switch)"
    by fastforce
  let ?a = "length (ms_agents s)"
  define msg where "msg = agent_request ''_agent_request_create''
    [(''_agent_plugin'', case mechanism_get_plugin mech of None \<Rightarrow> XPC_Null | Some p \<Rightarrow> XPC_String p),
     (''_agent_mechanism'', case mechanism_get_param mech of None \<Rightarrow> XPC_Null | Some p \<Rightarrow> XPC_String p)]"
  define g where "g = \<lparr> ag_hints = auth_items_create, ag_context = auth_items_create, ag_mech = mech, ag_pluginState = PS_init,
    ag_status = 0, ag_service = service, ag_switch = switch, ag_agentPid = process_get_pid (ms_proc s) \<rparr>"
  define t where "t = s\<lparr> ms_agents := ms_agents s @ [g] \<rparr>"
  obtain reply w where send: "send_agent env ?a msg t = (reply, upd_d (\<lambda>d. d\<lparr> dm_world := w \<rparr>) t)"
    using send_agent_answers [OF assms(1)] by blast
  define u where "u = agent_create_reply ?a reply (upd_d (\<lambda>d. d\<lparr> dm_world := w \<rparr>) t)"
  have t: "agents_ok t" "length (ms_agents t) = Suc ?a" "en_tries (ms_en t) = en_tries (ms_en s)"
    using assms(2) by (auto simp: agents_ok_def t_def g_def list_all_iff less_Suc_eq)
  have "reply = Agent_Invalid \<or> (\<exists>object. reply = Agent_Message object \<and> reply_is object ''_agent_reply_create'')"
    using send_create_answers [OF assms(1)] send unfolding msg_def by blast
  then have u: "agents_ok u" "length (ms_agents u) = Suc ?a" "en_tries (ms_en u) = en_tries (ms_en s)"
    "ag_pluginState (ms_agents u ! ?a) \<noteq> PS_init"
    using t by (auto simp: u_def agent_create_reply_def Let_def split: if_splits intro!: upd_agent_ok)
  have "agent_create_loop (Suc n) env ?a msg first t = Some u"
    using u(4) by (simp add: send Let_def u_def)
  then have "agent_create (Suc n) env mech first s = Some (if ag_pluginState (ms_agents u ! ?a) = PS_created then Some ?a else None, u)"
    by (simp add: agent_create_def con Let_def msg_def t_def g_def)
  then show ?thesis
    using u by auto
qed

lemma get_agent_returns:
  assumes "answers env" "agents_ok s"
  shows "\<exists>r s'. get_agent (Suc n) env mech first s = Some (r, s') \<and> agents_ok s' \<and> en_tries (ms_en s') = en_tries (ms_en s)"
proof (cases "find_agent mech s")
  case None
  obtain r s' where r: "agent_create (Suc n) env mech first s = Some (r, s')" "agents_ok s'"
    "en_tries (ms_en s') = en_tries (ms_en s)" "case r of None \<Rightarrow> True | Some a \<Rightarrow> a < length (ms_agents s')"
    using agent_create_returns [OF assms] by blast
  show ?thesis
    using r None by (cases r) (auto simp: get_agent_def agents_ok_def upd_en_def)
next
  case (Some a)
  then show ?thesis
    using assms by (simp add: get_agent_def)
qed

lemma agent_run_ok:
  assumes "answers env" "agents_ok s" "agent_run env a hints context imm s = (r, s')"
  shows "agents_ok s'" "en_tries (ms_en s') = en_tries (ms_en s)"
proof -
  have reply: "agents_ok (agent_run_reply a r t) \<and> en_tries (ms_en (agent_run_reply a r t)) = en_tries (ms_en t)"
    if "agents_ok t" for r and t :: "'a machine"
  proof -
    have "agents_ok (agent_take_items a object t)" "en_tries (ms_en (agent_take_items a object t)) = en_tries (ms_en t)" for object
      using that by (auto simp: agent_take_items_def Let_def set_heap_def split: prod.split intro!: upd_agent_ok)
    then show ?thesis
      using that by (auto simp: agent_run_reply_def ms_crash_def split: agent_reply.split intro!: upd_agent_ok)
  qed
  define s1 where "s1 = upd_agent a (\<lambda>g. g\<lparr> ag_pluginState := PS_current, ag_status := kAuthorizationResultUndefined,
    ag_hints := auth_items_clear (ag_hints g), ag_context := auth_items_clear (ag_context g) \<rparr>) s"
  have s1: "agents_ok s1" "en_tries (ms_en s1) = en_tries (ms_en s)"
    using assms(2) by (auto simp: s1_def intro!: upd_agent_ok)
  have sent: "agents_ok (upd_d (\<lambda>d. d\<lparr> dm_world := w \<rparr>) s1)" "en_tries (ms_en (upd_d (\<lambda>d. d\<lparr> dm_world := w \<rparr>) s1)) = en_tries (ms_en s)" for w
    using s1 by simp_all
  have "s' = s \<or> (\<exists>reply w. s' = agent_run_reply a reply (upd_d (\<lambda>d. d\<lparr> dm_world := w \<rparr>) s1))"
  proof (cases "ag_pluginState (ms_agents s ! a) = PS_mechinterrupting")
    case True
    then show ?thesis
      using assms(3) by (simp add: agent_run_def)
  next
    case False
    define msg where "msg = agent_request ''_agent_request_invoke''
       [(''_agent_hints'', auth_items_export_xpc (ms_items s) hints), (''_agent_context'', auth_items_export_xpc (ms_items s) context),
        (''_agent_immutable_hints'', auth_items_export_xpc (ms_items s) imm)]"
    obtain reply w where send: "send_agent env a msg s1 = (reply, upd_d (\<lambda>d. d\<lparr> dm_world := w \<rparr>) s1)"
      using send_agent_answers [OF assms(1)] by blast
    have "s' = (case send_agent env a msg s1 of (reply, s2) \<Rightarrow> agent_run_reply a reply s2)"
      using assms(3) False by (simp add: agent_run_def Let_def s1_def msg_def)
    then show ?thesis
      using send by auto
  qed
  then show "agents_ok s'" "en_tries (ms_en s') = en_tries (ms_en s)"
    using assms(2) reply sent by auto
qed

section \<open>Loops that end\<close>

text \<open>Two states with good agents and the same count of tries.\<close>

definition kept :: "'w machine \<Rightarrow> 'w machine \<Rightarrow> bool" where
  "kept s s' \<longleftrightarrow> agents_ok s' \<and> en_tries (ms_en s') = en_tries (ms_en s)"

lemma kept_frame: "loop_frame s' = loop_frame s \<Longrightarrow> agents_ok s \<Longrightarrow> kept s s'"
  using agents_ok_frame [of s' s] by (simp add: kept_def loop_frame_def)

lemma kept_trans: "kept s s' \<Longrightarrow> kept s' s'' \<Longrightarrow> kept s s''"
  by (simp add: kept_def)

lemma run_mechanism_returns:
  assumes "answers env" "agents_ok s"
  shows "\<exists>r s'. run_mechanism_agent (Suc n) env mechs i s = Some (r, s') \<and> kept s s' \<and> (r = Mech_Failed \<or> (\<exists>x. r = Mech_Result x))"
proof -
  obtain g s1 where g: "get_agent (Suc n) env (mechs ! i) (i = 0) s = Some (g, s1)" "agents_ok s1" "en_tries (ms_en s1) = en_tries (ms_en s)"
    using get_agent_returns [OF assms] by blast
  show ?thesis
  proof (cases g)
    case None
    then show ?thesis
      using g by (simp add: run_mechanism_agent_def kept_def)
  next
    case (Some a)
    obtain x s2 where x: "agent_run env a (ms_lhints s1) (ms_lcontext s1) (en_immutable_hints (ms_en s1)) s1 = (x, s2)"
      by fastforce
    have s2: "kept s s2"
      using agent_run_ok [OF assms(1) g(2) x] g(3) by (simp add: kept_def)
    have s3: "kept s (copy_from_agent a s2)" "kept s (drop_empty_token (copy_from_agent a s2))"
      using s2 kept_trans [OF s2 kept_frame] by (simp_all add: kept_def)
    then have "find_interrupting mechs i (copy_from_agent a s2) = None" "find_interrupting mechs i s1 = None"
      using g(2) by (simp_all add: find_interrupting_none kept_def)
    then show ?thesis
      using g Some x s3(2) by (simp add: run_mechanism_agent_def Let_def)
  qed
qed

lemma mechanisms_loop_returns:
  assumes "answers env"
  shows "agents_ok s \<Longrightarrow> i \<le> length mechs \<Longrightarrow> length mechs + 2 \<le> n + i \<Longrightarrow>
    \<exists>r s'. mechanisms_loop n env ap la u mechs i sheet result s = Some (r, s') \<and> kept s s'"
proof (induction n arbitrary: i sheet result s)
  case 0
  then show ?case by simp
next
  case (Suc n)
  show ?case
  proof (cases "length mechs \<le> i")
    case True
    then show ?thesis
      using Suc.prems by (simp add: kept_def)
  next
    case False
    then obtain k where k: "n = Suc k"
      using Suc.prems(2,3) by (cases n) auto
    have go: "\<exists>r s'. (if res = kAuthorizationResultAllow then mechanisms_loop n env ap la u mechs (Suc i) sh res t
        else Some (res, t)) = Some (r, s') \<and> kept s s'" if "kept s t" for res sh t
      using Suc.IH [of t "Suc i" sh res] Suc.prems False that kept_trans [OF that] by (auto simp: kept_def)
    show ?thesis
    proof (cases "mechanism_get_type (mechs ! i) \<noteq> 0")
      case True
      then show ?thesis
        using False go [of s "evaluate_builtin_mechanism (mechs ! i) s" sheet] Suc.prems(1) by (simp add: Let_def kept_def)
    next
      case type: False
      obtain b sh res s1 where sheet: "sheet_step env ap la u (mechs ! i) sheet result s = (b, sh, res, s1)"
        by (metis surj_pair)
      have s1: "kept s s1"
        using kept_frame [OF loop_steps(6) [OF sheet] Suc.prems(1)] .
      obtain r s2 where r: "run_mechanism_agent n env mechs i s1 = Some (r, s2)" "kept s1 s2" "r = Mech_Failed \<or> (\<exists>x. r = Mech_Result x)"
        using run_mechanism_returns [OF assms, of s1 k mechs i] s1 unfolding k kept_def by blast
      have s2: "kept s s2"
        using kept_trans [OF s1 r(2)] .
      show ?thesis
        using False type sheet r(1,3) go [OF s1, of res sh] go [OF s2] s2 by (cases b) (auto simp: Let_def)
    qed
  qed
qed

text \<open>The entitlements of the creator are those of its process.\<close>

definition creator_frame :: "'w machine \<Rightarrow> auth_token list \<times> nat \<times> process list \<times> string" where
  "creator_frame s = (dm_tokens (ms_d s), en_auth (ms_en s), dm_procs (ms_d s), en_currentRightName (ms_en s))"

lemma creator_bag [simp]:
  "creator_frame (bag_set b i s) = creator_frame s" "creator_frame (set_heap h s) = creator_frame s"
  "creator_frame (copy_items b i s) = creator_frame s" "creator_frame (copy_items_with_flags b i fl s) = creator_frame s"
  "creator_frame (put_flags b k fl s) = creator_frame s" "creator_frame (s\<lparr> ms_lcontext := i, ms_lhints := j \<rparr>) = creator_frame s"
proof -
  show set: "creator_frame (bag_set b i s) = creator_frame s" for b i s
    by (cases b) (simp_all add: creator_frame_def upd_en_def)
  show heap: "creator_frame (set_heap h s) = creator_frame s" for h s
    by (simp add: creator_frame_def set_heap_def upd_d_def)
  show "creator_frame (s\<lparr> ms_lcontext := i, ms_lhints := j \<rparr>) = creator_frame s"
    by (simp add: creator_frame_def)
  show "creator_frame (copy_items b i s) = creator_frame s" "creator_frame (copy_items_with_flags b i fl s) = creator_frame s"
    "creator_frame (put_flags b k fl s) = creator_frame s"
    by (simp_all add: copy_items_def copy_items_with_flags_def put_flags_def set heap)
qed

lemma creator_upd_en [simp]:
  "creator_frame (upd_en (\<lambda>e. e\<lparr> en_tries := f1 e \<rparr>) s) = creator_frame s"
  "creator_frame (upd_en (\<lambda>e. e\<lparr> en_sticky_context := f2 e \<rparr>) s) = creator_frame s"
  by (simp_all add: creator_frame_def upd_en_def)

lemma creator_put [simp]:
  "creator_frame (bag_put b f s) = creator_frame s" "creator_frame (put_data b k v s) = creator_frame s"
  "creator_frame (put_int b k w s) = creator_frame s" "creator_frame (put_tries s) = creator_frame s"
proof -
  show put: "creator_frame (bag_put b f s) = creator_frame s" for b f s
    by (simp add: bag_put_def split: prod.split)
  show "creator_frame (put_data b k v s) = creator_frame s" "creator_frame (put_int b k w s) = creator_frame s"
    "creator_frame (put_tries s) = creator_frame s"
    by (simp_all add: put_tries_def put_data_def put_int_def put Let_def)
qed

lemma creator_read:
  "get_string b k s = (v, s') \<Longrightarrow> creator_frame s' = creator_frame s" "get_uint b k s = (w, s') \<Longrightarrow> creator_frame s' = creator_frame s"
  "mechanisms_user env ap s = (u, s') \<Longrightarrow> creator_frame s' = creator_frame s"
proof -
  show str: "get_string b k s = (v, s') \<Longrightarrow> creator_frame s' = creator_frame s" for b k v s s'
    by (auto simp: get_string_def bag_read_def split: prod.splits)
  show num: "get_uint b k s = (w, s') \<Longrightarrow> creator_frame s' = creator_frame s" for b k w s s'
    by (auto simp: get_uint_def bag_read_def split: prod.splits)
  show "mechanisms_user env ap s = (u, s') \<Longrightarrow> creator_frame s' = creator_frame s"
    by (auto simp: mechanisms_user_def split: if_splits prod.splits dest!: str num)
qed

lemma creator_export [simp]: "creator_frame (mechanisms_export result s) = creator_frame s"
  by (simp add: mechanisms_export_def Let_def)

lemma evaluate_mechanisms_shape:
  "\<exists>ap la u s1. loop_frame s1 = loop_frame s \<and> creator_frame s1 = creator_frame s \<and>
    (evaluate_mechanisms n env mechs s = Some (errAuthorizationDenied, mechanisms_export kAuthorizationResultDeny s1) \<or>
     evaluate_mechanisms n env mechs s = map_option (\<lambda>(result, s). (mechanisms_status result, mechanisms_export result s))
       (mechanisms_loop n env ap la u mechs 0 False kAuthorizationResultAllow s1))"
proof -
  define c where "c = s\<lparr> ms_lcontext := auth_items_create, ms_lhints := auth_items_create \<rparr>"
  define c1 where "c1 = copy_items Local_Context (en_context (ms_en c)) c"
  define c2 where "c2 = copy_items Local_Hints (en_hints (ms_en c1)) c1"
  define c3 where "c3 = copy_items Local_Context (en_sticky_context (ms_en c2)) c2"
  obtain u s1 where u: "mechanisms_user env (has_key Context ''ap-pam-service-name'' c3) c3 = (u, s1)"
    by fastforce
  have frame: "loop_frame s1 = loop_frame s"
    using loop_steps(5) [OF u] by (simp add: c_def c1_def c2_def c3_def)
  have creator: "creator_frame s1 = creator_frame s"
    using creator_read(3) [OF u] by (simp add: c_def c1_def c2_def c3_def)
  let ?la = "case en_la_context (ms_en c3) of None \<Rightarrow> False | Some la \<Rightarrow> ee_la_result env (ms_world c3) la"
  have "evaluate_mechanisms n env mechs s = (case mechanisms_user env (has_key Context ''ap-pam-service-name'' c3) c3 of (u, s) \<Rightarrow>
     if en_la_context (ms_en s) \<noteq> None \<and> (case u of None \<Rightarrow> True | Some u \<Rightarrow> \<not> ee_utf8 env u)
     then Some ((\<lambda>(result, s). (mechanisms_status result, mechanisms_export result s)) (kAuthorizationResultDeny, s))
     else map_option (\<lambda>(result, s). (mechanisms_status result, mechanisms_export result s))
       (mechanisms_loop n env (has_key Context ''ap-pam-service-name'' c3) ?la (case u of None \<Rightarrow> [] | Some u \<Rightarrow> u) mechs 0 False
         kAuthorizationResultAllow s))"
    unfolding evaluate_mechanisms_def Let_def c3_def c2_def c1_def c_def by (rule refl)
  then have eq: "evaluate_mechanisms n env mechs s =
     (if en_la_context (ms_en s1) \<noteq> None \<and> (case u of None \<Rightarrow> True | Some u \<Rightarrow> \<not> ee_utf8 env u)
      then Some (errAuthorizationDenied, mechanisms_export kAuthorizationResultDeny s1)
      else map_option (\<lambda>(result, s). (mechanisms_status result, mechanisms_export result s))
        (mechanisms_loop n env (has_key Context ''ap-pam-service-name'' c3) ?la (case u of None \<Rightarrow> [] | Some u \<Rightarrow> u) mechs 0 False
          kAuthorizationResultAllow s1))"
    unfolding u by (simp add: mechanisms_status_def)
  show ?thesis
    unfolding eq using frame creator
    by (intro exI [of _ "has_key Context ''ap-pam-service-name'' c3"] exI [of _ ?la] exI [of _ "case u of None \<Rightarrow> [] | Some u \<Rightarrow> u"]
        exI [of _ s1]) simp
qed

lemma evaluate_mechanisms_returns:
  assumes "answers env" "agents_ok s" "length mechs + 2 \<le> n"
  shows "\<exists>st s'. evaluate_mechanisms n env mechs s = Some (st, s') \<and> kept s s'"
proof -
  obtain ap la u s1 where frame: "loop_frame s1 = loop_frame s"
    and shape: "evaluate_mechanisms n env mechs s = Some (errAuthorizationDenied, mechanisms_export kAuthorizationResultDeny s1) \<or>
     evaluate_mechanisms n env mechs s = map_option (\<lambda>(result, s). (mechanisms_status result, mechanisms_export result s))
       (mechanisms_loop n env ap la u mechs 0 False kAuthorizationResultAllow s1)"
    using evaluate_mechanisms_shape by blast
  have s1: "kept s s1"
    using kept_frame [OF frame assms(2)] .
  then obtain r s2 where r: "mechanisms_loop n env ap la u mechs 0 False kAuthorizationResultAllow s1 = Some (r, s2)" "kept s1 s2"
    using mechanisms_loop_returns [OF assms(1), where s = s1 and i = 0 and mechs = mechs and n = n and ap = ap and la = la and u = u and
        sheet = False and result = kAuthorizationResultAllow] assms(3) by (force simp: kept_def)
  have export: "kept s (mechanisms_export x t)" if "kept s t" for x t
    using kept_trans [OF that kept_frame] that by (simp add: kept_def)
  show ?thesis
    using shape r(1) export [OF s1] export [OF kept_trans [OF s1 r(2)]] by auto
qed

section \<open>Tries\<close>

text \<open>The count of tries has 32 bits and is compared, signed, with a limit of 64 bits.\<close>

lemma tries_left:
  fixes tries :: "32 word" and limit :: "64 word"
  assumes "scast tries <s limit" "sint limit < 2 ^ 31"
  shows "nat (sint limit - sint (tries + 1)) < nat (sint limit - sint tries)"
proof -
  have "sint (scast tries :: 64 word) = sint tries"
    by (simp add: sint_up_scast is_up)
  then have less: "sint tries < sint limit"
    using assms(1) by (simp add: word_sless_alt)
  moreover have "- (2 ^ 31) \<le> sint tries"
    using sint_ge [of tries] by simp
  ultimately have "sint (tries + 1) = sint tries + 1"
    using assms(2) by (simp add: sint_word_ariths signed_take_bit_int_eq_self)
  then show ?thesis
    using less by simp
qed

lemma next_try: "loop_frame s' = loop_frame s \<Longrightarrow> agents_ok s \<Longrightarrow>
    agents_ok (upd_en (\<lambda>e. e\<lparr> en_tries := en_tries e + 1 \<rparr>) s') \<and>
    en_tries (ms_en (upd_en (\<lambda>e. e\<lparr> en_tries := en_tries e + 1 \<rparr>) s')) = en_tries (ms_en s) + 1"
  by (simp add: loop_frame_def agents_ok_def upd_en_def)

text \<open>One round of the loop over the tries: it is left, or goes on in a state with one more try.\<close>

lemma authentication_round:
  assumes "scast (en_tries (ms_en s)) <s tries" "evaluate_mechanisms n env mechs (put_tries s) = Some (st1, s1)"
    "agents_ok s1" "en_tries (ms_en s1) = en_tries (ms_en s)"
  shows "(\<exists>r s'. authentication_loop (Suc n) env rule mechs tries st s = Some (r, s') \<and> agents_ok s') \<or>
    (\<exists>st2 s2. authentication_loop (Suc n) env rule mechs tries st s = authentication_loop n env rule mechs tries st2 s2 \<and>
      agents_ok s2 \<and> en_tries (ms_en s2) = en_tries (ms_en s) + 1)"
proof (cases "st1 = errAuthorizationSuccess")
  case False
  have reason: "loop_frame (upd_en (\<lambda>e. e\<lparr> en_reason := invalidPassphrase \<rparr>) s1) = loop_frame s1"
    by simp
  show ?thesis
    using False assms next_try [OF reason assms(3)] next_try [OF refl assms(3)] by (auto simp: Let_def)
next
  case True
  obtain c s2 where c: "authenticated_credential env s1 = (c, s2)"
    by fastforce
  note s2 = next_try [OF loop_steps(4) [OF c] assms(3)]
  show ?thesis
  proof (cases c)
    case None
    then show ?thesis
      using True assms(1,2,4) c s2 by (auto simp: Let_def)
  next
    case (Some k)
    obtain st3 s3 where s3: "evaluate_user_credential_for_rule env k rule True True s2 = (st3, s3)"
      by fastforce
    have frame: "loop_frame s3 = loop_frame s1"
      using loop_steps(2) [OF s3] loop_steps(4) [OF c] by simp
    then have "agents_ok (accept_credential env k rule s3)"
      using agents_ok_frame [of "accept_credential env k rule s3" s1] assms(3) by simp
    then show ?thesis
      using True Some assms(1,2,4) c s3 next_try [OF frame assms(3)] by (auto simp: Let_def)
  qed
qed

lemma authentication_loop_returns:
  assumes "answers env" "sint limit < 2 ^ 31"
  shows "agents_ok s \<Longrightarrow> length mechs + 3 + nat (sint limit - sint (en_tries (ms_en s))) \<le> n \<Longrightarrow>
    \<exists>r s'. authentication_loop n env rule mechs limit st s = Some (r, s') \<and> agents_ok s'"
proof (induction n arbitrary: st s)
  case 0
  then show ?case by simp
next
  case (Suc n)
  show ?case
  proof (cases "scast (en_tries (ms_en s)) <s limit")
    case False
    then show ?thesis
      using Suc.prems by simp
  next
    case True
    have "loop_frame (put_tries s) = loop_frame s"
      by simp
    then have put: "kept s (put_tries s)"
      using kept_frame Suc.prems(1) by blast
    then obtain st1 s1 where mech: "evaluate_mechanisms n env mechs (put_tries s) = Some (st1, s1)" "kept (put_tries s) s1"
      using evaluate_mechanisms_returns [OF assms(1), of "put_tries s" mechs n] Suc.prems(2) by (auto simp: kept_def)
    have s1: "agents_ok s1" "en_tries (ms_en s1) = en_tries (ms_en s)"
      using put mech(2) by (simp_all add: kept_def)
    from authentication_round [OF True mech(1) s1, where rule = rule and st = st] show ?thesis
    proof (elim disjE exE conjE)
      fix st2 s2
      assume s2: "agents_ok s2" "en_tries (ms_en s2) = en_tries (ms_en s) + 1"
        and eq: "authentication_loop (Suc n) env rule mechs limit st s = authentication_loop n env rule mechs limit st2 s2"
      have "length mechs + 3 + nat (sint limit - sint (en_tries (ms_en s2))) \<le> n"
        using tries_left [OF True assms(2)] Suc.prems(2) unfolding s2(2) by linarith
      from Suc.IH [OF s2(1) this] show ?thesis
        unfolding eq .
    qed blast
  qed
qed

lemma evaluate_authentication_returns:
  assumes "answers env" "agents_ok s" "sint (rule_get_tries rule) < 2 ^ 31"
  shows "\<exists>n r s'. evaluate_authentication n env rule s = Some (r, s') \<and> agents_ok s'"
proof -
  define s1 where "s1 = (if \<not> isInFVUnlockOrRecovery env (ms_world (set_rule_hints rule s))
    then set_session_hints env rule (set_rule_hints rule s) else set_rule_hints rule s)"
  define mechs where "mechs = (if ru_mechanisms rule \<noteq> [] then ru_mechanisms rule
     else (case en_authenticateRule (ms_en s1) of None \<Rightarrow> [] | Some r \<Rightarrow> ru_mechanisms r))"
  define s2 where "s2 = ms_crash (ru_mechanisms rule = [] \<and> en_authenticateRule (ms_en s1) = None) s1"
  define limit where "limit = (if en_credentialsProvided (ms_en s2) then 1 else rule_get_tries rule)"
  define s3 where "s3 = upd_en (\<lambda>e. e\<lparr> en_tries := 0 \<rparr>) s2"
  have "loop_frame s2 = loop_frame s"
    by (simp add: s2_def s1_def)
  then have s2: "agents_ok s2"
    using agents_ok_frame assms(2) by blast
  then have s3: "agents_ok s3"
    by (simp add: s3_def agents_ok_def upd_en_def)
  have "sint limit < 2 ^ 31"
    using assms(3) by (simp add: limit_def)
  then obtain n r s4 where loop: "authentication_loop n env rule mechs limit errAuthorizationDenied s3 = Some (r, s4)" "agents_ok s4"
    using authentication_loop_returns [OF assms(1) _ s3] by blast
  have "loop_frame (put_tries (upd_en (\<lambda>e. e\<lparr> en_reason := tooManyTries \<rparr>) s4)) = loop_frame s4"
    by simp
  then have last: "agents_ok (put_tries (upd_en (\<lambda>e. e\<lparr> en_reason := tooManyTries \<rparr>) s4))"
    using agents_ok_frame loop(2) by blast
  have "evaluate_authentication n env rule s = (if mechs = [] then Some (errAuthorizationDenied, s2)
      else map_option (\<lambda>(status, s). (status, if scast (en_tries (ms_en s)) = limit
        then put_tries (upd_en (\<lambda>e. e\<lparr> en_reason := tooManyTries \<rparr>) s) else s))
      (authentication_loop n env rule mechs limit errAuthorizationDenied s3))"
    unfolding evaluate_authentication_def Let_def s3_def limit_def s2_def mechs_def s1_def by (rule refl)
  then show ?thesis
    using loop s2 last by (intro exI [of _ n]) auto
qed

section \<open>Rules\<close>

lemma mechanism_try_returns:
  assumes "answers env" "agents_ok s" "length (ru_mechanisms rule) + 2 \<le> n"
  shows "\<exists>st s'. mechanism_try n env rule s = Some (st, s') \<and> kept s s'"
proof -
  have "loop_frame (put_tries s) = loop_frame s"
    by simp
  then have put: "kept s (put_tries s)"
    using kept_frame assms(2) by blast
  then obtain st s1 where s1: "evaluate_mechanisms n env (ru_mechanisms rule) (put_tries s) = Some (st, s1)" "kept (put_tries s) s1"
    using evaluate_mechanisms_returns [OF assms(1) _ assms(3), of "put_tries s"] by (auto simp: kept_def)
  have frame: "(st', s') = (\<lambda>(status, s).
       (status,
        if status = errAuthorizationSuccess \<and> has_key Context ''uid'' s then
          (case get_uint Context ''uid'' s of
             (uid, s) \<Rightarrow> (case new_cred (credential_create env (ms_world s) uid) s of
               (c, s) \<Rightarrow>
                 let s = engine_set_credential env c (rule_get_shared env (ms_world s) rule) s;
                     s = (if at_least_privileged (ms_token s) then set_right_credential env rule s else s)
                 in if en_currentRightName (ms_en s) = ''system.login.console'' \<and> \<not> has_key Context ''auto-login'' s
                    then set_session_attributes env (ee_has_authenticated env) s else s))
        else s)) (st, t) \<Longrightarrow> loop_frame s' = loop_frame t" for st st' s' and t :: "'a machine"
    by (auto simp: Let_def split: prod.splits if_splits dest!: loop_read(3,4))
  obtain st' s' where tried: "mechanism_try n env rule s = Some (st', s')" and s': "loop_frame s' = loop_frame s1"
    using frame [of _ _ st s1] s1(1) unfolding mechanism_try_def by (metis (no_types, lifting) option.simps(9) prod.collapse)
  show ?thesis
    using tried kept_trans [OF kept_trans [OF put s1(2)] kept_frame [OF s']] s1(2) by (auto simp: kept_def)
qed

lemma mechanism_tries_returns:
  assumes "answers env" "sint (rule_get_tries rule) < 2 ^ 31" "rule_get_tries rule \<noteq> 0"
  shows "agents_ok s \<Longrightarrow> length (ru_mechanisms rule) + 4 + nat (sint (rule_get_tries rule) - sint (en_tries (ms_en s))) \<le> n \<Longrightarrow>
    (0 <s rule_get_tries rule \<Longrightarrow> scast (en_tries (ms_en s)) <s rule_get_tries rule) \<Longrightarrow>
    \<exists>r s'. mechanism_tries n env rule s = Some (r, s') \<and> agents_ok s'"
proof (induction n arbitrary: s)
  case 0
  then show ?case by simp
next
  case (Suc n)
  obtain st s1 where tried: "mechanism_try n env rule s = Some (st, s1)" "kept s s1"
    using mechanism_try_returns [OF assms(1) Suc.prems(1), of rule n] Suc.prems(2) by auto
  define s2 where "s2 = upd_en (\<lambda>e. e\<lparr> en_tries := en_tries e + 1 \<rparr>) s1"
  have s2: "agents_ok s2" "en_tries (ms_en s2) = en_tries (ms_en s) + 1"
    using tried(2) by (simp_all add: s2_def kept_def agents_ok_def upd_en_def)
  have eq: "mechanism_tries (Suc n) env rule s =
     (if st = errAuthorizationDenied \<and> 0 <s rule_get_tries rule \<and> scast (en_tries (ms_en s2)) <s rule_get_tries rule
      then mechanism_tries n env rule s2 else Some (st, s2))"
    using tried(1) assms(3) by (simp add: Let_def s2_def)
  show ?case
  proof (cases "0 <s rule_get_tries rule \<and> scast (en_tries (ms_en s2)) <s rule_get_tries rule")
    case False
    then show ?thesis
      using eq s2(1) by auto
  next
    case True
    then have "nat (sint (rule_get_tries rule) - sint (en_tries (ms_en s2))) < nat (sint (rule_get_tries rule) - sint (en_tries (ms_en s)))"
      using tries_left [OF Suc.prems(3) assms(2)] unfolding s2(2) by blast
    then have "length (ru_mechanisms rule) + 4 + nat (sint (rule_get_tries rule) - sint (en_tries (ms_en s2))) \<le> n"
      using Suc.prems(2) by linarith
    then have "\<exists>r s'. mechanism_tries n env rule s2 = Some (r, s') \<and> agents_ok s'"
      using Suc.IH [OF s2(1)] True by blast
    then show ?thesis
      using eq s2(1) by auto
  qed
qed

lemma evaluate_class_mechanism_returns:
  assumes "answers env" "agents_ok s" "sint (rule_get_tries rule) < 2 ^ 31" "rule_get_tries rule \<noteq> 0"
  shows "\<exists>n r s'. evaluate_class_mechanism n env rule s = Some (r, s') \<and> agents_ok s'"
proof -
  define s0 where "s0 = upd_en (\<lambda>e. e\<lparr> en_tries := 0 \<rparr>) s"
  have s0: "agents_ok s0" "en_tries (ms_en s0) = 0"
    using assms(2) by (simp_all add: s0_def agents_ok_def upd_en_def)
  obtain n r s' where "mechanism_tries n env rule s0 = Some (r, s')" "agents_ok s'"
    using mechanism_tries_returns [OF assms(1,3,4) s0(1) order_refl] s0(2) by auto
  then show ?thesis
    using assms(2) by (intro exI [of _ n]) (simp add: evaluate_class_mechanism_def s0_def)
qed

lemma evaluate_class_user_returns:
  assumes "answers env" "agents_ok s" "sint (rule_get_tries rule) < 2 ^ 31"
  shows "\<exists>n r s'. evaluate_class_user n env rule s = Some (r, s') \<and> agents_ok s'"
proof -
  obtain b s1 where ent: "check_entitlement_for_rule env rule s = (b, s1)"
    by fastforce
  obtain st2 s2 where ses: "evaluate_user_credential_for_rule env (en_sessionCredential (ms_en s1)) rule True False s1 = (st2, s2)"
    by fastforce
  obtain b3 st3 s3 where loop: "cf_iterate (acquired_credential_step env rule) (env_order env (ms_world s1) (en_credentials (ms_en s1)))
      False (errAuthorizationDenied, s1) = (b3, st3, s3)"
    by (metis surj_pair)
  obtain b4 st4 s4 where loop2: "cf_iterate (effective_credential_step env rule)
      (env_order env (ms_world s3) (en_effectiveCredentials (ms_en s3))) False (st3, s3) = (b4, st4, s4)"
    by (metis surj_pair)
  obtain attributes session where att: "session_get_attributes env (ms_world s4) (ms_session s4) = (attributes, session)"
    by fastforce
  have ok: "agents_ok s1" "agents_ok s2" "agents_ok s3" "agents_ok s4" "agents_ok (set_session session s4)"
    using assms(2) agents_ok_frame loop_searches(1) [OF ent] loop_steps(2) [OF ses] loop_searches(2) [OF loop] loop_searches(3) [OF loop2]
      loop_credentials(3) [of session s4] by metis+
  obtain n r s5 where a: "evaluate_authentication n env rule s4 = Some (r, s5)" "agents_ok s5"
    using evaluate_authentication_returns [OF assms(1) ok(4) assms(3)] by blast
  obtain n' r' s5' where a': "evaluate_authentication n' env rule (set_session session s4) = Some (r', s5')" "agents_ok s5'"
    using evaluate_authentication_returns [OF assms(1) ok(5) assms(3)] by blast
  have more: "evaluate_authentication (max n n') env rule s4 = Some (r, s5)"
    "evaluate_authentication (max n n') env rule (set_session session s4) = Some (r', s5')"
    using extendsD [OF evaluate_authentication_extends a(1)] extendsD [OF evaluate_authentication_extends a'(1)] by simp_all
  show ?thesis
    using ent ses loop loop2 att ok more a(2) a'(2)
    by (intro exI [of _ "max n n'"]) (cases b; auto simp: evaluate_class_user_def Let_def)
qed

text \<open>The tries of the rules of class user and mechanism in a rule and its delegates are limited.\<close>

fun tries_limited :: "rule \<Rightarrow> bool" where
  "tries_limited (Rule data ms ds ps bs rd) \<longleftrightarrow>
     (let r = Rule data ms ds ps bs rd
      in (if rule_get_class r = RC_USER then sint (rule_get_tries r) < 2 ^ 31
          else if rule_get_class r = RC_MECHANISM then sint (rule_get_tries r) < 2 ^ 31 \<and> rule_get_tries r \<noteq> 0
          else True)) \<and> list_all tries_limited ds"

lemma tries_limited_eq:
  "tries_limited r \<longleftrightarrow>
     (if rule_get_class r = RC_USER then sint (rule_get_tries r) < 2 ^ 31
      else if rule_get_class r = RC_MECHANISM then sint (rule_get_tries r) < 2 ^ 31 \<and> rule_get_tries r \<noteq> 0
      else True) \<and> list_all tries_limited (ru_delegations r)"
  by (cases r) (simp add: Let_def)

declare tries_limited.simps [simp del]

lemma evaluate_class_rule_returns:
  assumes "\<And>d s. d \<in> set ds \<Longrightarrow> agents_ok s \<Longrightarrow> \<exists>n r s'. evaluate_rule n env d s = Some (r, s') \<and> agents_ok s'"
  shows "agents_ok s \<Longrightarrow> \<exists>n r s'. evaluate_class_rule n env kofn tot cnt succ st ds s = Some (r, s') \<and> agents_ok s'"
  using assms
proof (induction ds arbitrary: cnt succ st s)
  case Nil
  then show ?case by simp
next
  case (Cons d ds)
  obtain n st1 s1 where one: "evaluate_rule n env d s = Some (st1, s1)" "agents_ok s1"
    using Cons.prems by (metis list.set_intros(1))
  have IH: "\<exists>n r s'. evaluate_class_rule n env kofn tot (cnt + 1) su st1 ds s1 = Some (r, s') \<and> agents_ok s'" for su
    by (rule Cons.IH [OF one(2)]) (use Cons.prems(2) in auto)
  obtain n1 r1 t1 where fail: "evaluate_class_rule n1 env kofn tot (cnt + 1) succ st1 ds s1 = Some (r1, t1)" "agents_ok t1"
    using IH by blast
  obtain n2 r2 t2 where success: "evaluate_class_rule n2 env kofn tot (cnt + 1) (succ + 1) st1 ds s1 = Some (r2, t2)" "agents_ok t2"
    using IH by blast
  let ?m = "max n (max n1 n2)"
  have "extends (evaluate_class_rule k env kofn tot (cnt + 1) su st1 ds s1) (evaluate_class_rule ?m env kofn tot (cnt + 1) su st1 ds s1)"
    if "k \<le> ?m" for k su
    by (rule evaluate_class_rule_extends) (rule evaluate_rule_extends [OF that])
  then have more: "evaluate_class_rule ?m env kofn tot (cnt + 1) succ st1 ds s1 = Some (r1, t1)"
    "evaluate_class_rule ?m env kofn tot (cnt + 1) (succ + 1) st1 ds s1 = Some (r2, t2)"
    using extendsD [OF _ fail(1)] extendsD [OF _ success(1)] by simp_all
  have "evaluate_rule ?m env d s = Some (st1, s1)"
    using extendsD [OF evaluate_rule_extends one(1)] by simp
  then show ?case
    using one(2) Cons.prems(1) more fail(2) success(2) by (intro exI [of _ ?m]) (auto simp: Let_def)
qed

lemma evaluate_rule_ends:
  assumes "answers env"
  shows "tries_limited rule \<Longrightarrow> agents_ok s \<Longrightarrow> \<exists>n r s'. evaluate_rule n env rule s = Some (r, s') \<and> agents_ok s'"
proof (induction rule arbitrary: s rule: rule_tree_induct)
  case (1 rule)
  have "loop_frame (s\<lparr> ms_save_pwd := p \<rparr>) = loop_frame s" for p
    by simp
  then have s1: "agents_ok (s\<lparr> ms_save_pwd := p \<rparr>)" for p
    using agents_ok_frame 1(3) by blast
  have "list_all tries_limited (ru_delegations rule)"
    using 1(2) by (simp add: tries_limited_eq [of rule])
  then have delegates: "\<exists>n r s'. evaluate_class_rule n env k t c u v (ru_delegations rule) s = Some (r, s') \<and> agents_ok s'"
    if "agents_ok s" for k t c u v s
    by (intro evaluate_class_rule_returns [OF _ that]) (simp add: 1(1) list_all_iff)
  define t where "t = s\<lparr> ms_save_pwd := ms_save_pwd s \<or> rule_get_extract_password rule \<rparr>"
  let ?c = "rule_get_class rule"
  have by_class: "\<exists>n r s'. (if ?c = RC_ALLOW then Some (errAuthorizationSuccess, t) else if ?c = RC_DENY then Some (errAuthorizationDenied, t)
      else if ?c = RC_USER then evaluate_class_user n env rule t
      else if ?c = RC_RULE then evaluate_class_rule n env (rule_get_kofn rule) (of_nat (length (ru_delegations rule))) 0 0
        errAuthorizationDenied (ru_delegations rule) t
      else if ?c = RC_MECHANISM then evaluate_class_mechanism n env rule t
      else Some (errAuthorizationInternal, t)) = Some (r, s') \<and> agents_ok s'"
  proof (cases "?c = RC_USER \<or> ?c = RC_RULE \<or> ?c = RC_MECHANISM")
    case True
    then show ?thesis
      using 1(2) delegates [OF s1] evaluate_class_user_returns [OF assms s1, of rule] evaluate_class_mechanism_returns [OF assms s1, of rule]
      unfolding tries_limited_eq [of rule] t_def by (elim disjE) simp_all
  next
    case False
    then show ?thesis
      using s1 by (simp add: t_def)
  qed
  then obtain n r s' where body: "(if ?c = RC_ALLOW then Some (errAuthorizationSuccess, t)
      else if ?c = RC_DENY then Some (errAuthorizationDenied, t) else if ?c = RC_USER then evaluate_class_user n env rule t
      else if ?c = RC_RULE then evaluate_class_rule n env (rule_get_kofn rule) (of_nat (length (ru_delegations rule))) 0 0
        errAuthorizationDenied (ru_delegations rule) t
      else if ?c = RC_MECHANISM then evaluate_class_mechanism n env rule t
      else Some (errAuthorizationInternal, t)) = Some (r, s')" "agents_ok s'"
    by blast
  show ?case
    unfolding evaluate_rule_eq [of _ env rule] Let_def t_def [symmetric]
    by (rule exI [of _ n], unfold body) (use 1(3) body(2) in simp)
qed

text \<open>C4. An evaluation returns: when the agents answer the requests for a mechanism and do not interrupt, and
  the tries of the rule and of its delegates are limited, some number of steps is enough.\<close>

theorem evaluate_rule_returns:
  assumes "answers env" "tries_limited rule" "agents_ok s"
  shows "\<exists>n. evaluate_rule n env rule s \<noteq> None"
  using evaluate_rule_ends [OF assms] by force

theorem evaluate_rule_returns_witness:
  "\<exists>n. evaluate_rule n (sample_eenv Agent_Invalid) (sample_rule 3 0 3 [sample_mechanism] []) (sample_machine chain_db) \<noteq> None"
proof (rule evaluate_rule_returns)
  show "answers (sample_eenv Agent_Invalid)"
    by (simp add: answers_def sample_eenv_def env.defs)
  show "tries_limited (sample_rule 3 0 3 [sample_mechanism] [])"
    by (simp add: tries_limited_eq)
  show "agents_ok (sample_machine chain_db)"
    by (simp add: agents_ok_def sample_machine_def engine_new_def)
qed

section \<open>Rules that are evaluated for ever\<close>

lemma builtin_creator: "creator_frame s' = creator_frame s \<Longrightarrow> evaluate_builtin_mechanism mech s' = evaluate_builtin_mechanism mech s"
  by (simp add: creator_frame_def evaluate_builtin_mechanism_def)

text \<open>A single builtin mechanism that denies: the evaluation is denied, and denied again.\<close>

lemma evaluate_mechanisms_denied:
  assumes "mechanism_get_type mech \<noteq> 0" "evaluate_builtin_mechanism mech s = kAuthorizationResultDeny"
    "evaluate_mechanisms n env [mech] s = Some (st, s')"
  shows "st = errAuthorizationDenied" "creator_frame s' = creator_frame s"
proof -
  obtain ap la u s1 where s1: "creator_frame s1 = creator_frame s"
    and shape: "evaluate_mechanisms n env [mech] s = Some (errAuthorizationDenied, mechanisms_export kAuthorizationResultDeny s1) \<or>
     evaluate_mechanisms n env [mech] s = map_option (\<lambda>(result, s). (mechanisms_status result, mechanisms_export result s))
       (mechanisms_loop n env ap la u [mech] 0 False kAuthorizationResultAllow s1)"
    using evaluate_mechanisms_shape [of s n env "[mech]"] by blast
  have loop: "mechanisms_loop n env ap la u [mech] 0 False kAuthorizationResultAllow s1 = Some (kAuthorizationResultDeny, s1)"
    if "0 < n"
    using that assms(1,2) builtin_creator [OF s1, of mech] by (cases n) (simp_all add: Let_def)
  have "(st, s') = (errAuthorizationDenied, mechanisms_export kAuthorizationResultDeny s1)"
    using shape assms(3) loop by (cases "0 < n") (auto simp: mechanisms_status_def)
  then show "st = errAuthorizationDenied" "creator_frame s' = creator_frame s"
    using s1 by simp_all
qed

lemma mechanism_tries_forever:
  assumes "ru_mechanisms rule = [mech]" "mechanism_get_type mech \<noteq> 0" "rule_get_tries rule = 0"
  shows "evaluate_builtin_mechanism mech s = kAuthorizationResultDeny \<Longrightarrow> mechanism_tries n env rule s = None"
proof (induction n arbitrary: s)
  case 0
  then show ?case by simp
next
  case (Suc n)
  have put: "evaluate_builtin_mechanism mech (put_tries s) = kAuthorizationResultDeny"
    using Suc.prems builtin_creator [of "put_tries s" s] by simp
  show ?case
  proof (cases "evaluate_mechanisms n env [mech] (put_tries s)")
    case None
    then show ?thesis
      by (simp add: mechanism_try_def assms(1))
  next
    case (Some r)
    obtain st s1 where r: "r = (st, s1)"
      by fastforce
    note denied = evaluate_mechanisms_denied [OF assms(2) put Some [unfolded r]]
    define s2 where "s2 = upd_en (\<lambda>e. e\<lparr> en_tries := en_tries e + 1 \<rparr>) s1"
    have "creator_frame s2 = creator_frame s"
      using denied(2) by (simp add: s2_def)
    then have "evaluate_builtin_mechanism mech s2 = kAuthorizationResultDeny"
      using builtin_creator [of s2 s mech] Suc.prems by simp
    then have "mechanism_tries n env rule s2 = None"
      by (rule Suc.IH)
    then show ?thesis
      using Some r denied(1) by (simp add: mechanism_try_def assms(1,3) Let_def s2_def)
  qed
qed

text \<open>C5. A rule of class mechanism without a limit of tries is never done with a client whose entitlements do not
  allow the right, when its mechanism is the builtin test of entitlements: no number of steps is enough, although
  no agent and no user takes part.\<close>

theorem evaluate_rule_never_returns:
  assumes "rule_get_class rule = RC_MECHANISM" "rule_get_tries rule = 0" "ru_mechanisms rule = [mech]"
    and "mechanism_get_type mech = kMechanismTypeEntitled"
    and "\<not> auth_token_has_entitlement_for_right (dm_procs (ms_d s)) (ms_token s) (en_currentRightName (ms_en s))"
    and "en_la_context (ms_en s) = None" "\<not> rule_check_flags rule RuleFlagRequireAppleSigned" "\<not> ee_dark_wake env (ms_world s)"
  shows "evaluate_rule n env rule s = None"
proof -
  define t where "t = upd_en (\<lambda>e. e\<lparr> en_tries := 0 \<rparr>) (s\<lparr> ms_save_pwd := ms_save_pwd s \<or> rule_get_extract_password rule \<rparr>)"
  have "evaluate_builtin_mechanism mech t = kAuthorizationResultDeny"
    using assms(5) by (simp add: evaluate_builtin_mechanism_def t_def upd_en_def)
  then have "mechanism_tries n env rule t = None"
    using mechanism_tries_forever [OF assms(3) _ assms(2)] assms(4) by simp
  then show ?thesis
    using assms by (simp add: evaluate_rule_eq evaluate_class_mechanism_def Let_def t_def ms_world_def)
qed

definition entitled_mechanism :: mechanism where
  "entitled_mechanism = mechanism_new\<lparr> me_type := kMechanismTypeEntitled \<rparr>"

theorem evaluate_rule_never_returns_witness:
  "evaluate_rule 1000 (sample_eenv Agent_Invalid) (sample_rule 3 0 0 [entitled_mechanism] []) (sample_machine chain_db) = None"
proof (rule evaluate_rule_never_returns [where mech = entitled_mechanism])
  show "\<not> auth_token_has_entitlement_for_right (dm_procs (ms_d (sample_machine chain_db))) (ms_token (sample_machine chain_db))
      (en_currentRightName (ms_en (sample_machine chain_db)))"
    by (simp add: sample_machine_def sample_daemon_def sample_token_def sample_process_def engine_new_def
        auth_token_has_entitlement_for_right_def process_has_entitlement_for_right_def process_copy_entitlement_value_def)
qed (simp_all add: entitled_mechanism_def mechanism_get_type_def mechanism_new_def sample_eenv_def env.defs)

end
