(* ===== verification/Server.thy ===== *)
theory Server
  imports Engine_Authorize
begin

text \<open>
  The requests of clients: the handlers of \<^verbatim>\<open>src/OSX/authd/server.c\<close>, one definition each, and the
  dispatch of \<^verbatim>\<open>main.c\<close> on the type of a message.  A handler takes the state of the daemon, the
  connection and the message, and gives the status, the reply and the new state; it is undefined when
  the engine it runs needs more steps than it is given.  Handlers run one at a time.
\<close>

unbundle bit_operations_syntax

section \<open>Messages\<close>

abbreviation AUTH_XPC_TYPE :: string where "AUTH_XPC_TYPE \<equiv> ''_type''"
abbreviation AUTH_XPC_RIGHTS :: string where "AUTH_XPC_RIGHTS \<equiv> ''_rights''"
abbreviation AUTH_XPC_ENVIRONMENT :: string where "AUTH_XPC_ENVIRONMENT \<equiv> ''_environment''"
abbreviation AUTH_XPC_FLAGS :: string where "AUTH_XPC_FLAGS \<equiv> ''_flags''"
abbreviation AUTH_XPC_BLOB :: string where "AUTH_XPC_BLOB \<equiv> ''_blob''"
abbreviation AUTH_XPC_STATUS :: string where "AUTH_XPC_STATUS \<equiv> ''_status''"
abbreviation AUTH_XPC_RIGHT_NAME :: string where "AUTH_XPC_RIGHT_NAME \<equiv> ''_right_name''"
abbreviation AUTH_XPC_TAG :: string where "AUTH_XPC_TAG \<equiv> ''_tag''"
abbreviation AUTH_XPC_OUT_ITEMS :: string where "AUTH_XPC_OUT_ITEMS \<equiv> ''_out_items''"
abbreviation AUTH_XPC_EXTERNAL :: string where "AUTH_XPC_EXTERNAL \<equiv> ''_external''"
abbreviation AUTH_XPC_DATA :: string where "AUTH_XPC_DATA \<equiv> ''_data''"
abbreviation AUTH_XPC_HINTS_NAME :: string where "AUTH_XPC_HINTS_NAME \<equiv> ''_agent_hints''"

text \<open>What the handlers ask of the system beyond the engine: the conversions between XPC and Core
  Foundation values, the serialisation of a property list, a port sent with a message, the preference for
  the number of rights of a process, and the database of the preboot volume (\<^verbatim>\<open>PreloginUserDb.m\<close>).\<close>

record 'w senv = "'w eenv" +
  se_cf_of_xpc :: "xpc \<Rightarrow> cf option"
  se_xpc_of_cf :: "cf \<Rightarrow> xpc option"
  se_plist_data :: "(string \<times> cf) list \<Rightarrow> string option"
  se_mach_send :: "xpc \<Rightarrow> 32 word"
  se_show_pid :: "32 word \<Rightarrow> string"
  se_max_process_rights :: "64 word option"
  se_prelogin_userdb :: "'w \<Rightarrow> string option \<Rightarrow> 32 word \<Rightarrow> osstatus \<times> cf"
  se_prelogin_pref :: "'w \<Rightarrow> string option \<Rightarrow> string option \<Rightarrow> string option \<Rightarrow> string option \<Rightarrow> osstatus \<times> cf"
  se_prelogin_override :: "'w \<Rightarrow> string option \<Rightarrow> 8 word \<Rightarrow> osstatus \<times> bool \<times> 'w"

type_synonym 'w handled = "(osstatus \<times> xpc \<times> 'w daemon) option"

definition conn_proc :: "'w daemon \<Rightarrow> nat \<Rightarrow> nat" where
  "conn_proc d conn = cn_proc (dm_conns d ! conn)"

definition message_flags :: "xpc \<Rightarrow> 32 word" where
  "message_flags message = ucast (xpc_dictionary_get_uint64 message AUTH_XPC_FLAGS)"

definition daemon_crash :: "bool \<Rightarrow> 'w daemon \<Rightarrow> 'w daemon" where
  "daemon_crash b d = d\<lparr> dm_fault := dm_fault d \<or> b \<rparr>"

text \<open>An entitlement that is there and true.\<close>

definition entitled_true :: "process \<Rightarrow> string \<Rightarrow> bool" where
  "entitled_true proc entitlement \<longleftrightarrow> process_copy_entitlement_value proc entitlement = Some (CF_Bool True)"

definition process_find_copy_auth_token_from_xpc ::
  "('w, 'z) senv_scheme \<Rightarrow> 'w daemon \<Rightarrow> nat \<Rightarrow> xpc \<Rightarrow> osstatus + nat" where
  "process_find_copy_auth_token_from_xpc env d proc message =
     (case xpc_dictionary_get_data message AUTH_XPC_BLOB of
        None \<Rightarrow> Inl errAuthorizationInvalidRef
      | Some blob \<Rightarrow>
          if length blob \<noteq> 8 then Inl errAuthorizationInvalidRef
          else (case process_find_copy_auth_token env d proc blob of
                  None \<Rightarrow> Inl errAuthorizationInvalidRef
                | Some auth \<Rightarrow> Inr auth))"

section \<open>Authorization\<close>

text \<open>With or without interaction the engine runs to its end; its state goes back to the handler.\<close>

definition server_authorize ::
  "nat \<Rightarrow> nat \<Rightarrow> ('w, 'z) senv_scheme \<Rightarrow> 'w daemon \<Rightarrow> nat \<Rightarrow> nat \<Rightarrow> 32 word \<Rightarrow> auth_rights \<Rightarrow> auth_items \<Rightarrow>
    (osstatus \<times> 'w machine) option" where
  "server_authorize n depth env d conn auth flags rights environment =
     engine_authorize n depth env (Some rights) (Some environment) flags (engine_create env d conn auth)"

definition authorization_create ::
  "nat \<Rightarrow> nat \<Rightarrow> ('w, 'z) senv_scheme \<Rightarrow> 'w daemon \<Rightarrow> nat \<Rightarrow> xpc \<Rightarrow> xpc \<Rightarrow> 'w handled" where
  "authorization_create n depth env d conn message reply =
     (let proc = conn_proc d conn;
          rights = fst (auth_rights_create_with_xpc (xpc_dictionary_get_value message AUTH_XPC_RIGHTS));
          (h, environment, _) = auth_items_create_with_xpc (dm_items d) (xpc_dictionary_get_value message AUTH_XPC_ENVIRONMENT);
          flags = message_flags message
      in case new_auth_token env (d\<lparr> dm_items := h \<rparr>) proc (flags AND kAuthorizationFlagLeastPrivileged \<noteq> 0) of
           (None, d) \<Rightarrow> Some (errAuthorizationInternal, reply, d)
         | (Some auth, d) \<Rightarrow>
             let d = (if flags AND kAuthorizationFlagNoData = 0 then process_add_auth_token d proc auth else d)
             in map_option (\<lambda>(status, s).
                  (status,
                   if status = errAuthorizationSuccess
                   then xpc_dictionary_set reply AUTH_XPC_BLOB (XPC_Data (at_blob (dm_tokens (ms_d s) ! auth))) else reply,
                   ms_d s))
                (server_authorize n depth env d conn auth flags rights environment))"

text \<open>The status stays what it was at the start.\<close>

definition authorization_create_with_audit_token ::
  "('w, 'z) senv_scheme \<Rightarrow> 'w daemon \<Rightarrow> nat \<Rightarrow> xpc \<Rightarrow> xpc \<Rightarrow> osstatus \<times> xpc \<times> 'w daemon" where
  "authorization_create_with_audit_token env d conn message reply =
     (let proc = conn_proc d conn
      in if process_get_uid (dm_procs d ! proc) \<noteq> 0 then (errAuthorizationDenied, reply, d)
         else (case xpc_dictionary_get_data message AUTH_XPC_DATA of
                 None \<Rightarrow> (errAuthorizationDenied, reply, d)
               | Some data \<Rightarrow>
                   if length data \<noteq> 32 then (errAuthorizationDenied, reply, d)
                   else (case new_auth_token env d proc (message_flags message AND kAuthorizationFlagLeastPrivileged \<noteq> 0) of
                           (None, d) \<Rightarrow> (errAuthorizationInternal, reply, d)
                         | (Some auth, d) \<Rightarrow>
                             (errAuthorizationDenied,
                              xpc_dictionary_set reply AUTH_XPC_BLOB (XPC_Data (at_blob (dm_tokens d ! auth))),
                              process_add_auth_token d proc auth))))"

text \<open>With \<^verbatim>\<open>kAuthorizationFlagDestroyRights\<close> the credentials of the token are invalidated, for everyone who shares
  them, and the session forgets those that are not valid.\<close>

definition invalidate_credentials :: "('w, 'z) env_scheme \<Rightarrow> 'w daemon \<Rightarrow> nat \<Rightarrow> 'w daemon" where
  "invalidate_credentials env d auth =
     (case auth_token_credentials_iterate env (dm_world d) (dm_tokens d ! auth)
             (\<lambda>cred cs. (True, cs[cred := credential_invalidate (cs ! cred)])) (dm_creds d) of
        (_, cs, ok) \<Rightarrow> daemon_crash (\<not> ok) (d\<lparr> dm_creds := cs \<rparr>))"

definition purge_session :: "('w, 'z) env_scheme \<Rightarrow> 'w daemon \<Rightarrow> nat \<Rightarrow> 'w daemon" where
  "purge_session env d ses =
     (case session_credentials_purge env (dm_world d) (dm_creds d) (dm_sessions d ! ses) of
        (s, ok) \<Rightarrow> daemon_crash (\<not> ok) (upd_session ses (\<lambda>_. s) d))"

definition authorization_free :: "('w, 'z) senv_scheme \<Rightarrow> 'w daemon \<Rightarrow> nat \<Rightarrow> xpc \<Rightarrow> xpc \<Rightarrow> osstatus \<times> xpc \<times> 'w daemon" where
  "authorization_free env d conn message reply =
     (let proc = conn_proc d conn
      in case process_find_copy_auth_token_from_xpc env d proc message of
           Inl status \<Rightarrow> (status, reply, d)
         | Inr auth \<Rightarrow>
             let flags = message_flags message;
                 d = (if flags AND kAuthorizationFlagDestroyRights \<noteq> 0
                      then purge_session env (invalidate_credentials env d auth) (at_session (dm_tokens d ! auth)) else d)
             in (errAuthorizationSuccess, reply, process_remove_auth_token env d proc auth flags))"

definition authorization_copy_rights ::
  "nat \<Rightarrow> nat \<Rightarrow> ('w, 'z) senv_scheme \<Rightarrow> 'w daemon \<Rightarrow> nat \<Rightarrow> xpc \<Rightarrow> xpc \<Rightarrow> 'w handled" where
  "authorization_copy_rights n depth env d conn message reply =
     (let proc = conn_proc d conn;
          rights = fst (auth_rights_create_with_xpc (xpc_dictionary_get_value message AUTH_XPC_RIGHTS));
          (h, environment, _) = auth_items_create_with_xpc (dm_items d) (xpc_dictionary_get_value message AUTH_XPC_ENVIRONMENT);
          flags = message_flags message;
          d = d\<lparr> dm_items := h \<rparr>
      in case process_find_copy_auth_token_from_xpc env d proc message of
           Inl status \<Rightarrow> Some (status, reply, d)
         | Inr auth \<Rightarrow>
             map_option (\<lambda>(status, s).
               (status,
                if status = errAuthorizationSuccess
                then xpc_dictionary_set reply AUTH_XPC_OUT_ITEMS (auth_rights_export_xpc (en_grantedRights (ms_en s))) else reply,
                ms_d s))
             (server_authorize n depth env d conn auth flags rights environment))"

text \<open>A new token and engine for the question; the engine only looks at the database.\<close>

definition authorization_copy_right_properties ::
  "nat \<Rightarrow> ('w, 'z) senv_scheme \<Rightarrow> 'w daemon \<Rightarrow> nat \<Rightarrow> xpc \<Rightarrow> xpc \<Rightarrow> osstatus \<times> xpc \<times> 'w daemon" where
  "authorization_copy_right_properties depth env d conn message reply =
     (case xpc_dictionary_get_string message AUTH_XPC_RIGHT_NAME of
        None \<Rightarrow> (errAuthorizationInvalidPointer, reply, d)
      | Some right \<Rightarrow>
          (case new_auth_token env d (conn_proc d conn) False of
             (None, d) \<Rightarrow> (errAuthorizationInternal, reply, d)
           | (Some auth, d) \<Rightarrow>
               let d = ms_d (engine_create env d conn auth)
               in (case engine_get_right_properties env depth (dm_db d) (Some right) of
                     (status, properties) \<Rightarrow>
                       (status,
                        if status = errAuthorizationSuccess then
                          (case properties of
                             None \<Rightarrow> reply
                           | Some p \<Rightarrow>
                               (case se_plist_data env p of
                                  None \<Rightarrow> reply
                                | Some b \<Rightarrow> xpc_dictionary_set reply AUTH_XPC_OUT_ITEMS (XPC_Data b)))
                        else reply, d))))"

section \<open>Context\<close>

text \<open>The extractable items of the token's context, all or the one asked for, copied before they are
  decrypted; the password only for a process with the entitlement.\<close>

definition extractable_items :: "items_heap \<Rightarrow> auth_items \<Rightarrow> string option \<Rightarrow> items_heap \<times> auth_items" where
  "extractable_items h context tag =
     (case tag of
        Some t \<Rightarrow>
          (case auth_items_get_data_with_flags h context t kAuthorizationContextFlagExtractable of
             Some (Some data, _) \<Rightarrow> auth_items_set_data h auth_items_create t data
           | _ \<Rightarrow> (h, auth_items_create))
      | None \<Rightarrow> (h, auth_items_copy_with_flags h auth_items_create context kAuthorizationContextFlagExtractable))"

definition authorization_copy_info :: "('w, 'z) senv_scheme \<Rightarrow> 'w daemon \<Rightarrow> nat \<Rightarrow> xpc \<Rightarrow> xpc \<Rightarrow> osstatus \<times> xpc \<times> 'w daemon" where
  "authorization_copy_info env d conn message reply =
     (let proc = conn_proc d conn
      in case process_find_copy_auth_token_from_xpc env d proc message of
           Inl status \<Rightarrow> (status, reply, d)
         | Inr auth \<Rightarrow>
             let a = dm_tokens d ! auth;
                 (h, items) = extractable_items (dm_items d) (at_context a) (xpc_dictionary_get_string message AUTH_XPC_TAG);
                 (h, local_items) = auth_items_content_copy h auth_items_create items;
                 h = auth_items_decrypt (env_cccrypt env) h local_items (at_encryption_key a);
                 local_items =
                   (if auth_items_exist local_items ''password'' \<and>
                       \<not> entitled_true (dm_procs d ! proc) ''com.apple.authorization.extract-password''
                    then auth_items_remove local_items ''password'' else local_items)
             in (errAuthorizationSuccess,
                 xpc_dictionary_set reply AUTH_XPC_OUT_ITEMS (auth_items_export_xpc h local_items), d\<lparr> dm_items := h \<rparr>))"

section \<open>External form\<close>

abbreviation kAuthorizationExternalFormLength :: nat where "kAuthorizationExternalFormLength \<equiv> 32"

text \<open>The blob of the token, the session of the process and zeros.\<close>

definition external_form :: "string \<Rightarrow> 32 word \<Rightarrow> string" where
  "external_form blob ses =
     (let b = blob @ le_bytes 4 (unat ses) in b @ replicate (kAuthorizationExternalFormLength - length b) NUL)"

definition authorization_make_external_form ::
  "('w, 'z) senv_scheme \<Rightarrow> 'w daemon \<Rightarrow> nat \<Rightarrow> xpc \<Rightarrow> xpc \<Rightarrow> osstatus \<times> xpc \<times> 'w daemon" where
  "authorization_make_external_form env d conn message reply =
     (let proc = conn_proc d conn
      in case process_find_copy_auth_token_from_xpc env d proc message of
           Inl status \<Rightarrow> (status, reply, d)
         | Inr auth \<Rightarrow>
             (errAuthorizationSuccess,
              xpc_dictionary_set reply AUTH_XPC_EXTERNAL
                (XPC_Data (external_form (at_blob (dm_tokens d ! auth)) (process_get_session_id (dm_procs d ! proc)))),
              server_register_auth_token d auth))"

definition authorization_create_from_external_form ::
  "('w, 'z) senv_scheme \<Rightarrow> 'w daemon \<Rightarrow> nat \<Rightarrow> xpc \<Rightarrow> xpc \<Rightarrow> osstatus \<times> xpc \<times> 'w daemon" where
  "authorization_create_from_external_form env d conn message reply =
     (case xpc_dictionary_get_data message AUTH_XPC_EXTERNAL of
        None \<Rightarrow> (errAuthorizationInternal, reply, d)
      | Some ex \<Rightarrow>
          if length ex \<noteq> kAuthorizationExternalFormLength then (errAuthorizationInvalidRef, reply, d)
          else (case server_find_copy_auth_token d (take 8 ex) of
                  None \<Rightarrow> (errAuthorizationDenied, reply, d)
                | Some auth \<Rightarrow>
                    (errAuthorizationSuccess,
                     xpc_dictionary_set reply AUTH_XPC_BLOB (XPC_Data (at_blob (dm_tokens d ! auth))),
                     process_add_auth_token d (conn_proc d conn) auth)))"

section \<open>Rights in the database\<close>

definition authorization_right_get ::
  "nat \<Rightarrow> ('w, 'z) senv_scheme \<Rightarrow> 'w daemon \<Rightarrow> xpc \<Rightarrow> xpc \<Rightarrow> osstatus \<times> xpc \<times> 'w daemon" where
  "authorization_right_get depth env d message reply =
     (case rule_create_with_string depth (xpc_dictionary_get_string message AUTH_XPC_RIGHT_NAME) (Some (dm_db d)) of
        None \<Rightarrow> (errAuthorizationDenied, reply, d)
      | Some r \<Rightarrow>
          let d = daemon_crash (rule_fault r) d
          in if rule_get_id r = 0 then (errAuthorizationDenied, reply, d)
             else (case se_xpc_of_cf env (CF_Dict (rule_copy_to_cfobject env (dm_world d) r (dm_db d))) of
                     None \<Rightarrow> (errAuthorizationDenied, reply, d)
                   | Some x \<Rightarrow> (errAuthorizationSuccess, xpc_dictionary_set reply AUTH_XPC_DATA x, d)))"

definition prompt_for_modifications :: "process \<Rightarrow> bool" where
  "prompt_for_modifications proc \<longleftrightarrow> \<not> entitled_true proc ''com.apple.private.authorization.modify.all''"

definition process_get_identifier_count :: "db \<Rightarrow> string \<Rightarrow> 64 word" where
  "process_get_identifier_count dbconn identifier =
     of_nat (length (filter (\<lambda>r. row_get r ''identifier'' = SQL_Text identifier) (db_rules dbconn)))"

definition get_max_process_rights :: "('w, 'z) senv_scheme \<Rightarrow> 64 word" where
  "get_max_process_rights env = (case se_max_process_rights env of None \<Rightarrow> 100 | Some m \<Rightarrow> m)"

text \<open>Whether the change is admitted: not (the warning is given once), or with the right to modify forced.\<close>

definition right_set_admit ::
  "nat \<Rightarrow> ('w, 'z) senv_scheme \<Rightarrow> 'w daemon \<Rightarrow> nat \<Rightarrow> bool \<Rightarrow> rule \<Rightarrow> bool option \<times> 'w daemon" where
  "right_set_admit depth env d conn auth_rule r =
     (let proc = dm_procs d ! conn_proc d conn
      in if rule_get_id r = 0 then
           (case pr_code_identifier proc of
              None \<Rightarrow> (Some True, d)
            | Some identifier \<Rightarrow>
                if get_max_process_rights env \<le>s process_get_identifier_count (dm_db d) identifier
                then (None, d\<lparr> dm_conns := (dm_conns d)[conn := (dm_conns d ! conn)\<lparr> cn_sent_syslog_warn := True \<rparr>] \<rparr>)
                else (Some False, d))
         else if auth_rule then ((if process_get_uid proc \<noteq> 0 then None else Some False), d)
         else (case rule_create_with_string depth (rule_get_name r) (Some (dm_db d)) of
                 None \<Rightarrow> (None, daemon_crash True d)
               | Some existing \<Rightarrow>
                   ((if rule_get_type existing = RT_RULE then None else Some False), daemon_crash (rule_fault existing) d)))"

text \<open>The commit.  What is collected for analytics updates the attributes of the session on the way.\<close>

definition right_set_commit ::
  "nat \<Rightarrow> ('w, 'z) senv_scheme \<Rightarrow> nat \<Rightarrow> rule \<Rightarrow> real option \<Rightarrow> 'w daemon \<Rightarrow> osstatus \<times> 'w daemon" where
  "right_set_commit depth env conn r engine_time d =
     (let proc = dm_procs d ! conn_proc d conn;
          d = upd_session (pr_session proc) (\<lambda>s. snd (session_get_attributes env (dm_world d) s)) d;
          now = (case engine_time of None \<Rightarrow> env_now env (dm_world d) | Some t \<Rightarrow> t);
          (ok, db', r) = rule_sql_commit env (dm_world d) (se_show_pid env) depth r (dm_db d) (env_double env now) (Some proc)
      in ((if ok then errAuthorizationSuccess else errAuthorizationDenied), daemon_crash (rule_fault r) (d\<lparr> dm_db := db' \<rparr>)))"

definition right_set_rule ::
  "nat \<Rightarrow> nat \<Rightarrow> ('w, 'z) senv_scheme \<Rightarrow> 'w daemon \<Rightarrow> nat \<Rightarrow> nat \<Rightarrow> bool \<Rightarrow> rule \<Rightarrow> (osstatus \<times> 'w daemon) option" where
  "right_set_rule n depth env d conn auth auth_rule r =
     (let proc = dm_procs d ! conn_proc d conn
      in if process_get_uid proc \<noteq> 0 \<and> rule_get_extract_password r then Some (errAuthorizationDenied, d)
         else (case right_set_admit depth env d conn auth_rule r of
                 (None, d) \<Rightarrow> Some (errAuthorizationDenied, d)
               | (Some force_modify, d) \<Rightarrow>
                   if prompt_for_modifications proc then
                     Option.bind (engine_verify_modification n depth env r False force_modify (engine_create env d conn auth))
                       (\<lambda>(status, s).
                         if status \<noteq> errAuthorizationSuccess then Some (status, ms_d s)
                         else Some (right_set_commit depth env conn r (Some (en_now (ms_en s))) (ms_d s)))
                   else Some (right_set_commit depth env conn r None d)))"

text \<open>A name or value that cannot be converted ends the handler with the status of the search for the token,
  which is success; a value that is not a dictionary is used as one.\<close>

definition authorization_right_set ::
  "nat \<Rightarrow> nat \<Rightarrow> ('w, 'z) senv_scheme \<Rightarrow> 'w daemon \<Rightarrow> nat \<Rightarrow> xpc \<Rightarrow> xpc \<Rightarrow> 'w handled" where
  "authorization_right_set n depth env d conn message reply =
     (case process_find_copy_auth_token_from_xpc env d (conn_proc d conn) message of
        Inl status \<Rightarrow> Some (status, reply, d)
      | Inr auth \<Rightarrow>
          (case (xpc_dictionary_get_string message AUTH_XPC_RIGHT_NAME, xpc_dictionary_get_value message AUTH_XPC_DATA) of
             (Some rule_name, Some data) \<Rightarrow>
               let auth_rule = strcase_eq rule_name ''authenticate''
               in if \<not> ee_utf8 env rule_name then Some (errAuthorizationSuccess, reply, d)
                  else (case se_cf_of_xpc env data of
                          None \<Rightarrow> Some (errAuthorizationSuccess, reply, d)
                        | Some (CF_Dict dict) \<Rightarrow>
                            let r = rule_create_with_plist depth (if auth_rule then RT_RULE else RT_RIGHT) rule_name dict (dm_db d)
                            in map_option (\<lambda>(status, d). (status, reply, d))
                                 (right_set_rule n depth env (daemon_crash (rule_fault r) d) conn auth auth_rule r)
                        | Some _ \<Rightarrow> Some (errAuthorizationSuccess, reply, daemon_crash True d))
           | _ \<Rightarrow> Some (errAuthorizationInternal, reply, d)))"

text \<open>Whether the removal succeeds is not looked at.\<close>

definition right_remove_rule :: "nat \<Rightarrow> ('w, 'z) senv_scheme \<Rightarrow> nat \<Rightarrow> rule \<Rightarrow> 'w daemon \<Rightarrow> 'w daemon" where
  "right_remove_rule depth env conn r d =
     (if rule_get_id r \<noteq> 0 then
        (case rule_sql_remove env (dm_world d) (se_show_pid env) depth r (dm_db d) (Some (dm_procs d ! conn_proc d conn)) of
           (_, db', r) \<Rightarrow> daemon_crash (rule_fault r) (d\<lparr> dm_db := db' \<rparr>))
      else d)"

definition authorization_right_remove ::
  "nat \<Rightarrow> nat \<Rightarrow> ('w, 'z) senv_scheme \<Rightarrow> 'w daemon \<Rightarrow> nat \<Rightarrow> xpc \<Rightarrow> xpc \<Rightarrow> 'w handled" where
  "authorization_right_remove n depth env d conn message reply =
     (let proc = conn_proc d conn
      in case process_find_copy_auth_token_from_xpc env d proc message of
           Inl status \<Rightarrow> Some (status, reply, d)
         | Inr auth \<Rightarrow>
             (case rule_create_with_string depth (xpc_dictionary_get_string message AUTH_XPC_RIGHT_NAME) (Some (dm_db d)) of
                None \<Rightarrow> Some (errAuthorizationSuccess, reply, d)
              | Some r \<Rightarrow>
                  let d = daemon_crash (rule_fault r) d
                  in if prompt_for_modifications (dm_procs d ! proc) then
                       Option.bind (engine_verify_modification n depth env r True False (engine_create env d conn auth))
                         (\<lambda>(status, s).
                           Some (status, reply,
                             if status = errAuthorizationSuccess then right_remove_rule depth env conn r (ms_d s) else ms_d s))
                     else Some (errAuthorizationSuccess, reply, right_remove_rule depth env conn r d)))"

section \<open>Before login\<close>

definition session_set_user_preferences :: "xpc \<Rightarrow> 'w daemon \<Rightarrow> osstatus \<times> xpc \<times> 'w daemon" where
  "session_set_user_preferences reply d = (errAuthorizationSuccess, reply, d)"

definition authorization_copy_prelogin_userdb ::
  "('w, 'z) senv_scheme \<Rightarrow> 'w daemon \<Rightarrow> xpc \<Rightarrow> xpc \<Rightarrow> osstatus \<times> xpc \<times> 'w daemon" where
  "authorization_copy_prelogin_userdb env d message reply =
     (case se_prelogin_userdb env (dm_world d) (xpc_dictionary_get_string message AUTH_XPC_TAG) (message_flags message) of
        (status, cfarray) \<Rightarrow>
          (status,
           if status \<noteq> errAuthorizationSuccess then reply
           else (case se_xpc_of_cf env cfarray of None \<Rightarrow> reply | Some x \<Rightarrow> xpc_dictionary_set reply AUTH_XPC_DATA x), d))"

definition authorization_copy_prelogin_pref_value ::
  "('w, 'z) senv_scheme \<Rightarrow> 'w daemon \<Rightarrow> xpc \<Rightarrow> xpc \<Rightarrow> osstatus \<times> xpc \<times> 'w daemon" where
  "authorization_copy_prelogin_pref_value env d message reply =
     (let get = xpc_dictionary_get_string message
      in case se_prelogin_pref env (dm_world d) (get AUTH_XPC_TAG) (get AUTH_XPC_RIGHT_NAME) (get AUTH_XPC_HINTS_NAME)
                (get AUTH_XPC_ITEM_NAME) of
           (status, output) \<Rightarrow>
             (status, (case se_xpc_of_cf env output of None \<Rightarrow> reply | Some x \<Rightarrow> xpc_dictionary_set reply AUTH_XPC_DATA x), d))"

abbreviation kAuthorizationOverrideOperationQuery :: "64 word" where "kAuthorizationOverrideOperationQuery \<equiv> 2"

text \<open>The operation is compared with 64 bits and passed on with eight.\<close>

definition authorization_prelogin_smartcardonly_override ::
  "('w, 'z) senv_scheme \<Rightarrow> 'w daemon \<Rightarrow> nat \<Rightarrow> xpc \<Rightarrow> xpc \<Rightarrow> osstatus \<times> xpc \<times> 'w daemon" where
  "authorization_prelogin_smartcardonly_override env d conn message reply =
     (let operation = xpc_dictionary_get_uint64 message AUTH_XPC_ITEM_NAME
      in if operation \<noteq> kAuthorizationOverrideOperationQuery \<and>
            \<not> entitled_true (dm_procs d ! conn_proc d conn) ''com.apple.authorization.smartcard.override''
         then (errAuthorizationDenied, reply, d)
         else (case se_prelogin_override env (dm_world d) (xpc_dictionary_get_string message AUTH_XPC_TAG) (ucast operation) of
                 (status, result, w) \<Rightarrow>
                   (status,
                    if operation = kAuthorizationOverrideOperationQuery
                    then xpc_dictionary_set reply AUTH_XPC_ITEM_VALUE (XPC_Bool result) else reply, d\<lparr> dm_world := w \<rparr>)))"

section \<open>Dispatch\<close>

fun os_code :: "osstatus \<Rightarrow> 32 word" where
  "os_code errAuthorizationSuccess = 0"
| "os_code errAuthorizationInvalidSet = - 60001"
| "os_code errAuthorizationInvalidRef = - 60002"
| "os_code errAuthorizationInvalidTag = - 60003"
| "os_code errAuthorizationInvalidPointer = - 60004"
| "os_code errAuthorizationDenied = - 60005"
| "os_code errAuthorizationCanceled = - 60006"
| "os_code errAuthorizationInteractionNotAllowed = - 60007"
| "os_code errAuthorizationInternal = - 60008"
| "os_code errAuthorizationExternalizeNotAllowed = - 60009"
| "os_code errAuthorizationInternalizeNotAllowed = - 60010"
| "os_code errAuthorizationInvalidFlags = - 60011"
| "os_code errAuthorizationBadAddress = - 60033"
| "os_code errSecInternalError = - 67671"

text \<open>The handler of a message.  A dismissal stops the engine that runs on the connection: while a handler
  runs it is one of the events the engine sees, between handlers there is none.\<close>

definition handle_request ::
  "nat \<Rightarrow> nat \<Rightarrow> ('w, 'z) senv_scheme \<Rightarrow> 'w daemon \<Rightarrow> nat \<Rightarrow> xpc \<Rightarrow> xpc \<Rightarrow> 'w handled" where
  "handle_request n depth env d conn event reply =
     (let auth_type = xpc_dictionary_get_uint64 event AUTH_XPC_TYPE
      in if auth_type = 1 then authorization_create n depth env d conn event reply
         else if auth_type = 12 then Some (authorization_create_with_audit_token env d conn event reply)
         else if auth_type = 2 then Some (authorization_free env d conn event reply)
         else if auth_type = 3 then authorization_copy_rights n depth env d conn event reply
         else if auth_type = 4 then Some (authorization_copy_info env d conn event reply)
         else if auth_type = 5 then Some (authorization_make_external_form env d conn event reply)
         else if auth_type = 6 then Some (authorization_create_from_external_form env d conn event reply)
         else if auth_type = 7 then Some (authorization_right_get depth env d event reply)
         else if auth_type = 8 then authorization_right_set n depth env d conn event reply
         else if auth_type = 9 then authorization_right_remove n depth env d conn event reply
         else if auth_type = 10 then Some (session_set_user_preferences reply d)
         else if auth_type = 13 then Some (errAuthorizationSuccess, reply, d)
         else if auth_type = 14 then
           Some (errAuthorizationSuccess, reply,
             upd_proc (conn_proc d conn) (\<lambda>p. snd (process_set_bootstrap p (se_mach_send env event))) d)
         else if auth_type = 18 then Some (authorization_copy_right_properties depth env d conn event reply)
         else if auth_type = 16 then Some (authorization_copy_prelogin_userdb env d event reply)
         else if auth_type = 17 then Some (authorization_copy_prelogin_pref_value env d event reply)
         else if auth_type = 19 then Some (authorization_prelogin_smartcardonly_override env d conn event reply)
         else Some (errAuthorizationDenied, reply, d))"

definition security_auth_peer_event_handler ::
  "nat \<Rightarrow> nat \<Rightarrow> ('w, 'z) senv_scheme \<Rightarrow> 'w daemon \<Rightarrow> nat \<Rightarrow> xpc \<Rightarrow> (xpc \<times> 'w daemon) option" where
  "security_auth_peer_event_handler n depth env d conn event =
     map_option (\<lambda>(status, reply, d). (xpc_dictionary_set reply AUTH_XPC_STATUS (XPC_Int64 (scast (os_code status))), d))
       (handle_request n depth env d conn event (XPC_Dict []))"

end
