(* ===== verification/Server_Laws.thy ===== *)
theory Server_Laws
  imports Server Daemon_Laws Engine_Laws
begin

text \<open>
  What a client can do with its requests: hand a token to another process, read the context of a
  token, change the rights in the database.  No authorization writes the database.
\<close>

unbundle bit_operations_syntax

section \<open>Tokens\<close>

lemma find_from_xpc_Inr:
  "process_find_copy_auth_token_from_xpc env d p message = Inr a \<longleftrightarrow>
     (\<exists>blob. xpc_dictionary_get_data message AUTH_XPC_BLOB = Some blob \<and> length blob = 8 \<and>
       process_find_copy_auth_token env d p blob = Some a)"
  by (auto simp: process_find_copy_auth_token_from_xpc_def split: option.splits)

lemma external_form_parts:
  assumes "length blob = 8"
  shows "length (external_form blob ses) = kAuthorizationExternalFormLength" "take 8 (external_form blob ses) = blob"
  using assms by (simp_all add: external_form_def Let_def)

lemma add_token_fields:
  "map at_blob (dm_tokens (process_add_auth_token d p a)) = map at_blob (dm_tokens d)"
  "dm_conns (process_add_auth_token d p a) = dm_conns d" "dm_world (process_add_auth_token d p a) = dm_world d"
proof -
  have "map at_blob (xs[i := x]) = map at_blob xs" if "at_blob x = at_blob (xs ! i)" for xs :: "auth_token list" and i x
    unfolding map_update using that by (cases "i < length xs") (simp_all add: list_update_beyond list_update_same_conv)
  then have "map at_blob ((dm_tokens d)[a := fst (auth_token_add_process (dm_tokens d ! a) p)]) = map at_blob (dm_tokens d)"
    by (simp add: token_field_simps)
  then show "map at_blob (dm_tokens (process_add_auth_token d p a)) = map at_blob (dm_tokens d)"
    by (simp add: process_add_auth_token_def Let_def daemon_simps)
  show "dm_conns (process_add_auth_token d p a) = dm_conns d" "dm_world (process_add_auth_token d p a) = dm_world d"
    by (simp_all add: process_add_auth_token_def Let_def daemon_simps)
qed

lemma blobs_inject: "blobs_ok toks \<Longrightarrow> a < length toks \<Longrightarrow> b < length toks \<Longrightarrow> at_blob (toks ! a) = at_blob (toks ! b) \<Longrightarrow> a = b"
  by (auto simp: blobs_ok_def distinct_conv_nth)

lemma process_find_copy_None: "env_order_ok env \<Longrightarrow> process_find_copy_auth_token env d p blob = None \<longleftrightarrow>
    (\<forall>a\<in>set (pr_authTokens (dm_procs d ! p)). blob \<noteq> at_blob (dm_tokens d ! a))"
  unfolding process_find_copy_auth_token_def find_loop_None by (simp add: env_order_set)

text \<open>A token that a process was given is found by its blob.\<close>

lemma find_added_token:
  assumes "daemon_inv d" "env_order_ok env" "p < length (dm_procs d)" "a < length (dm_tokens d)"
  shows "process_find_copy_auth_token env (process_add_auth_token d p a) p (at_blob (dm_tokens d ! a)) = Some a"
proof -
  define d' where "d' = process_add_auth_token d p a"
  have inv: "daemon_inv d'"
    using inv_process_add_auth_token [OF assms(1,3,4)] by (simp add: d'_def)
  have "map at_blob (dm_tokens d') = map at_blob (dm_tokens d)"
    by (simp add: d'_def add_token_fields)
  note blobs = this
  have len: "length (dm_tokens d') = length (dm_tokens d)"
    using arg_cong [OF blobs, of length] by simp
  have blob: "at_blob (dm_tokens d' ! x) = at_blob (dm_tokens d ! x)" if "x < length (dm_tokens d)" for x
    using arg_cong [OF blobs, of "\<lambda>l. l ! x"] that len by simp
  have "length (dm_procs d') = length (dm_procs d)"
    by (simp add: d'_def process_add_auth_token_def Let_def daemon_simps)
  then have bag: "x < length (dm_tokens d)" if "x \<in> set (pr_authTokens (dm_procs d' ! p))" for x
    using daemon_inv_bag [OF inv, of p x] that assms(3) len by auto
  have mem: "a \<in> set (pr_authTokens (dm_procs d' ! p))"
    using assms(3,4) daemon_inv_blobs [OF assms(1)] daemon_inv_bag [OF assms(1,3)]
    by (simp add: d'_def process_add_auth_token_def Let_def daemon_simps cfbag_add_token)
  obtain x where x: "process_find_copy_auth_token env d' p (at_blob (dm_tokens d ! a)) = Some x"
  proof (cases "process_find_copy_auth_token env d' p (at_blob (dm_tokens d ! a))")
    case None
    then show ?thesis
      using mem blob [OF assms(4)] by (simp add: process_find_copy_None assms(2)) metis
  qed (use that in blast)
  have "x \<in> set (pr_authTokens (dm_procs d' ! p))" "at_blob (dm_tokens d' ! x) = at_blob (dm_tokens d ! a)"
    using process_find_copy_Some [OF assms(2) x] by simp_all
  then have "x = a"
    using blobs_inject [OF daemon_inv_blobs [OF assms(1)] _ assms(4), of x] bag blob by simp
  then show ?thesis
    using x by (simp add: d'_def)
qed

text \<open>C11. The external form of a token, made by one client and given to another, makes the other a holder of the
  same token: the second handler succeeds, and the blob in its reply names the token that the first
  client named.  The session in the form plays no part.  The daemon may be in any state that the steps of the life cycle
  of processes, tokens and connections reach; no authorization has run in it.\<close>

theorem external_form_roundtrip:
  assumes "reachable env d" "env_order_ok env" "client d (conn_proc d c1)" "client d (conn_proc d c2)"
    and "authorization_make_external_form env d c1 message (XPC_Dict []) = (errAuthorizationSuccess, reply, d1)"
    and "xpc_dictionary_get_value message2 AUTH_XPC_EXTERNAL = xpc_dictionary_get_value reply AUTH_XPC_EXTERNAL"
  shows "\<exists>auth reply2 d2. process_find_copy_auth_token_from_xpc env d (conn_proc d c1) message = Inr auth \<and>
    authorization_create_from_external_form env d1 c2 message2 (XPC_Dict []) = (errAuthorizationSuccess, reply2, d2) \<and>
    process_find_copy_auth_token_from_xpc env d2 (conn_proc d2 c2) reply2 = Inr auth"
proof -
  note inv = inv_reachable [OF assms(1,2)]
  obtain auth where auth: "process_find_copy_auth_token_from_xpc env d (conn_proc d c1) message = Inr auth"
    using assms(5) by (cases "process_find_copy_auth_token_from_xpc env d (conn_proc d c1) message")
      (auto simp: authorization_make_external_form_def process_find_copy_auth_token_from_xpc_def split: option.splits if_splits)
  then obtain blob where blob: "length blob = 8" "process_find_copy_auth_token env d (conn_proc d c1) blob = Some auth"
    by (auto simp: find_from_xpc_Inr)
  have tok: "auth < length (dm_tokens d)" "at_blob (dm_tokens d ! auth) = blob"
    using inv_find_token [OF assms(2) inv assms(3) blob(2)] process_find_copy_Some [OF assms(2) blob(2)] by simp_all
  define ex where "ex = external_form blob (process_get_session_id (dm_procs d ! conn_proc d c1))"
  have ext: "reply = XPC_Dict [(AUTH_XPC_EXTERNAL, XPC_Data ex)]" "d1 = server_register_auth_token d auth"
    using assms(5) auth tok(2) by (simp_all add: authorization_make_external_form_def Let_def ex_def)
  have data: "xpc_dictionary_get_data message2 AUTH_XPC_EXTERNAL = Some ex"
    using assms(6) by (simp add: xpc_dictionary_get_data_def ext(1))
  have inv1: "daemon_inv d1"
    using inv_server_register_auth_token [OF inv tok(1)] by (simp add: ext(2))
  have d1: "auth < length (dm_tokens d1)" "at_blob (dm_tokens d1 ! auth) = blob" "conn_proc d1 c2 = conn_proc d c2"
    "length (dm_procs d1) = length (dm_procs d)" "server_find_copy_auth_token d1 blob = Some auth"
    using tok by (simp_all add: ext(2) server_register_auth_token_def daemon_simps conn_proc_def server_find_copy_auth_token_def
        upd_token_def token_field_simps)
  define d2 where "d2 = process_add_auth_token d1 (conn_proc d1 c2) auth"
  have "authorization_create_from_external_form env d1 c2 message2 (XPC_Dict []) =
      (errAuthorizationSuccess, XPC_Dict [(AUTH_XPC_BLOB, XPC_Data blob)], d2)"
    using external_form_parts [OF blob(1)] data d1(2,5)
    by (simp add: authorization_create_from_external_form_def ex_def d2_def)
  moreover have "conn_proc d2 c2 = conn_proc d1 c2"
    by (simp add: d2_def conn_proc_def add_token_fields)
  moreover have "process_find_copy_auth_token env d2 (conn_proc d1 c2) blob = Some auth"
    using find_added_token [OF inv1 assms(2) _ d1(1), of "conn_proc d1 c2"] daemon_inv_client [OF inv assms(4)] d1
    by (simp add: d2_def)
  ultimately show ?thesis
    using auth blob(1) by (intro exI [of _ auth]) (simp add: find_from_xpc_Inr xpc_dictionary_get_data_def)
qed

section \<open>Samples\<close>

definition sample_senv :: "agent_reply \<Rightarrow> 'w senv" where
  "sample_senv reply = eenv.extend (sample_eenv reply) \<lparr>
     se_cf_of_xpc = \<lambda>x. (case x of XPC_String s \<Rightarrow> Some (CF_String s)
       | XPC_Dict d \<Rightarrow> Some (CF_Dict (map (\<lambda>(k, v). (k, case v of XPC_String s \<Rightarrow> CF_String s | _ \<Rightarrow> CF_Bool True)) d))
       | _ \<Rightarrow> None),
     se_xpc_of_cf = \<lambda>c. None, se_plist_data = \<lambda>d. None, se_mach_send = \<lambda>x. 0, se_show_pid = \<lambda>p. [],
     se_max_process_rights = None, se_prelogin_userdb = \<lambda>w u f. (errAuthorizationDenied, CF_Array []),
     se_prelogin_pref = \<lambda>w u n k i. (errAuthorizationDenied, CF_Array []),
     se_prelogin_override = \<lambda>w u n. (errAuthorizationDenied, False, w) \<rparr>"

text \<open>Two clients, one of which has made a token.\<close>

definition counting_senv :: "nat senv" where
  "counting_senv = (sample_senv Agent_Invalid)\<lparr> env_pidpath := \<lambda>w p. Pid_Error,
     env_guest_code := \<lambda>w t. Some (sample_code\<lparr> sc_path := None \<rparr>),
     env_random := \<lambda>w n. (Some (replicate n (''abcdef'' ! w)), Suc w) \<rparr>"

definition two_clients :: "nat daemon" where
  "two_clients = snd (server_register_connection counting_senv
     (snd (server_register_connection counting_senv (daemon_empty 0 db_initial) (sample_audit 1))) (sample_audit 2))"

definition token_made :: "nat daemon" where
  "token_made = process_add_auth_token (snd (new_auth_token counting_senv two_clients 0 False)) 0 0"

lemma counting_senv_order_ok: "env_order_ok counting_senv"
  by (simp add: env_order_ok_def counting_senv_def sample_senv_def sample_eenv_def plain_env_def env.defs eenv.defs)

lemma token_made_runs:
  "fst (new_auth_token counting_senv two_clients 0 False) = Some 0 \<and> dm_tokens two_clients = [] \<and>
   list_ex (\<lambda>c. cn_state c = Conn_Live \<and> cn_proc c = 0) (dm_conns two_clients) \<and>
   list_ex (\<lambda>c. cn_state c = Conn_Live \<and> cn_proc c = 0) (dm_conns token_made) \<and>
   list_ex (\<lambda>c. cn_state c = Conn_Live \<and> cn_proc c = 1) (dm_conns token_made) \<and>
   conn_proc token_made 0 = 0 \<and> conn_proc token_made 1 = 1"
  by code_simp

lemma token_made_reachable: "reachable counting_senv token_made"
proof -
  define d1 where "d1 = snd (server_register_connection counting_senv (daemon_empty 0 db_initial) (sample_audit 1))"
  obtain d3 where new: "new_auth_token counting_senv two_clients 0 False = (Some 0, d3)"
    using token_made_runs by (metis prod.collapse)
  have "daemon_step counting_senv two_clients (process_add_auth_token d3 0 0)"
    using daemon_step.create [of two_clients 0 counting_senv False 0 d3 False] new token_made_runs client_list_ex by force
  then have step: "daemon_step counting_senv two_clients token_made"
    using new by (simp add: token_made_def)
  have "daemon_step counting_senv (daemon_empty 0 db_initial) d1" "daemon_step counting_senv d1 two_clients"
    unfolding d1_def two_clients_def by (rule daemon_step.register)+
  then have "(daemon_step counting_senv)\<^sup>*\<^sup>* (daemon_empty 0 db_initial) token_made"
    using step by (meson rtranclp.rtrancl_into_rtrancl rtranclp.rtrancl_refl)
  then show ?thesis
    unfolding reachable_def by blast
qed

lemma token_made_exported:
  "\<exists>reply d1. authorization_make_external_form counting_senv token_made 0 (XPC_Dict [(AUTH_XPC_BLOB, XPC_Data ''aaaaaaaa'')])
     (XPC_Dict []) = (errAuthorizationSuccess, reply, d1)"
proof -
  have "fst (authorization_make_external_form counting_senv token_made 0 (XPC_Dict [(AUTH_XPC_BLOB, XPC_Data ''aaaaaaaa'')])
     (XPC_Dict [])) = errAuthorizationSuccess"
    by code_simp
  then show ?thesis
    by (metis prod.collapse)
qed

theorem external_form_roundtrip_witness:
  "\<exists>reply d1 auth reply2 d2. authorization_make_external_form counting_senv token_made 0
      (XPC_Dict [(AUTH_XPC_BLOB, XPC_Data ''aaaaaaaa'')]) (XPC_Dict []) = (errAuthorizationSuccess, reply, d1) \<and>
    authorization_create_from_external_form counting_senv d1 1 reply (XPC_Dict []) = (errAuthorizationSuccess, reply2, d2) \<and>
    process_find_copy_auth_token_from_xpc counting_senv d2 (conn_proc d2 1) reply2 = Inr auth"
proof -
  obtain reply d1 where made: "authorization_make_external_form counting_senv token_made 0
      (XPC_Dict [(AUTH_XPC_BLOB, XPC_Data ''aaaaaaaa'')]) (XPC_Dict []) = (errAuthorizationSuccess, reply, d1)"
    using token_made_exported by blast
  have "client token_made (conn_proc token_made 0)" "client token_made (conn_proc token_made 1)"
    using token_made_runs client_list_ex by force+
  then show ?thesis
    using external_form_roundtrip [OF token_made_reachable counting_senv_order_ok _ _ made refl] made by blast
qed

section \<open>The context of a token\<close>

lemma auth_items_copy_with_flags_distinct:
  assumes "distinct (map fst items)"
  shows "distinct (map fst (auth_items_copy_with_flags hp items src flags))"
  unfolding auth_items_copy_with_flags_def auth_items_iterate_fold
  by (rule fold_invariant [where P = "\<lambda>s. distinct (map fst s)"])
    (use assms in \<open>auto simp: Let_def auth_items_add_item_def distinct_update distinct_delete split: option.split\<close>)

lemma auth_items_copy_with_flags_wf:
  assumes "items_wf hp src"
  shows "items_wf hp (auth_items_copy_with_flags hp [] src flags)"
proof (rule items_wfI)
  show "distinct (map fst (auth_items_copy_with_flags hp [] src flags))"
    by (rule auth_items_copy_with_flags_distinct) simp
  show "a < hp_next hp \<and> ai_name (hp_get hp a) = k" if "find_item (auth_items_copy_with_flags hp [] src flags) k = Some a" for k a
    using that items_wfD [OF assms, of k a]
    by (simp add: auth_items_copy_with_flags_find [OF assms] split: if_splits) (simp add: find_item_def)
qed

text \<open>An item of the context that may be extracted.\<close>

definition extractable :: "items_heap \<Rightarrow> auth_items \<Rightarrow> string \<Rightarrow> bool" where
  "extractable h ctx k \<longleftrightarrow> (\<exists>a. find_item ctx k = Some a \<and> ai_flags (hp_get h a) AND kAuthorizationContextFlagExtractable \<noteq> 0)"

lemma extractable_check: "find_item ctx k \<noteq> None \<and> auth_items_check_flags h ctx k kAuthorizationContextFlagExtractable \<longleftrightarrow>
    extractable h ctx k"
  by (auto simp: extractable_def auth_items_check_flags_def auth_items_get_flags_def)

lemma extractable_items_spec:
  assumes "items_wf h ctx" "\<forall>k a. find_item ctx k = Some a \<longrightarrow> item_sized (hp_get h a)"
    and "extractable_items h ctx tag = (h1, items)"
  shows "hp_extends h h1" "items_wf h1 items" "find_item items k = Some a \<Longrightarrow> item_sized (hp_get h1 a)"
    "find_item items k = Some a \<Longrightarrow> extractable h ctx k \<and> (tag = None \<or> tag = Some k)"
proof -
  have "hp_extends h h1 \<and> items_wf h1 items \<and> (\<forall>k a. find_item items k = Some a \<longrightarrow> item_sized (hp_get h1 a) \<and>
      extractable h ctx k \<and> (tag = None \<or> tag = Some k))"
  proof (cases tag)
    case None
    then have eq: "h1 = h" "items = auth_items_copy_with_flags h [] ctx kAuthorizationContextFlagExtractable"
      using assms(3) by (auto simp: extractable_items_def auth_items_create_def)
    have "item_sized (hp_get h a) \<and> extractable h ctx k" if "find_item items k = Some a" for k a
      using that assms(2) extractable_check [where ctx = "ctx" and k = k and h = h]
      unfolding eq auth_items_copy_with_flags_find [OF assms(1)]
      by (auto split: if_splits) (simp_all add: find_item_def)
    then show ?thesis
      using None auth_items_copy_with_flags_wf [OF assms(1)] by (simp add: eq)
  next
    case (Some t)
    show ?thesis
    proof (cases "auth_items_get_data_with_flags h ctx t kAuthorizationContextFlagExtractable")
      case None
      then have "h1 = h" "items = []"
        using assms(3) Some by (simp_all add: extractable_items_def auth_items_create_def)
      then show ?thesis
        by (simp add: find_item_def)
    next
      case (Some p)
      obtain a where a: "find_item ctx t = Some a"
        "ai_flags (hp_get h a) AND kAuthorizationContextFlagExtractable = kAuthorizationContextFlagExtractable"
        using Some by (auto simp: auth_items_get_data_with_flags_def Let_def split: option.splits if_splits)
      then have ext: "extractable h ctx t"
        by (simp add: extractable_def)
      obtain v n where p: "p = (v, n)"
        by fastforce
      show ?thesis
      proof (cases "v = None \<or> v = Some []")
        case True
        then have "h1 = h" "items = []"
          using assms(3) \<open>tag = Some t\<close> Some p by (auto simp: extractable_items_def auth_items_create_def auth_items_set_data_def)
        then show ?thesis
          by (simp add: find_item_def)
      next
        case False
        then obtain b where b: "v = Some b" "b \<noteq> []"
          by auto
        define i where "i = \<lparr> ai_name = t, ai_value = Some b, ai_valueLength = length b, ai_flags = 0, ai_type = AI_TYPE_DATA, ai_bufLen = length b \<rparr>"
        have "auth_item_create AI_TYPE_DATA (Some t) (Some b) (length b) 0 = Some i"
          using b(2) by (simp add: auth_item_create_def i_def)
        then have eq: "h1 = hp_alloc i h" "items = [(t, hp_next h)]"
          using assms(3) \<open>tag = Some t\<close> Some p b
          by (simp_all add: extractable_items_def auth_items_create_def auth_items_set_data_def find_item_def items_add_new_def
              auth_items_add_item_def i_def)
        have "item_sized i" "ai_name i = t"
          by (simp_all add: i_def item_sized_def)
        then show ?thesis
          using ext \<open>tag = Some t\<close> by (auto simp: eq hp_extends_alloc items_wf_def find_item_def split: if_splits)
      qed
    qed
  qed
  then show "hp_extends h h1" "items_wf h1 items" "find_item items k = Some a \<Longrightarrow> item_sized (hp_get h1 a)"
    "find_item items k = Some a \<Longrightarrow> extractable h ctx k \<and> (tag = None \<or> tag = Some k)"
    by blast+
qed

lemma xpc_item_name: "xpc_dictionary_get_string (auth_item_copy_auth_item_xpc i) AUTH_XPC_ITEM_NAME = Some (ai_name i)"
  by (simp add: auth_item_copy_auth_item_xpc_def xpc_dictionary_get_string_def Let_def split: option.split)

text \<open>C9. A client that holds a token is told items of the token's context that are marked extractable and no
  others, the one it asks for or all of them, and the password only with the entitlement to extract it.
  The items are decrypted in copies: what the token keeps stays as it was, encrypted.\<close>

theorem copy_info_extractable:
  assumes "process_find_copy_auth_token_from_xpc env d (conn_proc d conn) message = Inr auth"
    and "items_wf (dm_items d) (at_context (dm_tokens d ! auth))"
    and "list_all (\<lambda>(_, a). item_sized (hp_get (dm_items d) a)) (at_context (dm_tokens d ! auth))"
  shows "\<exists>ys d'. authorization_copy_info env d conn message (XPC_Dict []) =
      (errAuthorizationSuccess, XPC_Dict [(AUTH_XPC_OUT_ITEMS, XPC_Array ys)], d') \<and>
    list_all (\<lambda>y. \<exists>k. xpc_dictionary_get_string y AUTH_XPC_ITEM_NAME = Some k \<and>
      extractable (dm_items d) (at_context (dm_tokens d ! auth)) k \<and>
      (xpc_dictionary_get_string message AUTH_XPC_TAG = None \<or> xpc_dictionary_get_string message AUTH_XPC_TAG = Some k) \<and>
      (k = ''password'' \<longrightarrow> entitled_true (dm_procs d ! conn_proc d conn) ''com.apple.authorization.extract-password'')) ys \<and>
    hp_extends (dm_items d) (dm_items d') \<and> d' = d\<lparr> dm_items := dm_items d' \<rparr>"
proof -
  let ?ctx = "at_context (dm_tokens d ! auth)" and ?tag = "xpc_dictionary_get_string message AUTH_XPC_TAG"
  let ?ok = "entitled_true (dm_procs d ! conn_proc d conn) ''com.apple.authorization.extract-password''"
  obtain h1 items where e: "extractable_items (dm_items d) ?ctx ?tag = (h1, items)"
    by fastforce
  have sized: "\<forall>k a. find_item ?ctx k = Some a \<longrightarrow> item_sized (hp_get (dm_items d) a)"
    using assms(3) items_wf_distinct [OF assms(2)] by (auto simp: find_item_iff list_all_iff)
  note spec = extractable_items_spec [OF assms(2) sized e]
  obtain h2 loc where copy: "auth_items_content_copy h1 [] items = (h2, loc)"
    by fastforce
  have "deep_copied h1 [] items (fst ` set items) (h2, loc)"
    using auth_items_content_copy_deep [OF items_wf_Nil spec(2,3)] copy by simp
  then have deep: "hp_extends h1 h2" "items_wf h2 loc"
    "\<And>k. k \<notin> fst ` set items \<Longrightarrow> find_item loc k = None"
    "\<And>k. k \<in> fst ` set items \<Longrightarrow> \<exists>b. find_item loc k = Some b \<and> hp_next h1 \<le> b"
    by (auto simp: deep_copied_def find_item_def)
  define h3 where "h3 = auth_items_decrypt (env_cccrypt env) h2 loc (at_encryption_key (dm_tokens d ! auth))"
  have h3: "hp_get h3 a = (if a \<in> snd ` set loc then snd (auth_item_decrypt (env_cccrypt env) (hp_get h2 a)
      (at_encryption_key (dm_tokens d ! auth))) else hp_get h2 a)" "hp_next h3 = hp_next h2" "hp_fault h3 = hp_fault h2" for a
    using auth_items_crypt_worker_get [OF deep(2), of "\<lambda>i. auth_item_decrypt (env_cccrypt env) i (at_encryption_key (dm_tokens d ! auth))"]
    by (simp_all add: h3_def auth_items_decrypt_def auth_item_decrypt_def)
  have fresh: "hp_next h1 \<le> b" if "(k, b) \<in> set loc" for k b
    using that deep(3,4) [of k] find_item_iff [OF items_wf_distinct [OF deep(2)], of k b] by fastforce
  have "hp_extends h1 h3"
    using deep(1) fresh h3 by (force simp: hp_extends_def)
  then have extends: "hp_extends (dm_items d) h3"
    using spec(1) by (fastforce simp: hp_extends_def)
  have name: "ai_name (hp_get h3 a) = k" if "(k, a) \<in> set loc" for k a
    using that items_wf_name [OF deep(2) that] by (simp add: h3(1) auth_item_decrypt_def)
  have from_ctx: "extractable (dm_items d) ?ctx k \<and> (?tag = None \<or> ?tag = Some k)" if "(k, a) \<in> set loc" for k a
    using that deep(3) [of k] spec(4) [of k] find_item_iff [OF items_wf_distinct [OF deep(2)], of k a]
      find_item_None_iff [of items k] by fastforce
  define loc' where "loc' = (if auth_items_exist loc ''password'' \<and> \<not> ?ok then auth_items_remove loc ''password'' else loc)"
  have loc': "(k, a) \<in> set loc \<and> (k = ''password'' \<longrightarrow> ?ok)" if "(k, a) \<in> set loc'" for k a
  proof (cases "auth_items_exist loc ''password'' \<and> \<not> ?ok")
    case True
    then have "(k, a) \<in> set (AList.delete ''password'' loc)"
      using that by (simp add: loc'_def auth_items_remove_def)
    then show ?thesis
      using set_delete_subset [of "''password''" loc] AList.delete_notin_dom [of "''password''" loc] by force
  next
    case False
    then show ?thesis
      using that by (force simp: loc'_def auth_items_exist_def find_item_None_iff)
  qed
  have "authorization_copy_info env d conn message (XPC_Dict []) =
      (errAuthorizationSuccess, XPC_Dict [(AUTH_XPC_OUT_ITEMS, auth_items_export_xpc h3 loc')], d\<lparr> dm_items := h3 \<rparr>)"
    using assms(1) e copy by (simp add: authorization_copy_info_def Let_def auth_items_create_def h3_def [symmetric] loc'_def)
  moreover have "xpc_dictionary_get_string y AUTH_XPC_ITEM_NAME = Some k \<and> extractable (dm_items d) ?ctx k \<and>
      (?tag = None \<or> ?tag = Some k) \<and> (k = ''password'' \<longrightarrow> ?ok)"
    if "y = auth_item_copy_auth_item_xpc (hp_get h3 a)" "(k, a) \<in> set loc'" for y k a
    using that(1) loc' [OF that(2)] name [of k a] from_ctx [of k a] by (simp add: xpc_item_name)
  then have "list_all (\<lambda>y. \<exists>k. xpc_dictionary_get_string y AUTH_XPC_ITEM_NAME = Some k \<and> extractable (dm_items d) ?ctx k \<and>
      (?tag = None \<or> ?tag = Some k) \<and> (k = ''password'' \<longrightarrow> ?ok)) (map (\<lambda>(k, a). auth_item_copy_auth_item_xpc (hp_get h3 a)) loc')"
    unfolding list_all_iff by (force simp del: xpc_get_set)
  ultimately show ?thesis
    using extends
    by (intro exI [of _ "map (\<lambda>(k, a). auth_item_copy_auth_item_xpc (hp_get h3 a)) loc'"] exI [of _ "d\<lparr> dm_items := h3 \<rparr>"])
      (simp add: auth_items_export_xpc_def)
qed

definition context_item :: "string \<Rightarrow> auth_item" where
  "context_item name = \<lparr> ai_name = name, ai_value = Some ''x'', ai_valueLength = 1, ai_flags = 1, ai_type = AI_TYPE_DATA, ai_bufLen = 1 \<rparr>"

definition context_daemon :: "unit daemon" where
  "context_daemon = (sample_daemon db_initial)\<lparr>
     dm_items := hp_alloc (context_item ''password'') (hp_alloc (context_item ''username'') hp_empty),
     dm_tokens := [sample_token\<lparr> at_blob := ''aaaaaaaa'', at_context := [(''username'', 0), (''password'', 1)] \<rparr>] \<rparr>"

theorem copy_info_extractable_witness:
  "\<exists>ys d'. authorization_copy_info (sample_senv Agent_Invalid) context_daemon 0 (XPC_Dict [(AUTH_XPC_BLOB, XPC_Data ''aaaaaaaa'')])
      (XPC_Dict []) = (errAuthorizationSuccess, XPC_Dict [(AUTH_XPC_OUT_ITEMS, XPC_Array ys)], d') \<and>
    list_all (\<lambda>y. xpc_dictionary_get_string y AUTH_XPC_ITEM_NAME \<noteq> Some ''password'') ys"
proof -
  let ?m = "XPC_Dict [(AUTH_XPC_BLOB, XPC_Data ''aaaaaaaa'')]"
  have found: "process_find_copy_auth_token_from_xpc (sample_senv Agent_Invalid) context_daemon (conn_proc context_daemon 0) ?m = Inr 0"
    by code_simp
  have wf: "items_wf (dm_items context_daemon) (at_context (dm_tokens context_daemon ! 0))"
    and sized: "list_all (\<lambda>(_, a). item_sized (hp_get (dm_items context_daemon) a)) (at_context (dm_tokens context_daemon ! 0))"
    unfolding items_wf_def list_all_iff [symmetric] by code_simp+
  have no: "\<not> entitled_true (dm_procs context_daemon ! conn_proc context_daemon 0) ''com.apple.authorization.extract-password''"
    by code_simp
  show ?thesis
    using copy_info_extractable [OF found wf sized]
  proof (elim exE conjE)
    fix ys d'
    assume *: "authorization_copy_info (sample_senv Agent_Invalid) context_daemon 0 ?m (XPC_Dict []) =
        (errAuthorizationSuccess, XPC_Dict [(AUTH_XPC_OUT_ITEMS, XPC_Array ys)], d')"
      and ys: "list_all (\<lambda>y. \<exists>k. xpc_dictionary_get_string y AUTH_XPC_ITEM_NAME = Some k \<and>
        extractable (dm_items context_daemon) (at_context (dm_tokens context_daemon ! 0)) k \<and>
        (xpc_dictionary_get_string ?m AUTH_XPC_TAG = None \<or> xpc_dictionary_get_string ?m AUTH_XPC_TAG = Some k) \<and>
        (k = ''password'' \<longrightarrow> entitled_true (dm_procs context_daemon ! conn_proc context_daemon 0)
          ''com.apple.authorization.extract-password'')) ys"
    have "list_all (\<lambda>y. xpc_dictionary_get_string y AUTH_XPC_ITEM_NAME \<noteq> Some ''password'') ys"
      by (rule list.pred_mono_strong [OF ys]) (use no in auto)
    with * show ?thesis
      by blast
  qed
qed

section \<open>No authorization writes the database\<close>

lemma db_upd [simp]:
  "dm_db (upd_proc p f d) = dm_db d" "dm_db (upd_token a g d) = dm_db d" "dm_db (upd_session s h d) = dm_db d"
  "dm_db (server_unregister_auth_token d a) = dm_db d" "dm_db (server_register_auth_token d a) = dm_db d"
  "dm_db (daemon_crash b d) = dm_db d" "dm_db (process_add_auth_token d p a) = dm_db d"
  by (simp_all add: upd_proc_def upd_token_def upd_session_def server_unregister_auth_token_def server_register_auth_token_def
      daemon_crash_def process_add_auth_token_def Let_def)

lemma db_fold: "(\<And>x d. dm_db (f x d) = dm_db d) \<Longrightarrow> dm_db (fold f xs d) = dm_db d"
  by (induction xs arbitrary: d) simp_all

lemma db_remove_token [simp]: "dm_db (process_remove_auth_token env d p a flags) = dm_db d"
proof -
  have "dm_db (destroy_zombie_tokens env d p) = dm_db d" for d :: "'a daemon"
    by (simp add: destroy_zombie_tokens_def cf_iterate_all db_fold destroy_zombie_step_def Let_def)
  then show ?thesis
    by (simp add: process_remove_auth_token_def Let_def split: prod.split)
qed

lemma db_connection_finalize [simp]: "dm_db (connection_finalize env d c) = dm_db d"
proof -
  have "dm_db (unregister_auth_tokens p a d) = dm_db d" for p a and d :: "'a daemon"
    by (simp add: unregister_auth_tokens_def Let_def split: prod.split)
  then have "dm_db (process_finalize env d p) = dm_db d" for p and d :: "'a daemon"
    by (simp add: process_finalize_def Let_def db_fold)
  then show ?thesis
    by (simp add: connection_finalize_def process_release_def Let_def)
qed

lemma db_new_token: "new_auth_token env d p least = (a, d') \<Longrightarrow> dm_db d' = dm_db d"
  by (auto simp: new_auth_token_def Let_def split: prod.splits option.splits)

lemma db_engine_create [simp]: "dm_db (ms_d (engine_create env d conn auth)) = dm_db d"
proof -
  have hints: "en_frame (set_process_hints p s) = en_frame s" "en_frame (set_process_immutable_hints p s) = en_frame s"
    "en_frame (set_auth_token_hints env a s) = en_frame s" for p a and s :: "'a machine"
    by (simp_all add: set_process_hints_def set_process_immutable_hints_def set_auth_token_hints_def Let_def split: option.split)
  have now: "dm_db (ms_d (upd_en f s)) = dm_db (ms_d s)" for f and s :: "'a machine"
    by (simp add: upd_en_def)
  have ses: "dm_db (ms_d (set_session ses s)) = dm_db (ms_d s)" for ses and s :: "'a machine"
    using en_frame_eq(5) [OF frame_set_session] .
  have cred: "dm_db (ms_d (snd (new_cred c s))) = dm_db (ms_d s)" for c and s :: "'a machine"
    by (simp add: new_cred_def upd_d_def)
  have crash: "dm_db (ms_d (ms_crash b s)) = dm_db (ms_d s)" for b and s :: "'a machine"
    by (simp add: ms_crash_def upd_d_def)
  show ?thesis
    by (simp add: engine_create_def Let_def case_prod_beta crash now cred ses en_frame_eq(5) [OF hints(1)]
        en_frame_eq(5) [OF hints(2)] en_frame_eq(5) [OF hints(3)])
qed

lemma db_authorize_rights:
  "authorize_rights n depth env rights fl keys m st s = Some (st', s') \<Longrightarrow> dm_db (ms_d s') = dm_db (ms_d s)"
proof (induction keys arbitrary: m st s)
  case Nil
  then show ?case by simp
next
  case (Cons key keys)
  have crash: "dm_db (ms_d (ms_crash b s)) = dm_db (ms_d s)" for b
    by (simp add: ms_crash_def upd_d_def)
  show ?case
  proof (cases "verify_sandbox env key s")
    case False
    then show ?thesis
      using Cons.prems by simp
  next
    case sandbox: True
    obtain r m1 where r: "rule_of_right depth env key m s = (r, m1)"
      by fastforce
    show ?thesis
    proof (cases r)
      case None
      then show ?thesis
        using Cons.prems sandbox r crash by auto
    next
      case (Some rule)
      then obtain st1 s1 where eval: "evaluate_rule n env rule (prepare_right depth fl key rule (ms_crash (rule_fault rule) s)) = Some (st1, s1)"
        using Cons.prems sandbox r by (auto split: option.splits)
      have s1: "dm_db (ms_d s1) = dm_db (ms_d s)"
        using en_frame_eq(5) [OF frame_rule [OF eval]] crash by simp
      have "dm_db (ms_d (finish_right (if st1 = errAuthorizationSuccess then grant_right rights key rule s1 else s1))) = dm_db (ms_d s)"
        using s1 by simp
      then show ?thesis
        using Cons.prems Cons.IH sandbox r Some eval by (auto simp: Let_def split: if_splits)
    qed
  qed
qed

lemma db_smartcard_authorize:
  assumes "\<And>r i f s st s'. authorize r i f s = Some (st, s') \<Longrightarrow> dm_db (ms_d s') = dm_db (ms_d s)"
    and "smartcard_authorize authorize env user s = Some (st, s')"
  shows "dm_db (ms_d s') = dm_db (ms_d s)"
proof -
  obtain st1 w where self: "ee_self_authorize env (ms_world s) = (st1, w)"
    by fastforce
  define s1 where "s1 = remove_key Context ''rscuser'' (upd_d (\<lambda>d. d\<lparr> dm_world := w \<rparr>) s)"
  obtain conn d where conn: "connection_create (ms_d s1) (en_proc (ms_en s1)) = (conn, d)"
    by fastforce
  obtain a d2 where tok: "new_auth_token env d (en_proc (ms_en s1)) False = (a, d2)"
    by fastforce
  have db: "dm_db (ms_d s1) = dm_db (ms_d s)" "dm_db d = dm_db (ms_d s1)" "dm_db d2 = dm_db d"
    using en_frame_eq(5) [of s1 s] conn db_new_token [OF tok] by (auto simp: s1_def connection_create_def)
  have world: "dm_db (ms_d (upd_d (\<lambda>d. d\<lparr> dm_world := w \<rparr>) s)) = dm_db (ms_d s)"
    by (simp add: upd_d_def)
  show ?thesis
    using assms(2) db
    by (auto simp: smartcard_authorize_def self s1_def [symmetric] conn tok Let_def world dest!: assms(1)
        split: if_splits option.splits prod.splits)
qed

lemma db_finish_authorization:
  assumes "\<And>r i f s st s'. authorize r i f s = Some (st, s') \<Longrightarrow> dm_db (ms_d s') = dm_db (ms_d s)"
    and "finish_authorization authorize env password_only status s = Some (st, s')"
  shows "dm_db (ms_d s') = dm_db (ms_d s)"
proof -
  define s1 where "s1 = (if password_only then remove_key Immutable_Hints ''password-only'' s else s)"
  obtain req s2 where s2: "get_string Context ''rscuser'' s1 = (req, s2)"
    by fastforce
  have db2: "dm_db (ms_d s2) = dm_db (ms_d s)"
    using en_frame_eq(5) [OF frame_read(2) [OF s2]] en_frame_eq(5) [of s1 s] by (simp add: s1_def)
  obtain st3 s3 where s3: "(case req of None \<Rightarrow> Some (rights_status status s1, s2)
      | Some user \<Rightarrow> if rights_status status s1 \<noteq> errAuthorizationSuccess then Some (rights_status status s1, s2)
          else smartcard_authorize authorize env user s2) = Some (st3, s3)"
    "s' = engine_cleanup (export_context env st3 (store_credentials env s3))"
    using assms(2) unfolding finish_authorization_def s1_def [symmetric] by (auto simp: s2 Let_def)
  have "dm_db (ms_d s3) = dm_db (ms_d s2)"
    using s3(1) db_smartcard_authorize [OF assms(1)] by (auto split: option.splits if_splits)
  then show ?thesis
    using db2 en_frame_eq(5) [of "export_context env st3 (store_credentials env s3)" s3] by (simp add: s3(2) engine_cleanup_def upd_en_def)
qed

lemma db_engine_authorize:
  "engine_authorize n depth env rights environment flags s = Some (st, s') \<Longrightarrow> dm_db (ms_d s') = dm_db (ms_d s)"
proof (induction n arbitrary: rights environment flags s st s')
  case 0
  then show ?case by simp
next
  case (Suc n)
  have clean: "dm_db (ms_d (engine_cleanup s)) = dm_db (ms_d s)" for s :: "'a machine"
    by (simp add: engine_cleanup_def upd_en_def)
  show ?case
  proof (cases rights)
    case None
    then show ?thesis
      using Suc.prems clean by auto
  next
    case (Some rs)
    obtain go s1 where prep: "prepare_authorization env (map ai_name rs) environment flags (s\<lparr> ms_save_pwd := False \<rparr>) = (go, s1)"
      by fastforce
    have s1: "dm_db (ms_d s1) = dm_db (ms_d s)"
      using prepare_authorization_frame(4) [OF prep] by simp
    show ?thesis
    proof (cases go)
      case False
      then show ?thesis
        using Suc.prems Some prep s1 clean by (auto simp: Let_def)
    next
      case True
      define p where "p = (\<not> has_flag kAuthorizationFlagIgnorePasswordOnly s1 \<and> list_ex (password_only_right depth (dm_db (ms_d s1))) (map ai_name rs))"
      define s2 where "s2 = (if p then put_bool Immutable_Hints ''password-only'' True s1 else s1)"
      obtain st3 s3 where loop: "authorize_rights n depth env rs (shown_flags (map ai_name rs) flags s) (map ai_name rs) None
          errAuthorizationSuccess s2 = Some (st3, s3)"
        and fin: "finish_authorization (engine_authorize n depth env) env p st3 s3 = Some (st, s')"
        using Suc.prems Some prep True by (auto simp: Let_def p_def s2_def shown_flags_def bind_eq_Some_conv)
      have "dm_db (ms_d s2) = dm_db (ms_d s1)"
        using en_frame_eq(5) [of s2 s1] by (simp add: s2_def)
      then show ?thesis
        using db_finish_authorization [OF Suc.IH fin] db_authorize_rights [OF loop] s1 by simp
    qed
  qed
qed

lemma db_verify_modification:
  "engine_verify_modification n depth env r remove force s = Some (st, s') \<Longrightarrow> dm_db (ms_d s') = dm_db (ms_d s)"
  using db_engine_authorize by (auto simp: engine_verify_modification_def split: sum.splits)

section \<open>Changes of the rules\<close>

lemma right_set_admit_db: "right_set_admit depth env d conn auth_rule r = (f, d1) \<Longrightarrow> dm_db d1 = dm_db d"
  by (auto simp: right_set_admit_def Let_def split: if_splits option.splits)

lemma right_set_admit_Some:
  "right_set_admit depth env d conn auth_rule r = (Some force, d1) \<Longrightarrow>
    force = (rule_get_id r = 0 \<and> pr_code_identifier (dm_procs d ! conn_proc d conn) = None) \<and>
    (if rule_get_id r = 0 then
       (case pr_code_identifier (dm_procs d ! conn_proc d conn) of None \<Rightarrow> True
        | Some i \<Rightarrow> \<not> get_max_process_rights env \<le>s process_get_identifier_count (dm_db d) i)
     else if auth_rule then process_get_uid (dm_procs d ! conn_proc d conn) = 0
     else \<exists>old. rule_create_with_string depth (rule_get_name r) (Some (dm_db d)) = Some old \<and> rule_get_type old \<noteq> RT_RULE)"
  by (auto simp: right_set_admit_def Let_def split: if_splits option.splits)

lemma verify_modification_granted:
  assumes "engine_verify_modification n depth env r False force s = Some (errAuthorizationSuccess, s')"
  shows "\<exists>right. modification_right depth (dm_db (ms_d s)) r False force = Inr right \<and>
    engine_authorize n depth env (Some (auth_rights_add auth_rights_create right)) None
      (kAuthorizationFlagInteractionAllowed OR kAuthorizationFlagExtendRights) s = Some (errAuthorizationSuccess, s')"
proof -
  have "modification_right depth (dm_db (ms_d s)) r False force \<noteq> Inl errAuthorizationSuccess"
    by (auto simp: modification_right_def Let_def split: option.splits)
  then show ?thesis
    using assms by (auto simp: engine_verify_modification_def split: sum.splits)
qed

text \<open>C8. A request to set a right changes the database only for the holder of a token and only when the change
  is allowed: the password may be made extractable by root alone, the rule \<^verbatim>\<open>authenticate\<close> is changed by root
  alone and no other rule at all, a signed process stays below its number of rights; and the process has the entitlement
  to modify all rights, or an authorization of the right that guards the change was successful.\<close>

theorem right_set_protects:
  assumes "authorization_right_set n depth env d conn message reply = Some (status, reply', d')" "dm_db d' \<noteq> dm_db d"
  shows "\<exists>auth name data dict. process_find_copy_auth_token_from_xpc env d (conn_proc d conn) message = Inr auth \<and>
    xpc_dictionary_get_string message AUTH_XPC_RIGHT_NAME = Some name \<and>
    xpc_dictionary_get_value message AUTH_XPC_DATA = Some data \<and> se_cf_of_xpc env data = Some (CF_Dict dict) \<and>
    (let proc = dm_procs d ! conn_proc d conn; auth_rule = strcase_eq name ''authenticate'';
         r = rule_create_with_plist depth (if auth_rule then RT_RULE else RT_RIGHT) name dict (dm_db d)
     in (process_get_uid proc = 0 \<or> \<not> rule_get_extract_password r) \<and>
       (if rule_get_id r = 0 then
          (case pr_code_identifier proc of None \<Rightarrow> True
           | Some i \<Rightarrow> \<not> get_max_process_rights env \<le>s process_get_identifier_count (dm_db d) i)
        else if auth_rule then process_get_uid proc = 0
        else \<exists>old. rule_create_with_string depth (rule_get_name r) (Some (dm_db d)) = Some old \<and> rule_get_type old \<noteq> RT_RULE) \<and>
       (entitled_true proc ''com.apple.private.authorization.modify.all'' \<or>
        (\<exists>right d1 s. modification_right depth (dm_db d) r False (rule_get_id r = 0 \<and> pr_code_identifier proc = None) = Inr right \<and>
           dm_db d1 = dm_db d \<and>
           engine_authorize n depth env (Some (auth_rights_add auth_rights_create right)) None
             (kAuthorizationFlagInteractionAllowed OR kAuthorizationFlagExtendRights) (engine_create env d1 conn auth) =
             Some (errAuthorizationSuccess, s))))"
proof -
  obtain auth where auth: "process_find_copy_auth_token_from_xpc env d (conn_proc d conn) message = Inr auth"
    using assms by (cases "process_find_copy_auth_token_from_xpc env d (conn_proc d conn) message") (auto simp: authorization_right_set_def)
  obtain name data where args: "xpc_dictionary_get_string message AUTH_XPC_RIGHT_NAME = Some name"
    "xpc_dictionary_get_value message AUTH_XPC_DATA = Some data"
    using assms auth by (auto simp: authorization_right_set_def split: option.splits)
  let ?t = "if strcase_eq name ''authenticate'' then RT_RULE else RT_RIGHT"
  obtain dict where dict: "se_cf_of_xpc env data = Some (CF_Dict dict)"
    using assms auth args by (auto simp: authorization_right_set_def Let_def split: if_splits option.splits cf.splits)
  define r where "r = rule_create_with_plist depth ?t name dict (dm_db d)"
  define d0 where "d0 = daemon_crash (rule_fault r) d"
  have d0: "dm_db d0 = dm_db d" "dm_procs d0 = dm_procs d" "conn_proc d0 conn = conn_proc d conn"
    by (simp_all add: d0_def daemon_crash_def conn_proc_def)
  have set: "right_set_rule n depth env d0 conn auth (strcase_eq name ''authenticate'') r = Some (status, d')"
    using assms auth args dict
    by (auto simp: authorization_right_set_def Let_def r_def d0_def split: if_splits)
  have pw: "process_get_uid (dm_procs d ! conn_proc d conn) = 0 \<or> \<not> rule_get_extract_password r"
    using set assms(2) d0 by (auto simp: right_set_rule_def split: if_splits)
  obtain f d1 where admit: "right_set_admit depth env d0 conn (strcase_eq name ''authenticate'') r = (f, d1)"
    by fastforce
  have d1: "dm_db d1 = dm_db d"
    using right_set_admit_db [OF admit] d0 by simp
  obtain force where f: "f = Some force"
    using set assms(2) d0 admit d1 pw by (cases f) (auto simp: right_set_rule_def split: if_splits)
  note admitted = right_set_admit_Some [OF admit [unfolded f], unfolded d0]
  have "\<exists>right s. modification_right depth (dm_db d) r False force = Inr right \<and>
      engine_authorize n depth env (Some (auth_rights_add auth_rights_create right)) None
        (kAuthorizationFlagInteractionAllowed OR kAuthorizationFlagExtendRights) (engine_create env d1 conn auth) =
        Some (errAuthorizationSuccess, s)"
    if no: "\<not> entitled_true (dm_procs d ! conn_proc d conn) ''com.apple.private.authorization.modify.all''"
  proof -
    obtain st s where verify: "engine_verify_modification n depth env r False force (engine_create env d1 conn auth) = Some (st, s)"
      using set no pw d0 admit f by (auto simp: right_set_rule_def prompt_for_modifications_def bind_eq_Some_conv split: if_splits)
    have "dm_db (ms_d s) = dm_db d"
      using db_verify_modification [OF verify] d1 by simp
    then have "st = errAuthorizationSuccess"
      using set no pw d0 admit f verify assms(2) by (auto simp: right_set_rule_def prompt_for_modifications_def split: if_splits)
    then show ?thesis
      using verify_modification_granted [of n depth env r force _ s] verify d1 by fastforce
  qed
  then have by_right: "entitled_true (dm_procs d ! conn_proc d conn) ''com.apple.private.authorization.modify.all'' \<or>
      (\<exists>right d1 s. modification_right depth (dm_db d) r False
           (rule_get_id r = 0 \<and> pr_code_identifier (dm_procs d ! conn_proc d conn) = None) = Inr right \<and> dm_db d1 = dm_db d \<and>
         engine_authorize n depth env (Some (auth_rights_add auth_rights_create right)) None
           (kAuthorizationFlagInteractionAllowed OR kAuthorizationFlagExtendRights) (engine_create env d1 conn auth) =
           Some (errAuthorizationSuccess, s))"
    using conjunct1 [OF admitted] d1 by blast
  show ?thesis
    by (intro exI [of _ auth] exI [of _ name] exI [of _ data] exI [of _ dict], unfold Let_def r_def [symmetric], intro conjI)
      (rule auth args dict pw conjunct2 [OF admitted] by_right)+
qed

text \<open>A process with the entitlement to modify all rights adds a right.\<close>

definition modifying_process :: process where
  "modifying_process = sample_process\<lparr> pr_code_entitlements := Some [(''com.apple.private.authorization.modify.all'', CF_Bool True)] \<rparr>"

definition modifying_daemon :: "unit daemon" where
  "modifying_daemon = (sample_daemon chain_db)\<lparr>
     dm_procs := [modifying_process],
     dm_tokens := [sample_token\<lparr> at_blob := ''aaaaaaaa'' \<rparr>] \<rparr>"

definition set_message :: xpc where
  "set_message = XPC_Dict [(AUTH_XPC_TYPE, XPC_Uint64 8), (AUTH_XPC_BLOB, XPC_Data ''aaaaaaaa''),
     (AUTH_XPC_RIGHT_NAME, XPC_String ''x''), (AUTH_XPC_DATA, XPC_Dict [(''class'', XPC_String ''allow'')])]"

lemma set_message_fields:
  "xpc_dictionary_get_string set_message AUTH_XPC_RIGHT_NAME = Some ''x''"
  "xpc_dictionary_get_value set_message AUTH_XPC_DATA = Some (XPC_Dict [(''class'', XPC_String ''allow'')])"
  "\<not> strcase_eq ''x'' ''authenticate''" "xpc_dictionary_get_uint64 set_message AUTH_XPC_TYPE = 8"
  by (simp_all add: set_message_def xpc_dictionary_get_string_def xpc_dictionary_get_uint64_def strcase_eq_def)

lemma modifying_daemon_db: "dm_db modifying_daemon = chain_db"
  by (simp add: modifying_daemon_def sample_daemon_def daemon_empty_def)

definition allow_rule :: rule where
  "allow_rule = rule_set_int64 ''flags'' 0 (rule_set_int64 ''version'' 0 (rule_set_localization None None
     (rule_set_int64 ''class'' (ucast RC_ALLOW) (rule_set_int64 ''type'' (ucast RT_RIGHT)
       (sql_get_id (rule_set_data_string ''name'' (Some (CF_String ''x'')) rule_create) chain_db)))))"

lemma allow_rule_fields: "rule_get_class (rule_set_int64 ''version'' 0 (rule_set_localization None None
     (rule_set_int64 ''class'' (ucast RC_ALLOW) (rule_set_int64 ''type'' (ucast RT_RIGHT)
       (sql_get_id (rule_set_data_string ''name'' (Some (CF_String ''x'')) rule_create) chain_db))))) = RC_ALLOW"
  "rule_get_id allow_rule = 0" "\<not> rule_get_extract_password allow_rule"
  by code_simp+

lemma allow_rule_created: "rule_create_with_plist 2 RT_RIGHT ''x'' [(''class'', CF_String ''allow'')] chain_db = allow_rule"
proof -
  have c: "get_cf_rule_class (Some (CF_String ''allow'')) = RC_ALLOW"
    by code_simp
  have n: "rule_set_data_string ''comment'' None r = r" for r
    by (simp add: rule_set_data_string_def copy_cf_string_def)
  show ?thesis
    by (simp add: rule_create_with_plist_def c n allow_rule_fields(1) [simplified] flag_if_def get_cf_bool_def get_cf_int_def allow_rule_def)
qed

lemma allow_rule_commit:
  "case rule_sql_commit (sample_senv Agent_Invalid :: unit senv) () (\<lambda>_. []) 2 allow_rule chain_db 0 (Some modifying_process) of
     (ok, d, r) \<Rightarrow> ok \<and> length (db_rules d) = 3"
  by code_simp

lemma right_set_run:
  "map_option (\<lambda>(st, reply, d). (st, length (db_rules (dm_db d))))
     (authorization_right_set 0 2 (sample_senv Agent_Invalid) modifying_daemon 0 set_message (XPC_Dict [])) =
   Some (errAuthorizationSuccess, 3)"
proof -
  let ?env = "sample_senv Agent_Invalid :: unit senv" and ?d = "daemon_crash (rule_fault allow_rule) modifying_daemon"
  have token: "process_find_copy_auth_token_from_xpc ?env modifying_daemon (conn_proc modifying_daemon 0) set_message = Inr 0"
    by code_simp
  have proc: "dm_procs ?d ! conn_proc ?d 0 = modifying_process" "pr_code_identifier modifying_process = None"
    "\<not> prompt_for_modifications modifying_process" "process_get_uid modifying_process \<noteq> 0"
    by code_simp+
  have cf: "se_cf_of_xpc ?env (XPC_Dict [(''class'', XPC_String ''allow'')]) = Some (CF_Dict [(''class'', CF_String ''allow'')])"
    "ee_utf8 ?env ''x''" "se_show_pid ?env = (\<lambda>p. [])" "env_double ?env = (\<lambda>r. 0)"
    by (simp_all add: sample_senv_def sample_eenv_def plain_env_def env.defs eenv.defs)
  obtain db' r where commit: "rule_sql_commit ?env () (\<lambda>_. []) 2 allow_rule chain_db 0 (Some modifying_process) = (True, db', r)"
    "length (db_rules db') = 3"
    using allow_rule_commit by (auto split: prod.splits)
  have "right_set_commit 2 ?env 0 allow_rule None ?d = (errAuthorizationSuccess, d') \<Longrightarrow> dm_db d' = db'" for d'
    using commit(1) proc(1) by (auto simp: right_set_commit_def Let_def cf modifying_daemon_db)
  moreover have "fst (right_set_commit 2 ?env 0 allow_rule None ?d) = errAuthorizationSuccess"
    using commit(1) proc(1) by (auto simp: right_set_commit_def Let_def cf modifying_daemon_db)
  moreover have "authorization_right_set 0 2 ?env modifying_daemon 0 set_message (XPC_Dict []) =
      Some (case right_set_commit 2 ?env 0 allow_rule None ?d of (st, d) \<Rightarrow> (st, XPC_Dict [], d))"
    using token cf(1,2) set_message_fields proc allow_rule_fields(2,3) allow_rule_created
    by (simp add: authorization_right_set_def modifying_daemon_db right_set_rule_def right_set_admit_def)
  ultimately show ?thesis
    using commit(2) by (auto split: prod.split)
qed

text \<open>The run adds the rule, the third of the database, and the process it ran for has the entitlement but is not root.\<close>

theorem right_set_protects_witness:
  "\<exists>status reply d'. authorization_right_set 0 2 (sample_senv Agent_Invalid) modifying_daemon 0 set_message (XPC_Dict []) =
      Some (status, reply, d') \<and> status = errAuthorizationSuccess \<and>
    length (db_rules (dm_db modifying_daemon)) = 2 \<and> length (db_rules (dm_db d')) = 3 \<and>
    process_get_uid modifying_process \<noteq> 0 \<and>
    process_find_copy_auth_token_from_xpc (sample_senv Agent_Invalid :: unit senv) modifying_daemon 0 set_message = Inr 0 \<and>
    \<not> rule_get_extract_password (rule_create_with_plist 2 RT_RIGHT ''x'' [(''class'', CF_String ''allow'')] chain_db) \<and>
    (entitled_true modifying_process ''com.apple.private.authorization.modify.all'' \<or>
     (\<exists>right d1 s. engine_authorize 0 2 (sample_senv Agent_Invalid) (Some (auth_rights_add auth_rights_create right)) None
        (kAuthorizationFlagInteractionAllowed OR kAuthorizationFlagExtendRights) (engine_create (sample_senv Agent_Invalid) d1 0 0) =
        Some (errAuthorizationSuccess, s)))"
proof -
  let ?env = "sample_senv Agent_Invalid :: unit senv"
  obtain reply d' where run: "authorization_right_set 0 2 ?env modifying_daemon 0 set_message (XPC_Dict []) =
      Some (errAuthorizationSuccess, reply, d')" "length (db_rules (dm_db d')) = 3"
    using right_set_run by (auto simp: map_option_eq_Some)
  have two: "length (db_rules (dm_db modifying_daemon)) = 2"
    by (simp add: modifying_daemon_db chain_db_def)
  then have changed: "dm_db d' \<noteq> dm_db modifying_daemon"
    using run(2) by auto
  have cf: "se_cf_of_xpc ?env (XPC_Dict [(''class'', XPC_String ''allow'')]) = Some (CF_Dict [(''class'', CF_String ''allow'')])"
    by (simp add: sample_senv_def sample_eenv_def plain_env_def env.defs eenv.defs)
  have proc: "conn_proc modifying_daemon 0 = 0" "dm_procs modifying_daemon ! 0 = modifying_process" "process_get_uid modifying_process \<noteq> 0"
    "process_find_copy_auth_token_from_xpc ?env modifying_daemon 0 set_message = Inr 0"
    by code_simp+
  show ?thesis
    using right_set_protects [OF run(1) changed] run two set_message_fields cf proc
    by (auto simp: Let_def modifying_daemon_db)
qed

section \<open>The database under requests\<close>

lemma rule_sql_remove_keys:
  assumes "db_keys d" "rule_sql_remove env w show_pid depth r d proc = (ok, d', r')"
  shows "db_keys d'"
  using assms delete_rule_row_keys by (auto simp: rule_sql_remove_def Let_def split: if_splits)

lemma right_set_commit_keys:
  assumes "right_set_commit depth env conn r t d = (st, d')" "db_keys (dm_db d)"
  shows "db_keys (dm_db d')"
  using assms by (auto simp: right_set_commit_def Let_def split: prod.splits intro: rule_sql_commit_keys)

lemma right_remove_rule_keys: "db_keys (dm_db d) \<Longrightarrow> db_keys (dm_db (right_remove_rule depth env conn r d))"
  by (auto simp: right_remove_rule_def split: prod.split intro: rule_sql_remove_keys)

lemma right_set_keys:
  assumes "authorization_right_set n depth env d conn message reply = Some (st, reply', d')" "db_keys (dm_db d)"
  shows "db_keys (dm_db d')"
proof -
  have rule: "db_keys (dm_db d')" if set: "right_set_rule n depth env d0 conn auth ar r = Some (st, d')" and same: "dm_db d0 = dm_db d" for d0 auth ar r
  proof -
    obtain f d1 where admit: "right_set_admit depth env d0 conn ar r = (f, d1)"
      by fastforce
    have d1: "db_keys (dm_db d1)"
      using right_set_admit_db [OF admit] same assms(2) by simp
    show ?thesis
    proof (cases "f = None \<or> process_get_uid (dm_procs d0 ! conn_proc d0 conn) \<noteq> 0 \<and> rule_get_extract_password r")
      case True
      then show ?thesis
        using set same admit d1 assms(2) by (auto simp: right_set_rule_def Let_def split: if_splits option.splits)
    next
      case False
      then obtain force where f: "f = Some force"
        by auto
      consider s where "engine_verify_modification n depth env r False force (engine_create env d1 conn auth) = Some (st, s)" "d' = ms_d s"
        | s where "engine_verify_modification n depth env r False force (engine_create env d1 conn auth) = Some (errAuthorizationSuccess, s)"
            "right_set_commit depth env conn r (Some (en_now (ms_en s))) (ms_d s) = (st, d')"
        | "right_set_commit depth env conn r None d1 = (st, d')"
        using set admit f False by (auto simp: right_set_rule_def Let_def bind_eq_Some_conv split: if_splits)
      then show ?thesis
      proof cases
        case 1
        then show ?thesis using db_verify_modification [OF 1(1)] d1 by simp
      next
        case 2
        then show ?thesis using db_verify_modification [OF 2(1)] d1 right_set_commit_keys [OF 2(2)] by simp
      next
        case 3
        then show ?thesis using right_set_commit_keys d1 by blast
      qed
    qed
  qed
  show ?thesis
    using assms rule
    by (auto simp: authorization_right_set_def Let_def split: sum.splits option.splits if_splits cf.splits)
qed

lemma right_remove_keys:
  assumes "authorization_right_remove n depth env d conn message reply = Some (st, reply', d')" "db_keys (dm_db d)"
  shows "db_keys (dm_db d')"
  using assms db_verify_modification
  by (fastforce simp: authorization_right_remove_def Let_def bind_eq_Some_conv right_remove_rule_keys
      split: sum.splits option.splits if_splits)

text \<open>The other requests.\<close>

lemma server_authorize_db: "server_authorize n depth env d conn auth flags rights environment = Some (st, s) \<Longrightarrow> dm_db (ms_d s) = dm_db d"
  unfolding server_authorize_def by (drule db_engine_authorize) simp

lemma authorization_create_db:
  "authorization_create n depth env d conn message reply = Some (st, reply', d') \<Longrightarrow> dm_db d' = dm_db d"
  by (auto simp: authorization_create_def Let_def split: prod.splits option.splits if_splits dest!: server_authorize_db db_new_token)

lemma authorization_copy_rights_db:
  "authorization_copy_rights n depth env d conn message reply = Some (st, reply', d') \<Longrightarrow> dm_db d' = dm_db d"
  by (auto simp: authorization_copy_rights_def Let_def split: prod.splits sum.splits if_splits dest!: server_authorize_db)

lemma other_requests_db:
  "authorization_create_with_audit_token env d conn message reply = (st, reply', d') \<Longrightarrow> dm_db d' = dm_db d"
  "authorization_free env d conn message reply = (st, reply', d') \<Longrightarrow> dm_db d' = dm_db d"
  "authorization_copy_right_properties depth env d conn message reply = (st, reply', d') \<Longrightarrow> dm_db d' = dm_db d"
  "authorization_copy_info env d conn message reply = (st, reply', d') \<Longrightarrow> dm_db d' = dm_db d"
  "authorization_make_external_form env d conn message reply = (st, reply', d') \<Longrightarrow> dm_db d' = dm_db d"
  "authorization_create_from_external_form env d conn message reply = (st, reply', d') \<Longrightarrow> dm_db d' = dm_db d"
  "authorization_right_get depth env d message reply = (st, reply', d') \<Longrightarrow> dm_db d' = dm_db d"
  "authorization_copy_prelogin_userdb env d message reply = (st, reply', d') \<Longrightarrow> dm_db d' = dm_db d"
  "authorization_copy_prelogin_pref_value env d message reply = (st, reply', d') \<Longrightarrow> dm_db d' = dm_db d"
  "authorization_prelogin_smartcardonly_override env d conn message reply = (st, reply', d') \<Longrightarrow> dm_db d' = dm_db d"
proof -
  have free: "dm_db (invalidate_credentials env d a) = dm_db d" "dm_db (purge_session env d k) = dm_db d" for d :: "'a daemon" and a k
    by (simp_all add: invalidate_credentials_def purge_session_def daemon_crash_def upd_session_def split: prod.split)
  show "authorization_create_with_audit_token env d conn message reply = (st, reply', d') \<Longrightarrow> dm_db d' = dm_db d"
    by (auto simp: authorization_create_with_audit_token_def Let_def split: if_splits option.splits prod.splits dest!: db_new_token)
  show "authorization_free env d conn message reply = (st, reply', d') \<Longrightarrow> dm_db d' = dm_db d"
    by (auto simp: authorization_free_def Let_def free split: sum.splits if_splits)
  show "authorization_copy_right_properties depth env d conn message reply = (st, reply', d') \<Longrightarrow> dm_db d' = dm_db d"
    by (auto simp: authorization_copy_right_properties_def Let_def split: option.splits prod.splits if_splits dest!: db_new_token)
  show "authorization_copy_info env d conn message reply = (st, reply', d') \<Longrightarrow> dm_db d' = dm_db d"
    by (auto simp: authorization_copy_info_def Let_def split: sum.splits prod.splits)
  show "authorization_make_external_form env d conn message reply = (st, reply', d') \<Longrightarrow> dm_db d' = dm_db d"
    by (auto simp: authorization_make_external_form_def Let_def split: sum.splits)
  show "authorization_create_from_external_form env d conn message reply = (st, reply', d') \<Longrightarrow> dm_db d' = dm_db d"
    by (auto simp: authorization_create_from_external_form_def split: option.splits if_splits)
  show "authorization_right_get depth env d message reply = (st, reply', d') \<Longrightarrow> dm_db d' = dm_db d"
    by (auto simp: authorization_right_get_def Let_def split: option.splits if_splits)
  show "authorization_copy_prelogin_userdb env d message reply = (st, reply', d') \<Longrightarrow> dm_db d' = dm_db d"
    by (auto simp: authorization_copy_prelogin_userdb_def split: prod.splits)
  show "authorization_copy_prelogin_pref_value env d message reply = (st, reply', d') \<Longrightarrow> dm_db d' = dm_db d"
    by (auto simp: authorization_copy_prelogin_pref_value_def Let_def split: prod.splits)
  show "authorization_prelogin_smartcardonly_override env d conn message reply = (st, reply', d') \<Longrightarrow> dm_db d' = dm_db d"
    by (auto simp: authorization_prelogin_smartcardonly_override_def Let_def split: prod.splits if_splits)
qed

text \<open>C10. Whatever a client sends, the foreign keys of the database hold after the request, and only the requests to
  set and to remove a right change it.\<close>

theorem requests_keep_keys:
  assumes "security_auth_peer_event_handler n depth env d conn event = Some (reply, d')" "db_keys (dm_db d)"
  shows "db_keys (dm_db d') \<and> (xpc_dictionary_get_uint64 event AUTH_XPC_TYPE \<notin> {8, 9} \<longrightarrow> dm_db d' = dm_db d)"
proof -
  obtain st reply0 where run: "handle_request n depth env d conn event (XPC_Dict []) = Some (st, reply0, d')"
    using assms(1) by (auto simp: security_auth_peer_event_handler_def)
  let ?t = "xpc_dictionary_get_uint64 event AUTH_XPC_TYPE"
  consider "?t = 8" | "?t = 9" | "?t \<notin> {8, 9}"
    by blast
  then show ?thesis
  proof cases
    case 1
    then show ?thesis
      using run right_set_keys assms(2) by (simp add: handle_request_def)
  next
    case 2
    then show ?thesis
      using run right_remove_keys assms(2) by (simp add: handle_request_def)
  next
    case 3
    then have "dm_db d' = dm_db d"
      using run by (auto simp: handle_request_def Let_def session_set_user_preferences_def split: if_splits
          dest: authorization_create_db authorization_copy_rights_db other_requests_db)
    then show ?thesis
      using assms(2) by simp
  qed
qed

theorem requests_keep_keys_witness:
  "\<exists>reply d. security_auth_peer_event_handler 0 2 (sample_senv Agent_Invalid) modifying_daemon 0 set_message = Some (reply, d) \<and>
    db_keys (dm_db d)"
proof -
  obtain st reply d where run: "authorization_right_set 0 2 (sample_senv Agent_Invalid) modifying_daemon 0 set_message (XPC_Dict []) =
      Some (st, reply, d)"
    using right_set_run by (auto simp: map_option_eq_Some)
  have "security_auth_peer_event_handler 0 2 (sample_senv Agent_Invalid) modifying_daemon 0 set_message =
      Some (xpc_dictionary_set reply AUTH_XPC_STATUS (XPC_Int64 (scast (os_code st))), d)"
    by (simp add: security_auth_peer_event_handler_def handle_request_def set_message_fields run)
  moreover have "db_keys (dm_db modifying_daemon)"
    unfolding modifying_daemon_db by (simp add: db_keys_def chain_db_def db_initial_def sample_rule_row)
  ultimately show ?thesis
    using requests_keep_keys by blast
qed

end
