(* ===== verification/Authdb.thy ===== *)
theory Authdb
  imports Rule_Commit
begin

text \<open>
  The life of the database file in \<^verbatim>\<open>src/OSX/authd/authdb.c\<close>: the import of a property list of rights and
  rules, the upgrade of the schema, and the maintenance that runs when the daemon starts, with its
  checks for a damaged database and their remedy, which is to begin with an empty file.

  The file is the set of its tables and their contents.  Whether SQLite finds it corrupt, the property list of
  the system and its time of modification are parameters; a handle for the file can always be opened, and
  statements are neither busy nor fail in a way that the schema does not say.  A dictionary is enumerated in
  the order of its list.
\<close>

unbundle bit_operations_syntax

section \<open>Import\<close>

text \<open>\<^verbatim>\<open>_copy_rules_dict\<close>: the entries that are dictionaries.\<close>

definition copy_rules_dict :: "nat \<Rightarrow> 32 word \<Rightarrow> (string \<times> cf) list \<Rightarrow> db \<Rightarrow> rule list" where
  "copy_rules_dict depth type plist dbconn =
     map (\<lambda>(key, d). rule_create_with_plist depth type key d dbconn)
       (concat (map (\<lambda>(key, v). case v of CF_Dict d \<Rightarrow> [(key, d)] | _ \<Rightarrow> []) plist))"

text \<open>Whether an existing rule is left alone: its version is not below the new one.\<close>

definition import_up_to_date :: "nat \<Rightarrow> rule \<Rightarrow> db \<Rightarrow> bool" where
  "import_up_to_date depth r dbconn \<longleftrightarrow>
     rule_get_id r \<noteq> 0 \<and>
     (case rule_create_with_string depth (rule_get_name r) (Some dbconn) of
        None \<Rightarrow> False
      | Some current \<Rightarrow> \<not> rule_get_version current <s rule_get_version r)"

text \<open>\<^verbatim>\<open>_import_rules\<close>: the rules that were not committed, as a failed commit or the search for their delegates left
  them.  The search is the one of \<^const>\<open>validate_delegates\<close>.\<close>

fun import_rules ::
  "('w, 'z) env_scheme \<Rightarrow> 'w \<Rightarrow> (32 word \<Rightarrow> string) \<Rightarrow> nat \<Rightarrow> bool \<Rightarrow> 64 word \<Rightarrow> string option \<Rightarrow> rule list \<Rightarrow> db \<Rightarrow> rule list \<times> db" where
  "import_rules env w show_pid depth version_check now nameFilter [] dbconn = ([], dbconn)"
| "import_rules env w show_pid depth version_check now nameFilter (r # rs) dbconn =
     (if nameFilter \<noteq> None \<and> nameFilter \<noteq> rule_get_name r \<or> version_check \<and> import_up_to_date depth r dbconn
      then import_rules env w show_pid depth version_check now nameFilter rs dbconn
      else
        let (ready, r) =
              (if rule_get_type r = RT_RULE then
                 (case validate_delegates depth (ru_delegations r) dbconn of (ok, ds) \<Rightarrow> (ok, rule_set_delegations ds r))
               else (True, r))
        in if ready then
             (case rule_sql_commit env w show_pid depth r dbconn now None of
                (success, dbconn, r) \<Rightarrow>
                  (case import_rules env w show_pid depth version_check now nameFilter rs dbconn of
                     (notcommitted, dbconn) \<Rightarrow> (if success then notcommitted else r # notcommitted, dbconn)))
           else
             (case import_rules env w show_pid depth version_check now nameFilter rs dbconn of
                (notcommitted, dbconn) \<Rightarrow> (r # notcommitted, dbconn)))"

text \<open>The passes over the rules, until none is left or they have been tried three times.\<close>

fun import_passes ::
  "nat \<Rightarrow> ('w, 'z) env_scheme \<Rightarrow> 'w \<Rightarrow> (32 word \<Rightarrow> string) \<Rightarrow> nat \<Rightarrow> bool \<Rightarrow> 64 word \<Rightarrow> string option \<Rightarrow> rule list \<Rightarrow> db \<Rightarrow>
    rule list \<times> db" where
  "import_passes 0 env w show_pid depth version_check now nameFilter rules dbconn = (rules, dbconn)"
| "import_passes (Suc k) env w show_pid depth version_check now nameFilter rules dbconn =
     (if rules = [] then ([], dbconn)
      else (case import_rules env w show_pid depth version_check now nameFilter rules dbconn of
              (rules, dbconn) \<Rightarrow> import_passes k env w show_pid depth version_check now nameFilter rules dbconn))"

text \<open>\<^verbatim>\<open>authdb_import_plist\<close>.  The last component is a fault: a list without a dictionary of rights or of rules leaves
  an array NULL that is then used.\<close>

definition authdb_import_plist ::
  "('w, 'z) env_scheme \<Rightarrow> 'w \<Rightarrow> (32 word \<Rightarrow> string) \<Rightarrow> nat \<Rightarrow> cf option \<Rightarrow> bool \<Rightarrow> string option \<Rightarrow> db \<Rightarrow> bool \<times> db \<times> bool" where
  "authdb_import_plist env w show_pid depth plist version_check name dbconn =
     (case plist of
        None \<Rightarrow> (False, dbconn, False)
      | Some (CF_Dict d) \<Rightarrow>
          (case (map_of d ''rights'', map_of d ''rules'') of
             (Some (CF_Dict rightsDict), Some (CF_Dict rulesDict)) \<Rightarrow>
               let now = env_double env (env_now env w);
                   rights = copy_rules_dict depth RT_RIGHT rightsDict dbconn;
                   rules = copy_rules_dict depth RT_RULE rulesDict dbconn;
                   dbconn = snd (import_passes 3 env w show_pid depth version_check now name rules dbconn);
                   (left, dbconn) = import_rules env w show_pid depth version_check now name rights dbconn
               in (left = [], dbconn, list_ex rule_fault (rights @ rules))
           | _ \<Rightarrow> (False, dbconn, True))
      | Some _ \<Rightarrow> (False, dbconn, True))"

section \<open>The schema\<close>

record dbfile =
  df_tables :: "string list"
  df_db :: db

definition db_none :: db where
  "db_none = db_initial\<lparr> db_config := [] \<rparr>"

definition dbfile_empty :: dbfile where
  "dbfile_empty = \<lparr> df_tables = [], df_db = db_none \<rparr>"

datatype sql_statement = Create_Table string | Drop_Table string | Insert_Config string sqlval

text \<open>Removing the table of rules removes what refers to them.\<close>

definition clear_table :: "string \<Rightarrow> db \<Rightarrow> db" where
  "clear_table t d =
     (if t = ''rules'' then d\<lparr> db_rules := [], db_rules_seq := 0, db_mechanisms_map := [], db_delegates_map := [],
        db_prompts := [], db_buttons := [] \<rparr>
      else if t = ''mechanisms'' then d\<lparr> db_mechanisms := [], db_mechanisms_seq := 0, db_mechanisms_map := [] \<rparr>
      else if t = ''mechanisms_map'' then d\<lparr> db_mechanisms_map := [] \<rparr>
      else if t = ''delegates_map'' then d\<lparr> db_delegates_map := [] \<rparr>
      else if t = ''prompts'' then d\<lparr> db_prompts := [] \<rparr>
      else if t = ''buttons'' then d\<lparr> db_buttons := [] \<rparr>
      else if t = ''config'' then d\<lparr> db_config := [] \<rparr>
      else if t = ''rules_history'' then d\<lparr> db_history := [] \<rparr> else d)"

definition sql_statement_run :: "sql_statement \<Rightarrow> dbfile \<Rightarrow> bool \<times> dbfile" where
  "sql_statement_run st f =
     (case st of
        Create_Table t \<Rightarrow> if t \<in> set (df_tables f) then (False, f) else (True, f\<lparr> df_tables := df_tables f @ [t] \<rparr>)
      | Drop_Table t \<Rightarrow>
          if t \<in> set (df_tables f) then (True, f\<lparr> df_tables := filter (\<lambda>u. u \<noteq> t) (df_tables f), df_db := clear_table t (df_db f) \<rparr>)
          else (False, f)
      | Insert_Config k v \<Rightarrow>
          if ''config'' \<in> set (df_tables f) \<and> map_of (db_config (df_db f)) k = None
          then (True, f\<lparr> df_db := (df_db f)\<lparr> db_config := db_config (df_db f) @ [(k, v)] \<rparr> \<rparr>)
          else (False, f))"

text \<open>\<^verbatim>\<open>_sqlite3_exec\<close> runs the statements until one fails.\<close>

fun sqlite3_exec :: "sql_statement list \<Rightarrow> dbfile \<Rightarrow> bool \<times> dbfile" where
  "sqlite3_exec [] f = (True, f)"
| "sqlite3_exec (st # sts) f = (case sql_statement_run st f of (ok, f) \<Rightarrow> if ok then sqlite3_exec sts f else (False, f))"

definition authdb_upgrade_sql :: "sql_statement list list" where
  "authdb_upgrade_sql =
     [[Create_Table ''delegates_map'', Create_Table ''mechanisms'', Create_Table ''mechanisms_map'', Create_Table ''rules'',
       Create_Table ''config'', Create_Table ''prompts'', Create_Table ''buttons'', Insert_Config ''version'' (SQL_Text ''1'')],
      [Create_Table ''rules_history'']]"

definition db_run_script :: "int \<Rightarrow> dbfile \<Rightarrow> bool \<times> dbfile" where
  "db_run_script number f =
     (if number < 0 then (True, f)
      else if nat number \<ge> length authdb_upgrade_sql then (False, f)
      else sqlite3_exec (authdb_upgrade_sql ! nat number) f)"

text \<open>The stages of an upgrade: before, the script itself, after.\<close>

definition auth_upgrade_script :: "(int \<times> int \<times> int) list" where
  "auth_upgrade_script = [(- 1, 0, - 1), (- 1, 1, - 1)]"

definition db_upgrade_from_version :: "32 word \<Rightarrow> dbfile \<Rightarrow> bool \<times> dbfile" where
  "db_upgrade_from_version version f =
     (if version <s 0 \<or> length auth_upgrade_script \<le> unat version then (False, f)
      else
        (case auth_upgrade_script ! unat version of
           (pre, main, post) \<Rightarrow>
             let (ok, f) = db_run_script pre f;
                 (ok, f) = (if ok then db_run_script main f else (ok, f))
             in if ok then db_run_script post f else (ok, f)))"

abbreviation AUTHDB_VERSION :: "64 word" where "AUTHDB_VERSION \<equiv> 2"

definition get_config :: "dbfile \<Rightarrow> pdict option" where
  "get_config f = (if ''config'' \<in> set (df_tables f) then Some (authdb_get_key_value (df_db f)) else None)"

text \<open>\<^verbatim>\<open>_db_maintenance\<close>; its transaction is always committed.\<close>

definition db_maintenance :: "('w, 'z) env_scheme \<Rightarrow> dbfile \<Rightarrow> bool \<times> dbfile" where
  "db_maintenance env f =
     (let (ok, f) = (if get_config f = None then db_upgrade_from_version 0 f else (True, f))
      in case get_config f of
           None \<Rightarrow> (False, f)
         | Some config \<Rightarrow>
             if \<not> ok then (False, f)
             else
               let currentVersion = pd_int64 config ''version''
               in if currentVersion <s AUTHDB_VERSION then
                    (case db_upgrade_from_version (ucast currentVersion) f of
                       (ok, f) \<Rightarrow>
                         if ok then
                           (True, f\<lparr> df_db := authdb_set_key_value (env_atof env) (df_db f)
                              (pd_set_int64 config ''version'' AUTHDB_VERSION) \<rparr>)
                         else (False, f))
                  else (True, f))"

section \<open>Maintenance\<close>

record 'w menv = "'w env" +
  me_corrupt :: "'w \<Rightarrow> dbfile \<Rightarrow> bool"
  me_plist :: "'w \<Rightarrow> (64 word \<times> cf option) option"
  me_show_pid :: "32 word \<Rightarrow> string"

text \<open>\<^verbatim>\<open>_copy_plist\<close>: the list, when its time is not the one of the last import, and the time.\<close>

definition copy_plist :: "('w, 'z) menv_scheme \<Rightarrow> 'w \<Rightarrow> pdict option \<Rightarrow> cf option \<times> 64 word" where
  "copy_plist env w config =
     (case me_plist env w of
        None \<Rightarrow> (None, 0)
      | Some (ts, content) \<Rightarrow>
          (case config of
             None \<Rightarrow> (content, ts)
           | Some c \<Rightarrow> (if env_real env ts \<noteq> env_real env (pd_double (env_atof env) c ''data_ts'') then content else None, ts)))"

definition db_load_data :: "('w, 'z) menv_scheme \<Rightarrow> 'w \<Rightarrow> nat \<Rightarrow> pdict \<Rightarrow> dbfile \<Rightarrow> dbfile \<times> bool" where
  "db_load_data env w depth config f =
     (case copy_plist env w (Some config) of
        (None, ts) \<Rightarrow> (f, False)
      | (Some plist, ts) \<Rightarrow>
          (case authdb_import_plist env w (me_show_pid env) depth (Some plist) True None (df_db f) of
             (ok, d, fault) \<Rightarrow>
               (f\<lparr> df_db := (if ok then authdb_set_key_value (env_atof env) d (pd_set_double pd_empty ''data_ts'' ts) else d) \<rparr>,
                fault)))"

definition no_delegates :: "db \<Rightarrow> row \<Rightarrow> bool" where
  "no_delegates d r \<longleftrightarrow> \<not> list_ex (\<lambda>(r_id, _). r_id = row_id r) (db_delegates_map d)"

definition kofn_broken :: "db \<Rightarrow> row \<Rightarrow> bool" where
  "kofn_broken d r \<longleftrightarrow> (case row_get r ''kofn'' of SQL_Int k \<Rightarrow> 0 <s k | _ \<Rightarrow> False) \<and> no_delegates d r"

definition class_broken :: "db \<Rightarrow> row \<Rightarrow> bool" where
  "class_broken d r \<longleftrightarrow> row_get r ''class'' = SQL_Int 2 \<and> no_delegates d r"

text \<open>\<^verbatim>\<open>_repair_broken_kofn_right\<close> on the name of a row, and the rows that it is called for: those that count delegates
  and have none when the repair starts.  The code imports while its selection is still open; that a rollback of an import
  that fails may end the selection early is not modelled.\<close>

definition repair_broken_kofn_right :: "('w, 'z) menv_scheme \<Rightarrow> 'w \<Rightarrow> nat \<Rightarrow> cf \<Rightarrow> row \<Rightarrow> db \<times> bool \<Rightarrow> db \<times> bool" where
  "repair_broken_kofn_right env w depth plist r x =
     (case row_get r ''name'' of
        SQL_Text name \<Rightarrow>
          (case authdb_import_plist env w (me_show_pid env) depth (Some plist) False (Some name) (fst x) of
             (_, d, b) \<Rightarrow> (d, snd x \<or> b))
      | _ \<Rightarrow> x)"

definition repair_kofns :: "('w, 'z) menv_scheme \<Rightarrow> 'w \<Rightarrow> nat \<Rightarrow> cf \<Rightarrow> db \<Rightarrow> db \<times> bool" where
  "repair_kofns env w depth plist d =
     fold (repair_broken_kofn_right env w depth plist) (filter (kofn_broken d) (db_rules d)) (d, False)"

text \<open>\<^verbatim>\<open>authdb_maintenance\<close> with \<^verbatim>\<open>_repair_all_kofns\<close>, which calls it again on an emptied file when a rule of class rule
  has no delegates.  The file after \<^verbatim>\<open>_handle_corrupt_db\<close> is empty.\<close>

primrec authdb_maintenance :: "nat \<Rightarrow> ('w, 'z) menv_scheme \<Rightarrow> 'w \<Rightarrow> nat \<Rightarrow> dbfile \<Rightarrow> (bool \<times> dbfile \<times> bool) option" where
  "authdb_maintenance 0 env w depth f = None"
| "authdb_maintenance (Suc n) env w depth f =
     (let f = (if me_corrupt env w f then dbfile_empty else f);
          f = snd (db_maintenance env f)
      in case get_config f of
           None \<Rightarrow> Some (False, f, False)
         | Some config \<Rightarrow>
             (case db_load_data env w depth config f of
                (f, fault) \<Rightarrow>
                  (case fst (copy_plist env w None) of
                     None \<Rightarrow> Some (True, f, fault)
                   | Some plist \<Rightarrow>
                       (case repair_kofns env w depth plist (df_db f) of
                          (d, b) \<Rightarrow>
                            if list_ex (class_broken d) (db_rules d)
                            then map_option (\<lambda>(_, f, b'). (True, f, fault \<or> b \<or> b')) (authdb_maintenance n env w depth dbfile_empty)
                            else Some (True, f\<lparr> df_db := d \<rparr>, fault \<or> b)))))"

text \<open>\<^verbatim>\<open>_check_for_db_update\<close>: a right that must be there is missing, or is of an old class.\<close>

definition mandatory_rights :: "string list" where
  "mandatory_rights = [''com.apple.installassistant.requestpassword'', ''com.apple.system-migration.launch-password'',
     ''com.apple.trust-settings.admin'']"

definition check_for_db_update :: "nat \<Rightarrow> db \<Rightarrow> bool" where
  "check_for_db_update depth d =
     list_ex (\<lambda>name.
       case rule_create_with_string depth (Some name) (Some d) of
         None \<Rightarrow> True
       | Some right \<Rightarrow>
           (case rule_sql_fetch depth right d of
              (found, right) \<Rightarrow> \<not> found \<or> name = ''com.apple.trust-settings.admin'' \<and> rule_get_class right \<noteq> RC_RULE))
     mandatory_rights"

definition authdb_check_for_mandatory_rights ::
  "nat \<Rightarrow> ('w, 'z) menv_scheme \<Rightarrow> 'w \<Rightarrow> nat \<Rightarrow> dbfile \<Rightarrow> (dbfile \<times> bool) option" where
  "authdb_check_for_mandatory_rights n env w depth f =
     (if check_for_db_update depth (df_db f)
      then map_option (\<lambda>(_, f, fault). (f, fault)) (authdb_maintenance n env w depth dbfile_empty) else Some (f, False))"

text \<open>\<^verbatim>\<open>authdb_reset\<close> drops the tables of the first version.\<close>

definition reset_statements :: "sql_statement list" where
  "reset_statements = [Drop_Table ''buttons'', Drop_Table ''delegates_map'', Drop_Table ''mechanisms_map'', Drop_Table ''rules'',
     Drop_Table ''config'', Drop_Table ''mechanisms'', Drop_Table ''prompts'']"

definition authdb_reset :: "nat \<Rightarrow> ('w, 'z) menv_scheme \<Rightarrow> 'w \<Rightarrow> nat \<Rightarrow> dbfile \<Rightarrow> (bool \<times> dbfile \<times> bool) option" where
  "authdb_reset n env w depth f =
     (case sqlite3_exec reset_statements f of
        (ok, f) \<Rightarrow> map_option (\<lambda>(_, f, fault). (ok, f, fault)) (authdb_maintenance n env w depth f))"

text \<open>The database when the daemon starts (\<^verbatim>\<open>server_init\<close>).\<close>

definition server_init_database :: "nat \<Rightarrow> ('w, 'z) menv_scheme \<Rightarrow> 'w \<Rightarrow> nat \<Rightarrow> dbfile \<Rightarrow> (dbfile \<times> bool) option" where
  "server_init_database n env w depth f =
     Option.bind (authdb_maintenance n env w depth f)
       (\<lambda>(_, f, fault). map_option (\<lambda>(f, b). (f, fault \<or> b)) (authdb_check_for_mandatory_rights n env w depth f))"

end
