(* ===== verification/Authdb_Laws.thy ===== *)
theory Authdb_Laws
  imports Authdb
begin

text \<open>
  What maintenance makes of the database: its keys hold, its rules of class rule have delegates, and what a
  reset or a rule without delegates does to the file.
\<close>

section \<open>Imports and maintenance keep the keys\<close>

lemma import_rules_keys:
  "db_keys d \<Longrightarrow> db_keys (snd (import_rules env w show_pid depth version_check now name rs d))"
proof (induction rs arbitrary: d)
  case (Cons r rs)
  have "db_keys (fst (snd (rule_sql_commit env w show_pid depth r' d now None)))" for r'
    using rule_sql_commit_keys [OF Cons.prems] by (metis prod.collapse)
  then show ?case
    using Cons by (auto simp: Let_def split: prod.split) (metis fst_conv snd_conv)+
qed simp

lemma import_passes_keys:
  "db_keys d \<Longrightarrow> db_keys (snd (import_passes k env w show_pid depth version_check now name rs d))"
proof (induction k arbitrary: rs d)
  case (Suc k)
  obtain rs' d' where rest: "import_rules env w show_pid depth version_check now name rs d = (rs', d')"
    by (cases "import_rules env w show_pid depth version_check now name rs d")
  then have "db_keys d'"
    using import_rules_keys [OF Suc.prems, of env w show_pid depth version_check now name rs] by simp
  then show ?case
    using Suc by (simp add: rest)
qed simp

lemma authdb_import_plist_keys:
  assumes "db_keys d"
  shows "db_keys (fst (snd (authdb_import_plist env w show_pid depth plist version_check name d)))"
  unfolding authdb_import_plist_def Let_def
  using assms by (auto simp: import_rules_keys import_passes_keys split: option.split cf.split prod.split)
     (metis import_rules_keys import_passes_keys snd_conv)+

section \<open>The schema\<close>

lemma db_keys_config [simp]: "db_keys (d\<lparr> db_config := c \<rparr>) \<longleftrightarrow> db_keys d"
  by (simp add: db_keys_def)

lemma db_keys_none [simp]: "db_keys db_none"
  by (simp add: db_keys_def db_none_def db_initial_def)

lemma create_keys:
  assumes "sqlite3_exec sts f = (ok, f')" "list_all (\<lambda>st. case st of Drop_Table t \<Rightarrow> False | _ \<Rightarrow> True) sts"
  shows "db_keys (df_db f') = db_keys (df_db f)"
  using assms
proof (induction sts arbitrary: f)
  case (Cons st sts)
  then show ?case
    by (fastforce simp: sql_statement_run_def split: sql_statement.splits if_splits)
qed simp

lemma db_run_script_keys: "db_run_script i f = (ok, f') \<Longrightarrow> db_keys (df_db f') = db_keys (df_db f)"
  using create_keys [of "authdb_upgrade_sql ! nat i" f ok f']
  by (auto simp: db_run_script_def authdb_upgrade_sql_def less_Suc_eq nth_Cons split: if_splits nat.splits)

lemma db_upgrade_keys: "db_upgrade_from_version v f = (ok, f') \<Longrightarrow> db_keys (df_db f') = db_keys (df_db f)"
  by (auto simp: db_upgrade_from_version_def Let_def dest!: db_run_script_keys split: if_splits prod.splits)

lemma db_maintenance_keys: "db_keys (df_db (snd (db_maintenance env f))) = db_keys (df_db f)"
  by (auto simp: db_maintenance_def Let_def authdb_set_key_value_def dest!: db_upgrade_keys
      split: if_splits prod.splits option.splits)

lemma db_load_data_keys:
  assumes "db_keys (df_db f)"
  shows "db_keys (df_db (fst (db_load_data env w depth config f)))"
proof (cases "copy_plist env w (Some config)")
  case (Pair content ts)
  show ?thesis
  proof (cases content)
    case (Some plist)
    obtain ok d fault where import: "authdb_import_plist env w (me_show_pid env) depth (Some plist) True None (df_db f) = (ok, d, fault)"
      by (cases "authdb_import_plist env w (me_show_pid env) depth (Some plist) True None (df_db f)")
    have "db_keys d"
      using authdb_import_plist_keys [OF assms, of env w "me_show_pid env" depth "Some plist" True None] by (simp add: import)
    then show ?thesis
      by (simp add: db_load_data_def Pair Some import authdb_set_key_value_def)
  qed (use assms in \<open>simp add: db_load_data_def Pair\<close>)
qed

lemma repair_broken_kofn_right_keys:
  assumes "db_keys (fst x)"
  shows "db_keys (fst (repair_broken_kofn_right env w depth plist r x))"
proof (cases "row_get r ''name''")
  case (SQL_Text name)
  obtain ok d b where import:
    "authdb_import_plist env w (me_show_pid env) depth (Some plist) False (Some name) (fst x) = (ok, d, b)"
    by (cases "authdb_import_plist env w (me_show_pid env) depth (Some plist) False (Some name) (fst x)")
  show ?thesis
    using authdb_import_plist_keys [OF assms, of env w "me_show_pid env" depth "Some plist" False "Some name"]
    by (simp add: repair_broken_kofn_right_def SQL_Text import)
qed (use assms in \<open>simp_all add: repair_broken_kofn_right_def\<close>)

lemma repair_kofns_keys: "db_keys d \<Longrightarrow> db_keys (fst (repair_kofns env w depth plist d))"
proof -
  have "db_keys (fst x) \<Longrightarrow> db_keys (fst (fold (repair_broken_kofn_right env w depth plist) rs x))" for rs x
    by (induction rs arbitrary: x) (simp_all add: repair_broken_kofn_right_keys)
  then show "db_keys d \<Longrightarrow> ?thesis"
    by (simp add: repair_kofns_def)
qed

section \<open>What maintenance leaves\<close>

definition schema_tables :: "string list" where
  "schema_tables = [''delegates_map'', ''mechanisms'', ''mechanisms_map'', ''rules'', ''config'', ''prompts'', ''buttons'',
     ''rules_history'']"

definition version_of :: "dbfile \<Rightarrow> 64 word" where
  "version_of f = pd_int64 (authdb_get_key_value (df_db f)) ''version''"

lemma version_initial: "pd_int64 (fold (\<lambda>(k, v) items. parseItemsAtIndex items k v) [(''version'', SQL_Text ''1'')] pd_empty) ''version'' = 1"
  by code_simp

lemma version_updated:
  "fold (\<lambda>(k, v) items. parseItemsAtIndex items k v) [(''version'', SQL_Int 2)] pd_empty = pd_set_int64 pd_empty ''version'' 2"
  by simp

lemma exec_snoc: "sqlite3_exec (sts @ sts') f = (case sqlite3_exec sts f of (ok, g) \<Rightarrow> if ok then sqlite3_exec sts' g else (False, g))"
  by (induction sts arbitrary: f) (auto split: prod.split)

lemma create_tables:
  "set ts \<inter> set (df_tables f) = {} \<Longrightarrow> distinct ts \<Longrightarrow>
    sqlite3_exec (map Create_Table ts) f = (True, f\<lparr> df_tables := df_tables f @ ts \<rparr>)"
  by (induction ts arbitrary: f) (auto simp: sql_statement_run_def)

text \<open>The first script on a file that has none of its tables.\<close>

lemma first_script:
  assumes "set (df_tables f) \<inter> set (butlast schema_tables) = {}" "db_config (df_db f) = []"
  shows "db_upgrade_from_version 0 f = (True, \<lparr> df_tables = df_tables f @ butlast schema_tables,
     df_db = (df_db f)\<lparr> db_config := [(''version'', SQL_Text ''1'')] \<rparr> \<rparr>)"
proof -
  have script: "authdb_upgrade_sql ! 0 = map Create_Table (butlast schema_tables) @ [Insert_Config ''version'' (SQL_Text ''1'')]"
    by (simp add: authdb_upgrade_sql_def schema_tables_def)
  have config: "''config'' \<in> set (butlast schema_tables)"
    by (simp add: schema_tables_def)
  have "sqlite3_exec (map Create_Table (butlast schema_tables)) f = (True, f\<lparr> df_tables := df_tables f @ butlast schema_tables \<rparr>)"
    using assms(1) by (intro create_tables) (auto simp: schema_tables_def)
  then have "sqlite3_exec (authdb_upgrade_sql ! 0) f = (True, \<lparr> df_tables = df_tables f @ butlast schema_tables,
     df_db = (df_db f)\<lparr> db_config := [(''version'', SQL_Text ''1'')] \<rparr> \<rparr>)"
    using assms(2) config unfolding script exec_snoc by (simp add: sql_statement_run_def)
  moreover have "length authdb_upgrade_sql = 2" "length auth_upgrade_script = 2" "auth_upgrade_script ! 0 = (- 1, 0, - 1)"
    by (simp_all add: authdb_upgrade_sql_def auth_upgrade_script_def)
  ultimately show ?thesis
    by (simp add: db_upgrade_from_version_def db_run_script_def)
qed

lemma second_script:
  "db_upgrade_from_version 1 f = (if ''rules_history'' \<in> set (df_tables f) then (False, f)
     else (True, f\<lparr> df_tables := df_tables f @ [''rules_history''] \<rparr>))"
proof -
  have "length authdb_upgrade_sql = 2" "length auth_upgrade_script = 2" "auth_upgrade_script ! 1 = (- 1, 1, - 1)"
    "authdb_upgrade_sql ! 1 = [Create_Table ''rules_history'']" "\<not> (1 :: 32 word) <s 0"
    by (simp_all add: word_sless_alt authdb_upgrade_sql_def auth_upgrade_script_def)
  then show ?thesis
    by (simp add: db_upgrade_from_version_def db_run_script_def sql_statement_run_def)
qed

lemma version_initial_db [simp]:
  "db_config d = [(''version'', SQL_Text ''1'')] \<Longrightarrow> pd_int64 (authdb_get_key_value d) ''version'' = 1"
  using version_initial by (simp only: authdb_get_key_value_def)

lemma version_words: "(1 :: 64 word) <s 2" "ucast (1 :: 64 word) = (1 :: 32 word)"
  by (simp_all add: word_sless_alt)

text \<open>Maintenance of a file without the tables of the first script.\<close>

lemma db_maintenance_bare:
  assumes "set (df_tables f) \<inter> set (butlast schema_tables) = {}" "db_config (df_db f) = []"
  shows "db_maintenance env f =
    (let g = \<lparr> df_tables = df_tables f @ butlast schema_tables,
       df_db = (df_db f)\<lparr> db_config := [(''version'', SQL_Text ''1'')] \<rparr> \<rparr>
     in if ''rules_history'' \<in> set (df_tables f) then (False, g)
        else (True, \<lparr> df_tables = df_tables g @ [''rules_history''],
          df_db = authdb_set_key_value (env_atof env) (df_db g)
            (pd_set_int64 (authdb_get_key_value (df_db g)) ''version'' 2) \<rparr>))"
proof -
  have config: "''config'' \<in> set (butlast schema_tables)" "''rules_history'' \<notin> set (butlast schema_tables)"
    by (simp_all add: schema_tables_def)
  then have "''config'' \<notin> set (df_tables f)"
    using assms(1) by auto
  then show ?thesis
    using config by (auto simp: db_maintenance_def get_config_def first_script [OF assms] second_script version_words Let_def)
qed

text \<open>The statements of a reset on a file of the present schema.\<close>

lemma reset_tables:
  assumes "set (df_tables f) = set schema_tables"
  shows "sqlite3_exec reset_statements f = (True, \<lparr> df_tables = filter (\<lambda>t. t = ''rules_history'') (df_tables f),
    df_db = db_none\<lparr> db_history := db_history (df_db f) \<rparr> \<rparr>)"
proof -
  have drop: "sqlite3_exec (map Drop_Table ts) f = (True, f\<lparr> df_tables := filter (\<lambda>t. t \<notin> set ts) (df_tables f),
      df_db := fold clear_table ts (df_db f) \<rparr>)" if "set ts \<subseteq> set (df_tables f)" "distinct ts" for ts f
    using that
  proof (induction ts arbitrary: f)
    case (Cons t ts)
    have "set ts \<subseteq> set (filter (\<lambda>u. u \<noteq> t) (df_tables f))"
      using Cons.prems by auto
    then show ?case
      using Cons by (simp add: sql_statement_run_def conj_commute)
  qed simp
  define ts where "ts = [''buttons'', ''delegates_map'', ''mechanisms_map'', ''rules'', ''config'', ''mechanisms'', ''prompts'']"
  have "reset_statements = map Drop_Table ts" "distinct ts" "set ts \<subseteq> set (df_tables f)"
    using assms by (simp_all add: reset_statements_def ts_def schema_tables_def)
  moreover have "filter (\<lambda>t. t \<notin> set ts) (df_tables f) = filter (\<lambda>t. t = ''rules_history'') (df_tables f)"
    using assms by (intro filter_cong) (auto simp: ts_def schema_tables_def)
  moreover have "fold clear_table ts (df_db f) = db_none\<lparr> db_history := db_history (df_db f) \<rparr>"
    by (simp add: ts_def clear_table_def db_none_def db_initial_def)
  ultimately show ?thesis
    using drop [of ts f] by (cases f) simp
qed

text \<open>C14. A reset leaves the table of the history, so that the script of the second version fails: the tables are
  there again, but the file says version 1, and every later maintenance fails in the same way and changes nothing.
  Maintenance of an empty file succeeds.\<close>

theorem authdb_reset_version:
  assumes "set (df_tables f) = set schema_tables"
  shows "case sqlite3_exec reset_statements f of (ok, g) \<Rightarrow>
     (case db_maintenance env g of (success, g) \<Rightarrow>
        ok \<and> \<not> success \<and> set (df_tables g) = set schema_tables \<and> version_of g = 1 \<and> db_rules (df_db g) = [] \<and>
        db_maintenance env g = (False, g) \<and> fst (db_maintenance env dbfile_empty))"
proof -
  define g where "g = \<lparr> df_tables = filter (\<lambda>t. t = ''rules_history'') (df_tables f),
    df_db = db_none\<lparr> db_history := db_history (df_db f) \<rparr> \<rparr>"
  define h where "h = \<lparr> df_tables = df_tables g @ butlast schema_tables,
    df_db = (df_db g)\<lparr> db_config := [(''version'', SQL_Text ''1'')] \<rparr> \<rparr>"
  have history: "''rules_history'' \<in> set (df_tables f)"
    using assms by (simp add: schema_tables_def)
  then have g: "set (df_tables g) = {''rules_history''}" "db_config (df_db g) = []" "db_rules (df_db g) = []"
    by (auto simp: g_def db_none_def db_initial_def)
  have m: "db_maintenance env g = (False, h)"
    using g by (subst db_maintenance_bare) (auto simp: schema_tables_def h_def)
  have h: "''config'' \<in> set (df_tables h)" "''rules_history'' \<in> set (df_tables h)" "db_config (df_db h) = [(''version'', SQL_Text ''1'')]"
    using g by (simp_all add: h_def schema_tables_def)
  then have "db_maintenance env h = (False, h)"
    by (simp add: db_maintenance_def get_config_def second_script version_words)
  moreover have "set (df_tables h) = set schema_tables"
    using g by (auto simp: h_def schema_tables_def)
  moreover have "fst (db_maintenance env dbfile_empty)"
    by (subst db_maintenance_bare) (simp_all add: dbfile_empty_def db_none_def)
  ultimately show ?thesis
    using h g by (simp add: reset_tables [OF assms] g_def [symmetric] m version_of_def h_def)
qed

theorem authdb_reset_version_witness:
  "case sqlite3_exec reset_statements \<lparr> df_tables = schema_tables, df_db = db_initial \<rparr> of (ok, g) \<Rightarrow>
     (case db_maintenance (plain_env :: unit env) g of (success, g) \<Rightarrow> \<not> success \<and> version_of g = 1)"
  using authdb_reset_version [of "\<lparr> df_tables = schema_tables, df_db = db_initial \<rparr>" "plain_env :: unit env"]
  by (simp split: prod.splits)

section \<open>The result of maintenance\<close>

text \<open>The opening steps, and the ways in which a run ends.\<close>

definition opened :: "('w, 'z) menv_scheme \<Rightarrow> 'w \<Rightarrow> dbfile \<Rightarrow> dbfile" where
  "opened env w f = snd (db_maintenance env (if me_corrupt env w f then dbfile_empty else f))"

lemma opened_keys: "db_keys (df_db f) \<Longrightarrow> db_keys (df_db (opened env w f))"
  by (simp add: opened_def db_maintenance_keys dbfile_empty_def)

lemma opened_empty: "get_config (opened env w dbfile_empty) \<noteq> None"
  unfolding opened_def by (simp add: db_maintenance_bare dbfile_empty_def db_none_def db_initial_def)
    (simp add: get_config_def schema_tables_def)

lemma authdb_maintenance_cases:
  assumes "authdb_maintenance (Suc n) env w depth f = Some (ok, f', fault)"
  obtains (no_config) "get_config (opened env w f) = None" "\<not> ok" "f' = opened env w f"
  | (no_plist) config b where "ok" "get_config (opened env w f) = Some config" "fst (copy_plist env w None) = None"
      "db_load_data env w depth config (opened env w f) = (f', b)"
  | (repaired) config g b plist d c where "ok" "get_config (opened env w f) = Some config"
      "fst (copy_plist env w None) = Some plist" "db_load_data env w depth config (opened env w f) = (g, b)"
      "repair_kofns env w depth plist (df_db g) = (d, c)" "\<not> list_ex (class_broken d) (db_rules d)" "f' = g\<lparr> df_db := d \<rparr>"
  | (broken) x where "ok" "authdb_maintenance n env w depth dbfile_empty = Some x" "fst (snd x) = f'"
      "fst (copy_plist env w None) \<noteq> None"
proof -
  define m where "m = opened env w f"
  have run: "authdb_maintenance (Suc n) env w depth f =
     (case get_config m of
        None \<Rightarrow> Some (False, m, False)
      | Some config \<Rightarrow>
          (case db_load_data env w depth config m of
             (f, fault) \<Rightarrow>
               (case fst (copy_plist env w None) of
                  None \<Rightarrow> Some (True, f, fault)
                | Some plist \<Rightarrow>
                    (case repair_kofns env w depth plist (df_db f) of
                       (d, b) \<Rightarrow>
                         if list_ex (class_broken d) (db_rules d)
                         then map_option (\<lambda>(_, f, b'). (True, f, fault \<or> b \<or> b')) (authdb_maintenance n env w depth dbfile_empty)
                         else Some (True, f\<lparr> df_db := d \<rparr>, fault \<or> b)))))"
    unfolding authdb_maintenance.simps Let_def m_def opened_def by (rule refl)
  note result = assms [unfolded run]
  show ?thesis
  proof (cases "get_config m")
    case None
    show ?thesis
      by (rule no_config) (use result None in \<open>simp_all flip: m_def\<close>)
  next
    case config: (Some config)
    obtain g b where load: "db_load_data env w depth config m = (g, b)"
      by (cases "db_load_data env w depth config m")
    show ?thesis
    proof (cases "fst (copy_plist env w None)")
      case None
      show ?thesis
        by (rule no_plist [of config b]) (use result config load None in \<open>simp_all flip: m_def\<close>)
    next
      case plist: (Some plist)
      obtain d c where repair: "repair_kofns env w depth plist (df_db g) = (d, c)"
        by (cases "repair_kofns env w depth plist (df_db g)")
      show ?thesis
      proof (cases "list_ex (class_broken d) (db_rules d)")
        case True
        then have "map_option (\<lambda>(_, f, b'). (True, f, b \<or> c \<or> b')) (authdb_maintenance n env w depth dbfile_empty) =
            Some (ok, f', fault)"
          using result by (simp add: config load plist repair)
        then obtain x where "authdb_maintenance n env w depth dbfile_empty = Some x"
          "(case x of (_, f, b') \<Rightarrow> (True, f, b \<or> c \<or> b')) = (ok, f', fault)"
          unfolding map_option_eq_Some by blast
        then show ?thesis
          using plist by (intro broken [of x]) (simp_all split: prod.splits)
      next
        case False
        show ?thesis
          by (rule repaired [of config plist g b d c])
            (use result config load plist repair False in \<open>simp_all flip: m_def\<close>)
      qed
    qed
  qed
qed

text \<open>C12. What maintenance leaves, if it returns: the foreign keys hold when they did; and when the list of the
  system can be read, the file has a configuration and no rule of class rule is without a delegate, which the
  search for delegates relies on.\<close>

theorem authdb_maintenance_sound:
  assumes "authdb_maintenance n env w depth f = Some (ok, f', fault)" "db_keys (df_db f)"
  shows "db_keys (df_db f') \<and>
    (ok \<and> fst (copy_plist env w None) \<noteq> None \<longrightarrow> \<not> list_ex (class_broken (df_db f')) (db_rules (df_db f')))"
proof -
  have "db_keys (df_db f') \<and> (f = dbfile_empty \<longrightarrow> ok) \<and>
    (ok \<and> fst (copy_plist env w None) \<noteq> None \<longrightarrow> \<not> list_ex (class_broken (df_db f')) (db_rules (df_db f')))"
    using assms
  proof (induction n arbitrary: f ok f' fault)
    case (Suc n)
    have keys: "db_keys (df_db (opened env w f))"
      using Suc.prems(2) by (rule opened_keys)
    have load: "db_load_data env w depth config (opened env w f) = (g, b) \<Longrightarrow> db_keys (df_db g)" for config g b
      using db_load_data_keys [OF keys, of env w depth config] by simp
    from Suc.prems(1) show ?case
    proof (cases rule: authdb_maintenance_cases)
      case no_config
      then show ?thesis
        using keys opened_empty [of env w] by auto
    next
      case (no_plist config b)
      then show ?thesis
        using load by simp
    next
      case (repaired config g b plist d c)
      then show ?thesis
        using load repair_kofns_keys [of "df_db g" env w depth plist] by simp
    next
      case (broken x)
      obtain ok' b where x: "x = (ok', f', b)"
        using broken(3) by (cases x) auto
      then show ?thesis
        using Suc.IH [of dbfile_empty ok' f' b] broken by (simp add: dbfile_empty_def)
    qed
  qed simp
  then show ?thesis by blast
qed

text \<open>A system whose list has no rights and no rules.\<close>

definition sample_menv :: "'w menv" where
  "sample_menv = env.extend plain_env \<lparr> me_corrupt = \<lambda>w f. False,
     me_plist = \<lambda>w. Some (0, Some (CF_Dict [(''rights'', CF_Dict []), (''rules'', CF_Dict [])])), me_show_pid = \<lambda>p. [] \<rparr>"

lemma sample_maintenance: "map_option fst (authdb_maintenance 1 sample_menv () 0 dbfile_empty) = Some True"
  by code_simp

section \<open>Rules without delegates\<close>

lemma map_clear:
  "sql_insert_map valid i [] n (filter (\<lambda>(r_id, _). r_id \<noteq> i) m) = (True, filter (\<lambda>(r_id, _). r_id \<noteq> i) m)"
  by simp

lemma rules_row_class:
  "3 \<le> length vals \<Longrightarrow> row_get (rules_row i vals) ''class'' = vals ! 2"
  by (cases vals; cases "tl vals"; cases "tl (tl vals)") (auto simp: rules_row_def rules_columns_def row_get_def)

lemma rules_row_name:
  "1 \<le> length vals \<Longrightarrow> row_get (rules_row i vals) ''name'' = vals ! 0"
  by (cases vals) (auto simp: rules_row_def rules_columns_def row_get_def)

lemma sql_bind_class:
  assumes "sql_bind env r = (vals, r')"
  shows "1 \<le> length vals \<and> 3 \<le> length vals \<and> vals ! 2 = SQL_Int (scast (rule_get_class r)) \<and> vals ! 0 = sql_text (rule_get_name r) \<and>
    ru_data r' = ru_data r \<and> ru_delegations r' = ru_delegations r"
  using assms by (auto simp: sql_bind_def rule_get_requirement_data_def Let_def split: prod.splits)

lemma class_rule_value: "scast (RC_RULE :: 32 word) = (2 :: 64 word)"
  by code_simp

text \<open>The row of a rule of class rule that has been written, and the identifier that it got.\<close>

lemma sql_get_id_row:
  assumes "pd_ok (ru_data r)" "rows_by_name d (rule_get_name r) = row # rows" "row_get row ''id'' = SQL_Int i"
  shows "rule_get_id (sql_get_id r d) = i"
proof -
  define q where "q = map (\<lambda>c. (c, row_get row c)) [''id'', ''created'', ''identifier'', ''requirement'']"
  have "distinct (map fst q)" "row_get q ''id'' = SQL_Int i"
    using assms(3) by (simp_all add: q_def row_get_def)
  then have "pd_int64 (pd_copy (ru_data r) (parse_row q)) ''id'' = i"
    using pd_copy_row(2) [OF assms(1), of q "''id''" i] by simp
  then show ?thesis
    using assms(2) by (simp add: sql_get_id_def rule_get_id_def q_def)
qed

lemma sql_insert_id:
  assumes "sql_insert env r d = (True, d', r')" "pd_ok (ru_data r)" "sql_bind env r = (vals, r0)"
  shows "d' = d\<lparr> db_rules := db_rules d @ [rules_row (db_rules_seq d + 1) vals], db_rules_seq := db_rules_seq d + 1 \<rparr> \<and>
    r' = r0 \<and> 0 <s db_rules_seq d + 1 \<and> rule_get_id (sql_get_id r' d') = db_rules_seq d + 1"
proof -
  define i where "i = db_rules_seq d + 1"
  define row where "row = rules_row i vals"
  have ok: "rules_row_ok (db_rules d) row" and d': "d' = d\<lparr> db_rules := db_rules d @ [row], db_rules_seq := i \<rparr>" and r': "r' = r0"
    and pos: "0 <s i"
    using assms(1) by (auto simp: sql_insert_def assms(3) Let_def i_def row_def split: if_splits)
  note bind = sql_bind_class [OF assms(3)]
  have row: "row_get row ''name'' = sql_text (rule_get_name r)" "row_get row ''id'' = SQL_Int i"
    using bind by (simp_all add: row_def rules_row_name) (simp add: rules_row_def row_get_def)
  obtain n where n: "rule_get_name r = Some n"
    using ok row(1) by (cases "rule_get_name r") (auto simp: rules_row_ok_def sql_text_def)
  have "filter (\<lambda>q. row_get q ''name'' = SQL_Text n) (db_rules d) = []"
    using ok row(1) n by (auto simp: rules_row_ok_def sql_text_def filter_empty_conv list_all_iff)
  then have "rows_by_name d' (rule_get_name r') = row # []"
    using bind row(1) n by (simp add: rows_by_name_def d' r' rule_get_name_def sql_text_def)
  then have "rule_get_id (sql_get_id r' d') = i"
    using bind assms(2) row(2) by (intro sql_get_id_row) (simp_all add: r')
  then show ?thesis
    using d' r' pos by (simp add: i_def row_def)
qed

lemma sql_insert_written:
  assumes "sql_insert env r d = (True, d', r')" "pd_ok (ru_data r)" "rule_get_class r = RC_RULE"
  shows "\<exists>row\<in>set (db_rules d'). row_get row ''class'' = SQL_Int 2 \<and> row_id row = rule_get_id (sql_get_id r' d')"
proof -
  obtain vals r0 where bind: "sql_bind env r = (vals, r0)"
    by (cases "sql_bind env r")
  note id = sql_insert_id [OF assms(1,2) bind]
  have "rules_row (db_rules_seq d + 1) vals \<in> set (db_rules d')"
    using id by simp
  moreover have "row_get (rules_row (db_rules_seq d + 1) vals) ''class'' = SQL_Int 2"
    using sql_bind_class [OF bind] assms(3) class_rule_value by (simp add: rules_row_class)
  moreover have "row_id (rules_row (db_rules_seq d + 1) vals) = rule_get_id (sql_get_id r' d')"
    unfolding row_id_rules_row using id by (elim conjE) (rule sym)
  ultimately show ?thesis
    by blast
qed

lemma sql_update_written:
  assumes "sql_update env r d = (True, d', r')" "rule_get_class r = RC_RULE" "has_row (db_rules d) (rule_get_id r)"
  shows "\<exists>row\<in>set (db_rules d'). row_get row ''class'' = SQL_Int 2 \<and> row_id row = rule_get_id r'"
proof -
  obtain vals r0 where bind: "sql_bind env r = (vals, r0)"
    by (cases "sql_bind env r")
  define row where "row = rules_row (rule_get_id r) vals"
  have d': "db_rules d' = map (\<lambda>q. if row_id q = rule_get_id r then row else q) (db_rules d)" and r': "r' = r0"
    using assms(1,3) by (auto simp: sql_update_def bind Let_def row_def has_row_def split: if_splits)
  obtain q where "q \<in> set (db_rules d)" "row_id q = rule_get_id r"
    using assms(3) by (auto simp: has_row_def list_ex_iff)
  then have "row \<in> set (db_rules d')"
    by (auto simp: d' image_iff)
  moreover have "row_get row ''class'' = SQL_Int 2"
    using sql_bind_class [OF bind] assms(2) class_rule_value by (simp add: row_def rules_row_class)
  ultimately show ?thesis
    using sql_bind_class [OF bind] by (auto simp: row_def r' rule_get_id_def)
qed

text \<open>What is set before the row is written is not the class.\<close>

lemma pd_int64_set_double: "pd_ok d \<Longrightarrow> k' \<noteq> k \<Longrightarrow> pd_int64 (pd_set_double d k v) k' = pd_int64 d k'"
  using pd_set_double_item [of d k v] by (auto simp: pd_int64_item)

lemma pd_int64_set_data: "pd_ok d \<Longrightarrow> k' \<noteq> k \<Longrightarrow> pd_int64 (pd_set_data d k v) k' = pd_int64 d k'"
proof (cases "v = []")
  case True
  then show "pd_ok d \<Longrightarrow> k' \<noteq> k \<Longrightarrow> ?thesis"
    by (simp add: pd_set_data_def auth_items_set_data_def)
next
  case False
  then show "pd_ok d \<Longrightarrow> k' \<noteq> k \<Longrightarrow> ?thesis"
    using pd_set_data_item [of d v k] by (auto simp: pd_int64_item)
qed

definition nul_free_identifier :: "process option \<Rightarrow> bool" where
  "nul_free_identifier proc \<longleftrightarrow>
     (case proc of None \<Rightarrow> True | Some p \<Rightarrow> (case pr_code_identifier p of None \<Rightarrow> True | Some s \<Rightarrow> NUL \<notin> set s))"

lemma rule_commit_row_class:
  assumes "rule_commit_row env r modified proc d = (True, d', r', ins)" "pd_ok (ru_data r)" "rule_get_class r = RC_RULE"
    "ru_delegations r = []" "rule_get_id r \<noteq> 0 \<longrightarrow> has_row (db_rules d) (rule_get_id r)" "nul_free_identifier proc"
  shows "(\<exists>row\<in>set (db_rules d'). row_get row ''class'' = SQL_Int 2 \<and> row_id row = rule_get_id r') \<and> ru_delegations r' = []"
proof (cases "rule_get_id r = 0")
  case False
  then have "sql_update env r d = (True, d', r')"
    using assms(1) by (auto simp: rule_commit_row_def split: prod.splits)
  moreover from this have "ru_delegations r' = []"
    using assms(4) sql_bind_class [of env r]
    by (auto simp: sql_update_def Let_def split: prod.splits if_splits)
  ultimately show ?thesis
    using sql_update_written assms(3,5) False by blast
next
  case True
  define r0 where "r0 = rule_upd_data (\<lambda>d. pd_set_double d ''created'' modified)
     (case proc of
              None \<Rightarrow> r
            | Some p \<Rightarrow>
                let r = (case pr_code_identifier p of
                      None \<Rightarrow> r | Some ident \<Rightarrow> rule_upd_data (\<lambda>d. pd_set_string d ''identifier'' ident) r)
                in case pr_code_requirement_data p of
                     None \<Rightarrow> r | Some req \<Rightarrow> rule_upd_data (\<lambda>d. pd_set_data d ''requirement'' req) r)"
  have r0: "pd_ok (ru_data r0)" "rule_get_class r0 = RC_RULE" "ru_delegations r0 = []"
    using assms(2,3,4,6)
    by (auto simp: r0_def nul_free_identifier_def rule_get_class_def Let_def pd_int64_set_double pd_int64_set_data
        pd_int64_set_string split: option.split)
  obtain r1 where ins: "sql_insert env r0 d = (True, d', r1)" "r' = sql_get_id r1 d'"
    using assms(1) True by (auto simp: rule_commit_row_def r0_def Let_def split: prod.splits)
  moreover from this have "ru_delegations r' = []"
    using r0(3) sql_bind_class [of env r0]
    by (auto simp: sql_insert_def sql_get_id_def Let_def split: prod.splits if_splits list.splits)
  ultimately show ?thesis
    using sql_insert_written [OF ins(1) r0(1,2)] by simp
qed

lemma rule_commit_transaction_class:
  assumes "rule_commit_transaction env r modified proc d = (True, d', r', ins)" "pd_ok (ru_data r)" "rule_get_class r = RC_RULE"
    "ru_delegations r = []" "rule_get_id r \<noteq> 0 \<longrightarrow> has_row (db_rules d) (rule_get_id r)" "nul_free_identifier proc"
  shows "list_ex (class_broken d') (db_rules d')"
proof -
  obtain u d1 r1 i where row: "rule_commit_row env r modified proc d = (u, d1, r1, i)"
    by (cases "rule_commit_row env r modified proc d")
  then have u: "u" "r' = r1" "d' = snd (sql_commit_delegates_map r1 (snd (sql_commit_mechanisms_map r1 (sql_commit_localization r1 d1))))"
    using assms(1) by (auto simp: rule_commit_transaction_def Let_def split: prod.splits if_splits)
  have written: "\<exists>row\<in>set (db_rules d1). row_get row ''class'' = SQL_Int 2 \<and> row_id row = rule_get_id r1" "ru_delegations r1 = []"
    using rule_commit_row_class [of env r modified proc d d1 r1 i] row u(1) assms(2-) by auto
  have "db_rules d' = db_rules d1" "db_delegates_map d' = filter (\<lambda>(r_id, _). r_id \<noteq> rule_get_id r1) (db_delegates_map d1)"
    using written(2) by (simp_all add: u(3) sql_commit_delegates_map_def sql_commit_mechanisms_map_def
        sql_commit_localization_def Let_def split: prod.split)
  then show ?thesis
    using written(1) by (auto simp: list_ex_iff class_broken_def no_delegates_def)
qed

lemma rule_sql_commit_class:
  assumes "rule_sql_commit env w show_pid depth r d modified proc = (True, d', r')" "pd_ok (ru_data r)" "rule_get_class r = RC_RULE"
    "ru_delegations r = []" "rule_get_id r \<noteq> 0 \<longrightarrow> has_row (db_rules d) (rule_get_id r)" "nul_free_identifier proc"
  shows "list_ex (class_broken d') (db_rules d')"
proof -
  define r2 where "r2 = rule_upd_data (\<lambda>d. pd_set_double d ''modified'' modified) (rule_set_delegations [] r)"
  obtain u d2 r3 ins where tr: "rule_commit_transaction env r2 modified proc d = (u, d2, r3, ins)"
    by (cases "rule_commit_transaction env r2 modified proc d")
  have commit: "u" "db_rules d' = db_rules d2" "db_delegates_map d' = db_delegates_map d2"
    using assms(1,3,4) tr by (auto simp: rule_sql_commit_def r2_def authdb_transaction_def Let_def split: if_splits prod.splits)
  have "list_ex (class_broken d2) (db_rules d2)"
    using rule_commit_transaction_class [of env r2 modified proc d d2 r3 ins] tr commit(1) assms(2-)
    by (simp add: r2_def rule_get_class_def rule_get_id_def pd_int64_set_double)
  then show ?thesis
    using commit by (simp add: list_ex_iff class_broken_def no_delegates_def)
qed

text \<open>C13. A rule of class rule may be committed without delegates, as from a list that gives it no class, no rule and no
  count.  The next maintenance takes the file to be damaged by it: the database is thrown away, and the run goes on
  from an empty file, so that nothing of what was set before is left.\<close>

theorem rule_without_delegates_resets:
  assumes "rule_sql_commit env w show_pid depth r (df_db f) modified proc = (True, d, r')" "pd_ok (ru_data r)"
    and "rule_get_class r = RC_RULE" "ru_delegations r = []" "rule_get_id r \<noteq> 0 \<longrightarrow> has_row (db_rules (df_db f)) (rule_get_id r)"
    and "nul_free_identifier proc" "\<not> me_corrupt menv v (f\<lparr> df_db := d \<rparr>)"
    and "get_config (f\<lparr> df_db := d \<rparr>) = Some config" "\<not> pd_int64 config ''version'' <s AUTHDB_VERSION"
    and "fst (copy_plist menv v (Some config)) = None" "fst (copy_plist menv v None) = Some plist"
    and "list_all (\<lambda>q. \<not> kofn_broken d q) (db_rules d)"
  shows "authdb_maintenance (Suc n) menv v depth' (f\<lparr> df_db := d \<rparr>) =
     map_option (\<lambda>(_, g, fault). (True, g, fault)) (authdb_maintenance n menv v depth' dbfile_empty)"
proof -
  have broken: "list_ex (class_broken d) (db_rules d)"
    by (rule rule_sql_commit_class [OF assms(1-6)])
  have open_same: "db_maintenance menv (f\<lparr> df_db := d \<rparr>) = (True, f\<lparr> df_db := d \<rparr>)"
    using assms(8,9) by (simp add: db_maintenance_def)
  have load: "db_load_data menv v depth' config (f\<lparr> df_db := d \<rparr>) = (f\<lparr> df_db := d \<rparr>, False)"
    using assms(10) by (cases "copy_plist menv v (Some config)") (simp add: db_load_data_def)
  have repair: "repair_kofns menv v depth' plist d = (d, False)"
    using assms(12) by (simp add: repair_kofns_def list_all_iff filter_empty_conv [THEN iffD2])
  show ?thesis
    using assms(7,8,11) broken by (simp add: open_same load repair)
qed

definition sample_dbfile :: dbfile where
  "sample_dbfile = \<lparr> df_tables = schema_tables, df_db = db_initial\<lparr> db_config := [(''version'', SQL_Int 2)] \<rparr> \<rparr>"

definition sample_class_rule :: rule where
  "sample_class_rule = rule_set_int64 ''class'' 2 (rule_set_int64 ''type'' 1 (named_rule ''a''))"

definition sample_commit :: "bool \<times> db \<times> rule" where
  "sample_commit = rule_sql_commit sample_menv () (\<lambda>_. []) 0 sample_class_rule (df_db sample_dbfile) 0 None"

lemma sample_commit:
  "fst sample_commit \<and> rule_get_class sample_class_rule = RC_RULE \<and> ru_delegations sample_class_rule = [] \<and>
     rule_get_id sample_class_rule = 0 \<and> list_all (\<lambda>q. \<not> kofn_broken (fst (snd sample_commit)) q) (db_rules (fst (snd sample_commit)))"
  by code_simp

lemma sample_config:
  "map_option (\<lambda>c. (\<not> pd_int64 c ''version'' <s 2, fst (copy_plist sample_menv () (Some c)) = None))
     (get_config (sample_dbfile\<lparr> df_db := fst (snd sample_commit) \<rparr>)) = Some (True, True)"
  "map_option (\<lambda>c. True) (fst (copy_plist sample_menv () None)) = Some True"
  "\<not> me_corrupt sample_menv () (sample_dbfile\<lparr> df_db := fst (snd sample_commit) \<rparr>)"
  by code_simp+

theorem rule_without_delegates_resets_witness:
  "authdb_maintenance 2 sample_menv () 0 (sample_dbfile\<lparr> df_db := fst (snd sample_commit) \<rparr>) =
     map_option (\<lambda>(_, g, fault). (True, g, fault)) (authdb_maintenance 1 sample_menv () 0 dbfile_empty)"
proof -
  let ?f = "sample_dbfile\<lparr> df_db := fst (snd sample_commit) \<rparr>"
  obtain config where config: "get_config ?f = Some config" "\<not> pd_int64 config ''version'' <s 2"
    "fst (copy_plist sample_menv () (Some config)) = None"
    using sample_config(1) by auto
  obtain plist where plist: "fst (copy_plist sample_menv () None) = Some plist"
    using sample_config(2) by auto
  have "pd_ok (ru_data sample_class_rule)"
    using named_rule(1) [of "''a''"] by (simp add: sample_class_rule_def)
  moreover have "rule_sql_commit sample_menv () (\<lambda>_. []) 0 sample_class_rule (df_db sample_dbfile) 0 None =
      (True, fst (snd sample_commit), snd (snd sample_commit))"
    using sample_commit by (simp add: sample_commit_def [symmetric] prod_eq_iff)
  ultimately show ?thesis
    using rule_without_delegates_resets [of sample_menv "()" "\<lambda>_. []" 0 sample_class_rule sample_dbfile 0 None
        "fst (snd sample_commit)" "snd (snd sample_commit)" sample_menv "()" config plist 1 0]
      sample_commit sample_config(3) config plist by (simp add: nul_free_identifier_def numeral_2_eq_2)
qed

theorem authdb_maintenance_sound_witness:
  "\<exists>f' fault. authdb_maintenance 1 sample_menv () 0 dbfile_empty = Some (True, f', fault) \<and> db_keys (df_db f')"
proof -
  obtain f' fault where "authdb_maintenance 1 sample_menv () 0 dbfile_empty = Some (True, f', fault)"
    using sample_maintenance by auto
  moreover from authdb_maintenance_sound [OF this] have "db_keys (df_db f')"
    by (simp add: dbfile_empty_def)
  ultimately show ?thesis by blast
qed

end
