(* ===== verification/Commit_Laws.thy ===== *)
theory Commit_Laws
  imports Authdb_Laws
begin

text \<open>
  What a commit of a rule of class rule stores: its row and, in their order, the rules that were named.
\<close>

section \<open>The delegates\<close>

lemma get_sql_delegates_id: "rule_get_id (get_sql_delegates depth r d) = rule_get_id r"
proof (cases depth)
  case 0
  then show ?thesis
    by (simp add: rule_crash_def rule_get_id_def)
next
  case (Suc n)
  then show ?thesis
    by (simp only: get_sql_delegates_eq rule_get_id_set)
qed

text \<open>A delegate as the handlers create it, by its name.\<close>

definition delegate_named :: "nat \<Rightarrow> db \<Rightarrow> string \<Rightarrow> rule" where
  "delegate_named depth d n = the (rule_create_with_string depth (Some n) (Some d))"

lemma delegate_named_id:
  assumes "mechs_text d" "rules_ok d" "NUL \<notin> set n"
  shows "rows_by_name d (Some n) = [] \<Longrightarrow> rule_get_id (delegate_named depth d n) = 0 \<and>
      rule_get_id (snd (rule_sql_fetch depth' (delegate_named depth d n) d)) = 0"
    and "rows_by_name d (Some n) = row # rows \<Longrightarrow> rule_get_id (delegate_named depth d n) = row_id row \<and> row_id row \<noteq> 0"
proof -
  assume none: "rows_by_name d (Some n) = []"
  then show "rule_get_id (delegate_named depth d n) = 0 \<and>
      rule_get_id (snd (rule_sql_fetch depth' (delegate_named depth d n) d)) = 0"
    using named_rule [OF assms(3)]
    by (simp add: delegate_named_def rule_create_with_string_missing [OF assms(3)] rule_sql_fetch_def)
next
  assume found: "rows_by_name d (Some n) = row # rows"
  have "row_id row \<noteq> 0"
    using rows_by_name_row(1) [OF found] assms(2) by (auto simp: rules_ok_def rule_row_ok_def)
  then show "rule_get_id (delegate_named depth d n) = row_id row \<and> row_id row \<noteq> 0"
    using rule_create_with_string_found [OF assms found] by (simp add: delegate_named_def get_sql_delegates_id)
qed

definition row_named :: "db \<Rightarrow> string \<Rightarrow> 64 word" where
  "row_named d n = row_id (hd (rows_by_name d (Some n)))"

lemma validate_delegates_named:
  assumes "mechs_text d" "rules_ok d"
  shows "\<forall>n\<in>set names. NUL \<notin> set n \<Longrightarrow> validate_delegates depth' (map (delegate_named depth d) names) d = (ok, ds) \<Longrightarrow>
    (ok \<longleftrightarrow> (\<forall>n\<in>set names. rows_by_name d (Some n) \<noteq> [])) \<and> (ok \<longrightarrow> map rule_get_id ds = map (row_named d) names)"
proof (induction names arbitrary: ok ds)
  case Nil
  then show ?case by simp
next
  case (Cons n names)
  note id = delegate_named_id [OF assms, of n]
  obtain ok' ds' where rest: "validate_delegates depth' (map (delegate_named depth d) names) d = (ok', ds')"
    by fastforce
  note IH = Cons.IH [OF _ rest]
  show ?case
  proof (cases "rows_by_name d (Some n)")
    case Nil
    then have "\<not> ok"
      using Cons.prems id(1) by (auto simp: Let_def)
    then show ?thesis
      using Nil by simp
  next
    case (Cons row rows)
    then have "rule_get_id (delegate_named depth d n) = row_id row" "row_id row \<noteq> 0"
      using Cons.prems(1) id(2) by auto
    then have "ok = ok'" "ds = delegate_named depth d n # ds'"
      using Cons.prems(2) rest by (simp_all add: Let_def)
    then show ?thesis
      using IH Cons.prems(1) id(2) Cons by (simp add: row_named_def)
  qed
qed

section \<open>The row\<close>

text \<open>The row of a rule of class rule, and what else is in the table.\<close>

definition stored_row :: "rule \<Rightarrow> 64 word \<Rightarrow> db \<Rightarrow> db \<Rightarrow> bool" where
  "stored_row r i d d' \<longleftrightarrow>
     (\<exists>row. filter (\<lambda>q. row_id q = i) (db_rules d') = [row] \<and> row_get row ''name'' = sql_text (rule_get_name r) \<and>
        row_get row ''class'' = SQL_Int 2 \<and>
        row_get row ''kofn'' = (if rule_get_kofn r = 0 then SQL_Null else SQL_Int (rule_get_kofn r))) \<and>
     filter (\<lambda>q. row_id q \<noteq> i) (db_rules d') = filter (\<lambda>q. row_id q \<noteq> i) (db_rules d)"

lemma sql_bind_kofn:
  assumes "sql_bind env r = (vals, r')" "rule_get_class r = RC_RULE"
  shows "row_get (rules_row i vals) ''kofn'' = (if rule_get_kofn r = 0 then SQL_Null else SQL_Int (rule_get_kofn r))"
  using assms by (auto simp: sql_bind_def Let_def rules_row_def rules_columns_def row_get_def split: prod.splits)

lemma rules_row_stored:
  assumes "sql_bind env r = (vals, r')" "rule_get_class r = RC_RULE"
  shows "row_get (rules_row i vals) ''name'' = sql_text (rule_get_name r) \<and> row_get (rules_row i vals) ''class'' = SQL_Int 2"
  using sql_bind_class [OF assms(1)] assms(2) class_rule_value by (simp add: rules_row_class rules_row_name)

lemma sql_update_stored:
  assumes "sql_update env r d = (True, d', r')" "rule_get_class r = RC_RULE" "has_row (db_rules d) (rule_get_id r)"
    and "distinct (map row_id (db_rules d))"
  shows "stored_row r (rule_get_id r') d d' \<and> distinct (map row_id (db_rules d')) \<and> ru_delegations r' = ru_delegations r \<and>
    db_delegates_map d' = db_delegates_map d"
proof -
  obtain vals r0 where bind: "sql_bind env r = (vals, r0)"
    by (cases "sql_bind env r")
  define i where "i = rule_get_id r"
  define row where "row = rules_row i vals"
  define f where "f = (\<lambda>q. if row_id q = i then row else q)"
  have d': "d' = d\<lparr> db_rules := map f (db_rules d) \<rparr>" and r': "r' = r0"
    using assms(1,3) by (auto simp: sql_update_def bind Let_def row_def i_def f_def has_row_def split: if_splits)
  have i: "rule_get_id r' = i"
    using sql_bind_class [OF bind] by (simp add: r' i_def rule_get_id_def)
  have f: "row_id (f q) = row_id q" for q
    by (simp add: f_def row_def)
  then have "map row_id (db_rules d') = map row_id (db_rules d)"
    by (simp add: d' comp_def)
  then have distinct: "distinct (map row_id (db_rules d'))"
    using assms(4) by (simp only:)
  have "filter (\<lambda>q. row_id q = i) (map f rows) = map (\<lambda>q. row) (filter (\<lambda>q. row_id q = i) rows)"
    "filter (\<lambda>q. row_id q \<noteq> i) (map f rows) = filter (\<lambda>q. row_id q \<noteq> i) rows" for rows
    by (induction rows) (auto simp: f_def row_def)
  moreover have "map row_id (filter (\<lambda>q. row_id q = i) (db_rules d)) = [i]"
    using filter_row_id [OF assms(4)] assms(3) by (simp add: i_def)
  then have "map (\<lambda>q. row) (filter (\<lambda>q. row_id q = i) (db_rules d)) = [row]"
    by auto
  ultimately show ?thesis
    using rules_row_stored [OF bind assms(2)] sql_bind_kofn [OF bind assms(2)] sql_bind_class [OF bind] distinct
    unfolding stored_row_def i by (simp add: d' row_def r')
qed

lemma sql_insert_stored:
  assumes "sql_insert env r d = (True, d', r')" "pd_ok (ru_data r)" "rule_get_class r = RC_RULE" "rules_ok d"
  shows "stored_row r (rule_get_id (sql_get_id r' d')) d d' \<and> distinct (map row_id (db_rules d')) \<and>
    ru_delegations (sql_get_id r' d') = ru_delegations r \<and> db_delegates_map d' = db_delegates_map d"
proof -
  obtain vals r0 where bind: "sql_bind env r = (vals, r0)"
    by (cases "sql_bind env r")
  define i where "i = db_rules_seq d + 1"
  define row where "row = rules_row i vals"
  have d': "d' = d\<lparr> db_rules := db_rules d @ [row], db_rules_seq := i \<rparr>" and r': "r' = r0" and pos: "0 <s i"
    and id: "rule_get_id (sql_get_id r' d') = i"
    using sql_insert_id [OF assms(1,2) bind] unfolding i_def row_def by blast+
  have fresh: "row_id q \<noteq> i" if "q \<in> set (db_rules d)" for q
  proof -
    have "row_id q \<le>s db_rules_seq d" "0 \<le>s db_rules_seq d"
      using assms(4) that by (auto simp: rules_ok_def rule_row_ok_def)
    then have "row_id q <s i"
      using seq_less pos unfolding i_def by blast
    then show ?thesis
      by (auto simp: word_sless_alt)
  qed
  then have "filter (\<lambda>q. row_id q = i) (db_rules d) = []" "filter (\<lambda>q. row_id q \<noteq> i) (db_rules d) = db_rules d"
    by (simp_all add: filter_empty_conv filter_id_conv)
  moreover have "distinct (map row_id (db_rules d'))"
    using assms(4) fresh by (auto simp: d' rules_ok_def row_def)
  moreover have "ru_delegations (sql_get_id r' d') = ru_delegations r"
    using sql_bind_class [OF bind] by (auto simp: sql_get_id_def r' split: list.split)
  ultimately show ?thesis
    using rules_row_stored [OF bind assms(3)] sql_bind_kofn [OF bind assms(3)]
    unfolding stored_row_def id by (simp add: d' row_def)
qed

section \<open>The commit\<close>

text \<open>What is set before the row is written is none of the fields of the row that are looked at.\<close>

lemma pd_string_set_double: "pd_ok d \<Longrightarrow> k' \<noteq> k \<Longrightarrow> pd_string (pd_set_double d k v) k' = pd_string d k'"
  using pd_set_double_item [of d k v] by (auto simp: pd_string_item)

lemma pd_string_set_data: "pd_ok d \<Longrightarrow> k' \<noteq> k \<Longrightarrow> pd_string (pd_set_data d k v) k' = pd_string d k'"
proof (cases "v = []")
  case True
  then show "pd_ok d \<Longrightarrow> k' \<noteq> k \<Longrightarrow> ?thesis"
    by (simp add: pd_set_data_def auth_items_set_data_def)
next
  case False
  then show "pd_ok d \<Longrightarrow> k' \<noteq> k \<Longrightarrow> ?thesis"
    using pd_set_data_item [of d v k] by (auto simp: pd_string_item)
qed

lemmas rule_field_sets = rule_get_class_def rule_get_name_def rule_get_kofn_def rule_get_id_def pd_int64_set_double pd_int64_set_data
  pd_int64_set_string pd_string_set_double pd_string_set_data pd_string_set_string

lemma stored_row_cong:
  "rule_get_name r = rule_get_name r0 \<Longrightarrow> rule_get_kofn r = rule_get_kofn r0 \<Longrightarrow> stored_row r i d d' = stored_row r0 i d d'"
  by (simp add: stored_row_def)

lemma rule_commit_row_stored:
  assumes "rule_commit_row env r modified proc d = (True, d', r', ins)" "pd_ok (ru_data r)" "rule_get_class r = RC_RULE"
    "rule_get_id r \<noteq> 0 \<longrightarrow> has_row (db_rules d) (rule_get_id r)" "nul_free_identifier proc" "rules_ok d"
  shows "stored_row r (rule_get_id r') d d' \<and> distinct (map row_id (db_rules d')) \<and> ru_delegations r' = ru_delegations r \<and>
    db_delegates_map d' = db_delegates_map d"
proof (cases "rule_get_id r = 0")
  case False
  then have "sql_update env r d = (True, d', r')"
    using assms(1) by (auto simp: rule_commit_row_def split: prod.splits)
  moreover have "distinct (map row_id (db_rules d))"
    using assms(6) by (simp add: rules_ok_def)
  ultimately show ?thesis
    using sql_update_stored assms(3,4) False by blast
next
  case True
  define r0 where "r0 = rule_upd_data (\<lambda>d. pd_set_double d ''created'' modified)
     (case proc of
              None \<Rightarrow> r
            | Some p \<Rightarrow>
                let r = (case pr_code_identifier p of
                      None \<Rightarrow> r | Some ident \<Rightarrow> rule_upd_data (\<lambda>d. pd_set_string d ''identifier'' ident) r)
                in case pr_code_requirement_data p of
                     None \<Rightarrow> r | Some req \<Rightarrow> rule_upd_data (\<lambda>d. pd_set_data d ''requirement'' req) r)"
  have r0: "pd_ok (ru_data r0)" "rule_get_class r0 = RC_RULE" "ru_delegations r0 = ru_delegations r"
    "rule_get_name r0 = rule_get_name r" "rule_get_kofn r0 = rule_get_kofn r"
    using assms(2,3,5) by (auto simp: r0_def nul_free_identifier_def Let_def rule_field_sets split: option.split)
  obtain r1 where ins: "sql_insert env r0 d = (True, d', r1)" "r' = sql_get_id r1 d'"
    using assms(1) True by (auto simp: rule_commit_row_def r0_def Let_def split: prod.splits)
  then show ?thesis
    using sql_insert_stored [OF ins(1) r0(1,2) assms(6)] r0(3) stored_row_cong [OF r0(4,5)] by simp
qed

lemma rule_commit_transaction_stored:
  assumes "rule_commit_transaction env r modified proc d = (True, d', r', ins)" "pd_ok (ru_data r)" "rule_get_class r = RC_RULE"
    "rule_get_id r \<noteq> 0 \<longrightarrow> has_row (db_rules d) (rule_get_id r)" "nul_free_identifier proc" "rules_ok d"
  shows "stored_row r (rule_get_id r') d d' \<and>
    map row_id (select_delegates d' (rule_get_id r')) = map rule_get_id (ru_delegations r)"
proof -
  obtain u d1 r1 i where row: "rule_commit_row env r modified proc d = (u, d1, r1, i)"
    by (cases "rule_commit_row env r modified proc d")
  define d2 where "d2 = snd (sql_commit_mechanisms_map r1 (sql_commit_localization r1 d1))"
  have u: "u" "r' = r1" "fst (sql_commit_delegates_map r1 d2)" "d' = snd (sql_commit_delegates_map r1 d2)"
    using assms(1) row by (auto simp: rule_commit_transaction_def d2_def Let_def split: prod.splits if_splits)
  have stored: "stored_row r (rule_get_id r1) d d1" "distinct (map row_id (db_rules d1))" "ru_delegations r1 = ru_delegations r"
    using rule_commit_row_stored [of env r modified proc d d1 r1 i] row u(1) assms(2-) by auto
  have d2: "db_rules d2 = db_rules d1"
    by (simp add: d2_def sql_commit_mechanisms_map_def sql_commit_localization_def Let_def split: prod.split)
  obtain m where m: "sql_insert_map (\<lambda>t. has_row (db_rules d2) (rule_get_id r1) \<and> has_row (db_rules d2) t) (rule_get_id r1)
      (map rule_get_id (ru_delegations r1)) 0 (filter (\<lambda>(r_id, _). r_id \<noteq> rule_get_id r1) (db_delegates_map d2)) = (True, m)"
    using u(3) by (auto simp: sql_commit_delegates_map_def Let_def split: prod.splits)
  then have d': "d' = d2\<lparr> db_delegates_map := m \<rparr>"
    by (simp add: u(4) sql_commit_delegates_map_def)
  have "map row_id (join_map (db_rules d2) m (rule_get_id r1)) = map rule_get_id (ru_delegations r1)"
    by (rule join_map_inserted(1) [OF _ m]) (simp_all add: d2 stored(2))
  then show ?thesis
    using stored(1,3) by (simp add: d' u(2) select_delegates_def stored_row_def d2)
qed

text \<open>C28. A commit of a rule of class rule, with delegates named as the requests and the import name them, succeeds only when
  every name is in the database, and a commit that fails changes nothing.  After a success there is one row of the
  rule, with its name, its class and its count, the rows of the other rules are what they were, and the join that
  fetches the delegates gives the rules that were named, in the order in which they were named.\<close>

theorem rule_commit_stores:
  assumes "mechs_text d" "rules_ok d" "pd_ok (ru_data r)" "rule_get_class r = RC_RULE"
    and "rule_get_id r \<noteq> 0 \<longrightarrow> has_row (db_rules d) (rule_get_id r)" "nul_free_identifier proc"
    and "list_all (\<lambda>n. NUL \<notin> set n) names"
    and "ru_delegations r = map (\<lambda>n. the (rule_create_with_string depth (Some n) (Some d))) names"
    and "rule_sql_commit env w show_pid depth' r d modified proc = (ok, d', r')"
  shows "if ok then
      list_all (\<lambda>n. \<exists>row rows. rows_by_name d (Some n) = row # rows) names \<and>
      (\<exists>row. filter (\<lambda>q. row_id q = rule_get_id r') (db_rules d') = [row] \<and> row_get row ''name'' = sql_text (rule_get_name r) \<and>
         row_get row ''class'' = SQL_Int 2 \<and>
         row_get row ''kofn'' = (if rule_get_kofn r = 0 then SQL_Null else SQL_Int (rule_get_kofn r))) \<and>
      filter (\<lambda>q. row_id q \<noteq> rule_get_id r') (db_rules d') = filter (\<lambda>q. row_id q \<noteq> rule_get_id r') (db_rules d) \<and>
      map row_id (select_delegates d' (rule_get_id r')) = map (\<lambda>n. row_id (hd (rows_by_name d (Some n)))) names
    else d' = d"
proof -
  obtain okv ds where v: "validate_delegates depth' (ru_delegations r) d = (okv, ds)"
    by fastforce
  then have v': "validate_delegates depth' (map (delegate_named depth d) names) d = (okv, ds)"
    by (simp add: assms(8) delegate_named_def [abs_def])
  define r2 where "r2 = rule_upd_data (\<lambda>d. pd_set_double d ''modified'' modified) (rule_set_delegations ds r)"
  obtain u d2 r3 ins where tr: "rule_commit_transaction env r2 modified proc d = (u, d2, r3, ins)"
    by (cases "rule_commit_transaction env r2 modified proc d")
  show ?thesis
  proof (cases ok)
    case False
    then show ?thesis
      using assms(4,9) v tr
      by (auto simp: rule_sql_commit_def r2_def authdb_transaction_def Let_def split: if_splits prod.splits)
  next
    case True
    have commit: "okv" "u" "r' = r3" "db_rules d' = db_rules d2" "db_delegates_map d' = db_delegates_map d2"
      using assms(4,9) True v tr
      by (auto simp: rule_sql_commit_def r2_def authdb_transaction_def Let_def split: if_splits prod.splits)
    have named: "\<forall>n\<in>set names. rows_by_name d (Some n) \<noteq> []" "map rule_get_id ds = map (row_named d) names"
      using validate_delegates_named [OF assms(1,2) _ v'] assms(7) commit(1) by (auto simp: list_all_iff)
    have r2: "pd_ok (ru_data r2)" "rule_get_class r2 = RC_RULE" "rule_get_id r2 = rule_get_id r" "ru_delegations r2 = ds"
      "rule_get_name r2 = rule_get_name r" "rule_get_kofn r2 = rule_get_kofn r"
      using assms(3,4) by (simp_all add: r2_def rule_field_sets)
    have stored: "stored_row r2 (rule_get_id r3) d d2 \<and>
        map row_id (select_delegates d2 (rule_get_id r3)) = map rule_get_id (ru_delegations r2)"
      by (rule rule_commit_transaction_stored [OF _ r2(1,2) _ assms(6,2)]) (use tr commit(2) assms(5) r2(3) in simp_all)
    have "stored_row r (rule_get_id r') d d'"
      using stored unfolding stored_row_def r2(5,6) commit(3,4) by blast
    moreover have "map row_id (select_delegates d' (rule_get_id r')) = map (row_named d) names"
      using stored named(2) by (simp add: select_delegates_def commit(3-5) r2(4))
    moreover have "list_all (\<lambda>n. \<exists>row rows. rows_by_name d (Some n) = row # rows) names"
      using named(1) by (simp add: list_all_iff neq_Nil_conv)
    ultimately show ?thesis
      using True unfolding stored_row_def row_named_def [abs_def] by (simp only: if_True simp_thms)
  qed
qed

text \<open>A new rule that names the two rules of the sample database, one of them twice, and wants two of the three.\<close>

definition sample_kofn_rule :: rule where
  "sample_kofn_rule = rule_set_delegations
     (map (\<lambda>n. the (rule_create_with_string 2 (Some n) (Some chain_db))) [''b'', ''a'', ''b''])
     (rule_set_int64 ''kofn'' 2 (rule_set_int64 ''class'' 2 (rule_set_int64 ''type'' 1 (named_rule ''c''))))"

lemma sample_kofn_rule:
  "fst (rule_sql_commit plain_env () (\<lambda>_. []) 2 sample_kofn_rule chain_db 0 None) \<and> rule_get_class sample_kofn_rule = RC_RULE \<and>
    rule_get_id sample_kofn_rule = 0 \<and> rule_get_kofn sample_kofn_rule = 2 \<and> rule_get_name sample_kofn_rule = Some ''c'' \<and>
    row_id (hd (rows_by_name chain_db (Some ''a''))) = 1 \<and> row_id (hd (rows_by_name chain_db (Some ''b''))) = 2"
  by code_simp

theorem rule_commit_stores_witness:
  "\<exists>d' r' row. rule_sql_commit plain_env () (\<lambda>_. []) 2 sample_kofn_rule chain_db 0 None = (True, d', r') \<and>
    filter (\<lambda>q. row_id q = rule_get_id r') (db_rules d') = [row] \<and> row_get row ''name'' = SQL_Text ''c'' \<and>
    row_get row ''kofn'' = SQL_Int 2 \<and> map row_id (select_delegates d' (rule_get_id r')) = [2, 1, 2]"
proof -
  obtain d' r' where commit: "rule_sql_commit plain_env () (\<lambda>_. []) 2 sample_kofn_rule chain_db 0 None = (True, d', r')"
    using sample_kofn_rule by (metis prod.collapse)
  have "pd_ok (ru_data sample_kofn_rule)"
    using named_rule(1) [of "''c''"] by (simp add: sample_kofn_rule_def)
  moreover have "ru_delegations sample_kofn_rule =
      map (\<lambda>n. the (rule_create_with_string 2 (Some n) (Some chain_db))) [''b'', ''a'', ''b'']"
    by (simp only: sample_kofn_rule_def rule_sel_simps)
  moreover have "list_all (\<lambda>n. NUL \<notin> set n) [''b'', ''a'', ''b'']"
    by simp
  ultimately show ?thesis
    using rule_commit_stores [OF sample_dbs_ok(1,2) _ _ _ _ _ _ commit, of "[''b'', ''a'', ''b'']" 2] sample_kofn_rule commit
    by (auto simp: nul_free_identifier_def sql_text_def)
qed

end
