(* ===== verification/Der_Date.thy ===== *)
theory Der_Date
  imports Prelude "HOL-Library.Signed_Division"
begin

text \<open>
  Dates as DER generalized time, \<^verbatim>\<open>src/OSX/utilities/der_date.c\<close>, and what the coder of property lists
  (\<^verbatim>\<open>Der_Plist\<close>) shares with it.

  A decoder has a pointer and the end of its region: the bytes that are left, or \<^const>\<open>None\<close> for NULL.  An encoder
  writes backwards: its buffer is the room that is left and the bytes that stand behind, or \<^const>\<open>None\<close> for
  NULL.  The functions of corecrypto (\<^verbatim>\<open>ccder\<close>), the Gregorian calendar, the printing of doubles and the
  validity of UTF-8 are parameters.  Doubles are real numbers; the one NaN of the sources, which says that there is
  no time, is \<^const>\<open>None\<close>.  Error objects only describe and are left out, as are the assertions and the crash report for a date
  that is not valid.
\<close>

unbundle bit_operations_syntax

type_synonym bytes = "8 word list"
type_synonym buf = "(nat \<times> bytes) option"

datatype ccder_tag =
    CCDER_NULL
  | CCDER_BOOLEAN
  | CCDER_OCTET_STRING
  | CCDER_ENTITLEMENTS
  | CCDER_GENERALIZED_TIME
  | CCDER_UTC_TIME
  | CCDER_CONSTRUCTED_SEQUENCE
  | CCDER_NUMERIC_STRING
  | CCDER_UTF8_STRING
  | CCDER_INTEGER
  | CCDER_CONSTRUCTED_SET
  | CCDER_CONSTRUCTED_CFSET
  | CCDER_OTHER nat

text \<open>What is used of other libraries.  A decoder of tag and length gives the length of the payload and the bytes from
  there on, or the payload and what follows it; an encoder is given the room and says what it writes, the one of a
  constructed value also how much has been written since the end of its body.\<close>

record der_env =
  cc_decode_tag :: "bytes \<Rightarrow> ccder_tag option"
  cc_decode_tl :: "ccder_tag \<Rightarrow> bytes \<Rightarrow> (nat \<times> bytes) option"
  cc_decode_constructed_tl :: "ccder_tag \<Rightarrow> bytes \<Rightarrow> (bytes \<times> bytes) option"
  cc_encode_tl :: "ccder_tag \<Rightarrow> nat \<Rightarrow> nat \<Rightarrow> bytes option"
  cc_encode_constructed_tl :: "ccder_tag \<Rightarrow> nat \<Rightarrow> nat \<Rightarrow> bytes option"
  cc_encode_body :: "bytes \<Rightarrow> nat \<Rightarrow> bytes option"
  cc_sizeof :: "ccder_tag \<Rightarrow> nat \<Rightarrow> nat"
  cal_compose :: "int \<Rightarrow> int \<Rightarrow> int \<Rightarrow> int \<Rightarrow> int \<Rightarrow> int \<Rightarrow> real option"
  cal_decompose :: "real \<Rightarrow> (int \<times> int \<times> int \<times> int \<times> int \<times> int) option"
  print_double :: "real \<Rightarrow> bytes \<times> int"
  utf8_valid :: "bytes \<Rightarrow> bool"

definition put :: "(nat \<Rightarrow> bytes option) \<Rightarrow> buf \<Rightarrow> buf" where
  "put f b =
     (case b of
        None \<Rightarrow> None
      | Some (room, out) \<Rightarrow> (case f room of None \<Rightarrow> None | Some w \<Rightarrow> Some (room - length w, w @ out)))"

text \<open>The call of \<^verbatim>\<open>ccder_encode_constructed_tl\<close> with the end of the body and the end that is reached.\<close>

definition encode_constructed_tl :: "('z) der_env_scheme \<Rightarrow> ccder_tag \<Rightarrow> buf \<Rightarrow> buf \<Rightarrow> buf" where
  "encode_constructed_tl env tag body_end b =
     (case (body_end, b) of
        (Some (_, out'), Some (_, out)) \<Rightarrow> put (cc_encode_constructed_tl env tag (length out - length out')) b
      | _ \<Rightarrow> None)"

section \<open>The calendar\<close>

definition mdays :: "int list" where
  "mdays = [0, 31, 59, 90, 120, 151, 181, 212, 243, 273, 304, 334, 365]"

definition leap_year :: "int \<Rightarrow> int" where
  "leap_year year = (if year mod 4 = 0 \<and> (year mod 100 \<noteq> 0 \<or> year mod 400 = 0) then 1 else 0)"

definition days_of_month :: "int \<Rightarrow> int" where
  "days_of_month month = mdays ! nat month - mdays ! nat (month - 1)"

definition validateDateComponents :: "int \<Rightarrow> int \<Rightarrow> int \<Rightarrow> int \<Rightarrow> int \<Rightarrow> int \<Rightarrow> bool" where
  "validateDateComponents year month day hour minute second \<longleftrightarrow>
     \<not> (month < 1 \<or> month > 12 \<or> day < 1 \<or> day > 31 \<or> hour \<ge> 24 \<or> minute \<ge> 60 \<or> second > 61
        \<or> (month = 2 \<and> day > days_of_month month + leap_year year)
        \<or> (month \<noteq> 2 \<and> day > days_of_month month))"

definition SecGregorianDateGetAbsoluteTime ::
  "('z) der_env_scheme \<Rightarrow> int \<Rightarrow> int \<Rightarrow> int \<Rightarrow> int \<Rightarrow> int \<Rightarrow> int \<Rightarrow> real option \<Rightarrow> real option" where
  "SecGregorianDateGetAbsoluteTime env year month day hour minute second timeZoneOffset =
     (if \<not> validateDateComponents year month day hour minute second then None
      else (case cal_compose env year month day hour minute second of
              None \<Rightarrow> None
            | Some absTime \<Rightarrow> map_option (\<lambda>offset. absTime - offset) timeZoneOffset))"

section \<open>Decoding\<close>

fun der_get_char :: "bytes option \<Rightarrow> int \<times> bytes option" where
  "der_get_char (Some (b # bs)) = (uint b, Some bs)"
| "der_get_char _ = (- 1, None)"

definition der_decode_decimal :: "bytes option \<Rightarrow> int \<times> bytes option" where
  "der_decode_decimal p =
     (case der_get_char p of (ch, p) \<Rightarrow> if ch < 48 \<or> ch > 57 then (- 1, None) else (ch - 48, p))"

text \<open>The two calls are evaluated from left to right, which the language does not say.\<close>

definition der_decode_decimal_pair :: "bytes option \<Rightarrow> int \<times> bytes option" where
  "der_decode_decimal_pair p =
     (case der_decode_decimal p of (a, p) \<Rightarrow> (case der_decode_decimal p of (b, p) \<Rightarrow> (10 * a + b, p)))"

fun der_peek_byte :: "bytes option \<Rightarrow> int" where
  "der_peek_byte (Some (b # bs)) = uint b"
| "der_peek_byte _ = - 1"

text \<open>The loop over the digits behind the point: the divisor, the value, the character before the one that ended the
  loop, and the bytes from there on.\<close>

fun fraction_loop :: "64 word \<Rightarrow> 64 word \<Rightarrow> int \<Rightarrow> int \<Rightarrow> bytes \<Rightarrow> 64 word \<times> 64 word \<times> int \<times> bytes" where
  "fraction_loop divisor val prev ch [] = (divisor, val, prev, [])"
| "fraction_loop divisor val prev ch (b # bs) =
     (if uint b < 48 \<or> uint b > 57 then (divisor, val, ch, b # bs)
      else if divisor < 1844674407370955161
      then fraction_loop (divisor * 10) (val * 10 + (ucast b - 48)) ch (uint b) bs
      else fraction_loop divisor val ch (uint b) bs)"

definition der_decode_decimal_fraction :: "bytes option \<Rightarrow> real \<times> bytes option" where
  "der_decode_decimal_fraction der =
     (let ch = der_peek_byte der
      in if ch = - 1 then (0, None)
         else if ch = 46 then
           (case fraction_loop 1 0 (- 1) ch (tl (the der)) of
              (divisor, val, prev, rest) \<Rightarrow>
                if rest = [] \<or> prev = 48 \<or> prev = 46 then (0, None)
                else (real_of_int (uint val) / real_of_int (uint divisor), Some rest))
         else (0, der))"

definition der_decode_timezone_offset :: "bytes option \<Rightarrow> real option \<times> bytes option" where
  "der_decode_timezone_offset p =
     (case der_get_char p of
        (ch, p) \<Rightarrow>
          if ch = 90 then (Some 0, p)
          else if ch \<noteq> 45 \<and> ch \<noteq> 43 then (None, p)
          else
            let multiplier = (if ch = 45 then - 60 else 60);
                (h, p) = der_decode_decimal_pair p;
                (m, p) = der_decode_decimal_pair p
            in (Some (real_of_int (multiplier * (h * 60 + m))), p))"

definition der_decode_commontime_body :: "('z) der_env_scheme \<Rightarrow> int \<Rightarrow> bytes option \<Rightarrow> real option" where
  "der_decode_commontime_body env year der =
     (let (month, der) = der_decode_decimal_pair der;
          (day, der) = der_decode_decimal_pair der;
          (hour, der) = der_decode_decimal_pair der;
          (minute, der) = der_decode_decimal_pair der;
          (second, der) = der_decode_decimal_pair der;
          (fraction, der) = der_decode_decimal_fraction der;
          (timeZoneOffset, der) = der_decode_timezone_offset der
      in if der \<noteq> Some [] then None
         else map_option (\<lambda>t. t + fraction)
           (SecGregorianDateGetAbsoluteTime env year month day hour minute second timeZoneOffset))"

definition der_decode_generalizedtime_body :: "('z) der_env_scheme \<Rightarrow> bytes option \<Rightarrow> real option" where
  "der_decode_generalizedtime_body env der =
     (case der_decode_decimal_pair der of (a, der) \<Rightarrow>
        (case der_decode_decimal_pair der of (b, der) \<Rightarrow> der_decode_commontime_body env (100 * a + b) der))"

definition der_decode_universaltime_body :: "('z) der_env_scheme \<Rightarrow> bytes option \<Rightarrow> real option" where
  "der_decode_universaltime_body env der =
     (case der_decode_decimal_pair der of
        (year, der) \<Rightarrow>
          if year < 50 then der_decode_commontime_body env (year + 2000) der
          else if year < 70 then der_decode_commontime_body env year None
          else der_decode_commontime_body env (year + 1900) der)"

text \<open>The two forms of a date, with what follows them.\<close>

definition der_decode_utc_time :: "('z) der_env_scheme \<Rightarrow> bytes \<Rightarrow> (real \<times> bytes) option" where
  "der_decode_utc_time env der =
     (case cc_decode_constructed_tl env CCDER_UTC_TIME der of
        None \<Rightarrow> None
      | Some (body, rest) \<Rightarrow> map_option (\<lambda>t. (t, rest)) (der_decode_universaltime_body env (Some body)))"

definition der_decode_date :: "('z) der_env_scheme \<Rightarrow> bytes \<Rightarrow> (real \<times> bytes) option" where
  "der_decode_date env der =
     (case cc_decode_constructed_tl env CCDER_GENERALIZED_TIME der of
        None \<Rightarrow> None
      | Some (body, rest) \<Rightarrow> map_option (\<lambda>t. (t, rest)) (der_decode_generalizedtime_body env (Some body)))"

section \<open>Encoding\<close>

definition ccder_sizeof_nanoseconds :: "('z) der_env_scheme \<Rightarrow> real \<Rightarrow> nat" where
  "ccder_sizeof_nanoseconds env t =
     (case print_double env t of (str, dotoff) \<Rightarrow>
        if int (length str) < dotoff then 0 else nat (int (length str) - dotoff))"

definition der_sizeof_generalizedtime_body :: "('z) der_env_scheme \<Rightarrow> real \<Rightarrow> nat" where
  "der_sizeof_generalizedtime_body env t =
     (let subsec_digits = ccder_sizeof_nanoseconds env t in if subsec_digits \<noteq> 0 then 16 + subsec_digits else 15)"

definition der_sizeof_date :: "('z) der_env_scheme \<Rightarrow> real \<Rightarrow> nat" where
  "der_sizeof_date env t = cc_sizeof env CCDER_GENERALIZED_TIME (der_sizeof_generalizedtime_body env t)"

definition ccder_encode_byte :: "8 word \<Rightarrow> buf \<Rightarrow> buf" where
  "ccder_encode_byte byte b =
     (case b of None \<Rightarrow> None | Some (room, out) \<Rightarrow> if room < 1 then None else Some (room - 1, byte # out))"

definition ccder_encode_decimal_pair :: "int \<Rightarrow> buf \<Rightarrow> buf" where
  "ccder_encode_decimal_pair v b =
     (case b of
        None \<Rightarrow> None
      | Some (room, out) \<Rightarrow>
          if room < 2 then None
          else Some (room - 2, word_of_int (48 + v sdiv 10) # word_of_int (48 + v smod 10) # out))"

definition ccder_encode_decimal_quad :: "int \<Rightarrow> buf \<Rightarrow> buf" where
  "ccder_encode_decimal_quad v b = ccder_encode_decimal_pair (v sdiv 100) (ccder_encode_decimal_pair (v smod 100) b)"

text \<open>One minus a fraction, in its digits: the last is taken from ten, the others from nine.\<close>

definition complement_digits :: "bytes \<Rightarrow> bytes" where
  "complement_digits ds = map (\<lambda>b. 57 - (b - 48)) (butlast ds) @ [58 - (last ds - 48)]"

definition ccder_encode_nanoseconds :: "('z) der_env_scheme \<Rightarrow> real \<Rightarrow> buf \<Rightarrow> buf" where
  "ccder_encode_nanoseconds env t b =
     (case print_double env t of
        (str, dotoff) \<Rightarrow>
          let begin = nat dotoff;
              str = (if t < 0 \<and> begin < length str then take begin str @ complement_digits (drop begin str) else str)
          in if dotoff < int (length str) then
               ccder_encode_byte 46
                 (if dotoff < 0 then
                    put (cc_encode_body env (replicate (nat (- dotoff)) (if t < 0 then 57 else 48))) (put (cc_encode_body env str) b)
                  else put (cc_encode_body env (drop (nat dotoff) str)) b)
             else b)"

text \<open>With \<^term>\<open>repair\<close> a date that is not valid gets a default day and minute; hour and second stay.\<close>

definition der_encode_generalizedtime_body_repair :: "('z) der_env_scheme \<Rightarrow> real \<Rightarrow> bool \<Rightarrow> buf \<Rightarrow> buf" where
  "der_encode_generalizedtime_body_repair env t repair b =
     (case cal_decompose env t of
        None \<Rightarrow> None
      | Some (year, month, day, hour, minute, second) \<Rightarrow>
          let (year, month, day, minute) =
                (if \<not> validateDateComponents year month day hour minute second \<and> repair then (2001, 1, 1, 1)
                 else (year, month, day, minute))
          in ccder_encode_decimal_quad year (ccder_encode_decimal_pair month (ccder_encode_decimal_pair day
               (ccder_encode_decimal_pair hour (ccder_encode_decimal_pair minute (ccder_encode_decimal_pair second
                 (ccder_encode_nanoseconds env t (ccder_encode_byte 90 b))))))))"

definition der_encode_date_repair :: "('z) der_env_scheme \<Rightarrow> real \<Rightarrow> bool \<Rightarrow> buf \<Rightarrow> buf" where
  "der_encode_date_repair env t repair b =
     encode_constructed_tl env CCDER_GENERALIZED_TIME b (der_encode_generalizedtime_body_repair env t repair b)"

end
