(* ===== verification/Der_Plist.thy ===== *)
theory Der_Plist
  imports Der_Date
begin

text \<open>
  The coder of property lists as DER, \<^verbatim>\<open>src/OSX/utilities/der_*.c\<close>: sizes, encoding and decoding of every type
  of value, one definition per function.  \<^verbatim>\<open>Der_Date\<close> says how buffers and pointers are represented.

  A string is its UTF-8 bytes; a number is the \<^verbatim>\<open>long long\<close> it converts to, if it does; \<^term>\<open>PL_Other\<close> is a value
  of a type that is not supported.  A dictionary or set is enumerated in the order of its list; the equality of
  Core Foundation, by which they take in members, is a parameter.

  Decoding is bounded by the depth of the nesting and in its loops by the length of the region: \<^const>\<open>None\<close> is that
  a bound does not suffice, \<open>Some None\<close> is NULL.
\<close>

unbundle bit_operations_syntax

datatype plist =
    PL_Null
  | PL_Boolean bool
  | PL_Data bytes
  | PL_Date real
  | PL_String bytes
  | PL_Number "64 word option"
  | PL_Array "plist list"
  | PL_Dictionary "(plist \<times> plist) list"
  | PL_Set "plist list"
  | PL_Other

record plist_env = der_env +
  cf_equal :: "plist \<Rightarrow> plist \<Rightarrow> bool"

section \<open>Numbers\<close>

definition byte_of :: "nat \<Rightarrow> 64 word \<Rightarrow> 8 word" where
  "byte_of byteNumber val = ucast (drop_bit (8 * (byteNumber - 1)) val)"

fun skip_bytes :: "8 word \<Rightarrow> nat \<Rightarrow> 64 word \<Rightarrow> nat" where
  "skip_bytes first_byte n val =
     (if 1 < n \<and> byte_of n val = first_byte then skip_bytes first_byte (n - 1) val else n)"

definition bytes_when_encoded :: "64 word \<Rightarrow> nat" where
  "bytes_when_encoded val =
     (let first_byte = byte_of 8 val
      in if first_byte = 0xFF \<or> first_byte = 0 then
           let n = skip_bytes first_byte 7 val
           in if first_byte AND 0x80 \<noteq> byte_of n val AND 0x80 then n + 1 else n
         else 8)"

definition der_sizeof_number :: "('z) der_env_scheme \<Rightarrow> 64 word option \<Rightarrow> nat" where
  "der_sizeof_number env number =
     (case number of None \<Rightarrow> 0 | Some val \<Rightarrow> cc_sizeof env CCDER_INTEGER (bytes_when_encoded val))"

text \<open>The loop that puts the bytes in front of the end, the lowest first.\<close>

fun put_bytes :: "nat \<Rightarrow> 64 word \<Rightarrow> bytes \<Rightarrow> bytes" where
  "put_bytes 0 val out = out"
| "put_bytes (Suc n) val out = put_bytes n (drop_bit 8 val) (ucast val # out)"

definition der_encode_number :: "('z) der_env_scheme \<Rightarrow> 64 word option \<Rightarrow> buf \<Rightarrow> buf" where
  "der_encode_number env number b =
     (case (number, b) of
        (Some val, Some (room, out)) \<Rightarrow>
          let n = bytes_when_encoded val
          in if room < n then None
             else put (cc_encode_tl env CCDER_INTEGER n) (Some (room - n, put_bytes n val out))
      | _ \<Rightarrow> None)"

text \<open>The value of a payload of at most eight bytes, with the sign of its first bit.\<close>

definition pad_sign :: "nat \<Rightarrow> 64 word \<Rightarrow> 64 word" where
  "pad_sign pad_size val = fold (\<lambda>i val. val OR push_bit ((8 - i) * 8) 0xFF) [1..<pad_size + 1] val"

definition number_value :: "bytes \<Rightarrow> 64 word" where
  "number_value payload =
     (let val = fold (\<lambda>b val. push_bit 8 val OR ucast b) payload 0
      in if payload \<noteq> [] \<and> hd payload AND 0x80 = 0x80 then pad_sign (8 - length payload) val else val)"

definition der_decode_number :: "('z) der_env_scheme \<Rightarrow> bytes \<Rightarrow> (64 word \<times> bytes) option" where
  "der_decode_number env der =
     (case cc_decode_tl env CCDER_INTEGER der of
        None \<Rightarrow> None
      | Some (payload_size, payload) \<Rightarrow>
          if length payload < payload_size \<or> payload_size > 8 then None
          else Some (number_value (take payload_size payload), drop payload_size payload))"

section \<open>Null, booleans, data and strings\<close>

definition der_decode_null :: "('z) der_env_scheme \<Rightarrow> bytes \<Rightarrow> (unit \<times> bytes) option" where
  "der_decode_null env der =
     (case cc_decode_tl env CCDER_NULL der of
        None \<Rightarrow> None
      | Some (payload_size, payload) \<Rightarrow> if payload_size \<noteq> 0 then None else Some ((), payload))"

definition der_encode_null :: "('z) der_env_scheme \<Rightarrow> buf \<Rightarrow> buf" where
  "der_encode_null env b = put (cc_encode_tl env CCDER_NULL 0) b"

definition der_decode_boolean :: "('z) der_env_scheme \<Rightarrow> bytes \<Rightarrow> (bool \<times> bytes) option" where
  "der_decode_boolean env der =
     (case cc_decode_tl env CCDER_BOOLEAN der of
        None \<Rightarrow> None
      | Some (payload_size, payload) \<Rightarrow>
          if length payload < payload_size \<or> payload_size \<noteq> 1 then None
          else Some (hd payload \<noteq> 0, drop payload_size payload))"

definition der_encode_boolean :: "('z) der_env_scheme \<Rightarrow> bool \<Rightarrow> buf \<Rightarrow> buf" where
  "der_encode_boolean env v b =
     put (cc_encode_tl env CCDER_BOOLEAN 1) (put (cc_encode_body env [if v then 1 else 0]) b)"

definition der_decode_data :: "('z) der_env_scheme \<Rightarrow> bytes \<Rightarrow> (bytes \<times> bytes) option" where
  "der_decode_data env der =
     (case cc_decode_tl env CCDER_OCTET_STRING der of
        None \<Rightarrow> None
      | Some (payload_size, payload) \<Rightarrow>
          if length payload < payload_size then None else Some (take payload_size payload, drop payload_size payload))"

text \<open>The data of entitlements is the whole structure, with its tag and length.\<close>

definition der_decode_core_entitlements_data :: "('z) der_env_scheme \<Rightarrow> bytes \<Rightarrow> (bytes \<times> bytes) option" where
  "der_decode_core_entitlements_data env der =
     (case cc_decode_tl env CCDER_ENTITLEMENTS der of
        None \<Rightarrow> None
      | Some (payload_size, payload) \<Rightarrow>
          if length payload < payload_size then None
          else Some (take (length der - length payload + payload_size) der, drop payload_size payload))"

definition der_encode_data :: "('z) der_env_scheme \<Rightarrow> bytes \<Rightarrow> buf \<Rightarrow> buf" where
  "der_encode_data env v b = put (cc_encode_tl env CCDER_OCTET_STRING (length v)) (put (cc_encode_body env v) b)"

definition decode_string :: "('z) der_env_scheme \<Rightarrow> ccder_tag \<Rightarrow> bytes \<Rightarrow> (bytes \<times> bytes) option" where
  "decode_string env tag der =
     (case cc_decode_tl env tag der of
        None \<Rightarrow> None
      | Some (payload_size, payload) \<Rightarrow>
          if length payload < payload_size \<or> \<not> utf8_valid env (take payload_size payload) then None
          else Some (take payload_size payload, drop payload_size payload))"

definition der_decode_string :: "('z) der_env_scheme \<Rightarrow> bytes \<Rightarrow> (bytes \<times> bytes) option" where
  "der_decode_string env der = decode_string env CCDER_UTF8_STRING der"

definition der_decode_numeric_string :: "('z) der_env_scheme \<Rightarrow> bytes \<Rightarrow> (bytes \<times> bytes) option" where
  "der_decode_numeric_string env der = decode_string env CCDER_NUMERIC_STRING der"

text \<open>A string that does not fit is not converted as a whole.\<close>

definition der_encode_string :: "('z) der_env_scheme \<Rightarrow> bytes \<Rightarrow> buf \<Rightarrow> buf" where
  "der_encode_string env v b =
     (case b of
        None \<Rightarrow> None
      | Some (room, out) \<Rightarrow>
          if room < length v then None
          else put (cc_encode_tl env CCDER_UTF8_STRING (length v)) (put (cc_encode_body env v) b))"

section \<open>Sizes\<close>

function (sequential) der_sizeof_plist :: "('z) der_env_scheme \<Rightarrow> plist \<Rightarrow> nat"
and der_sizeof_array :: "('z) der_env_scheme \<Rightarrow> plist list \<Rightarrow> nat"
and der_sizeof_key_value :: "('z) der_env_scheme \<Rightarrow> plist \<times> plist \<Rightarrow> nat"
and der_sizeof_dictionary :: "('z) der_env_scheme \<Rightarrow> (plist \<times> plist) list \<Rightarrow> nat option"
and der_sizeof_set :: "('z) der_env_scheme \<Rightarrow> plist list \<Rightarrow> nat option" where
  "der_sizeof_plist env PL_Null = cc_sizeof env CCDER_NULL 0"
| "der_sizeof_plist env (PL_Boolean b) = cc_sizeof env CCDER_BOOLEAN 1"
| "der_sizeof_plist env (PL_Data d) = cc_sizeof env CCDER_OCTET_STRING (length d)"
| "der_sizeof_plist env (PL_Date t) = der_sizeof_date env t"
| "der_sizeof_plist env (PL_String s) = cc_sizeof env CCDER_UTF8_STRING (length s)"
| "der_sizeof_plist env (PL_Number n) = der_sizeof_number env n"
| "der_sizeof_plist env (PL_Array vs) = cc_sizeof env CCDER_CONSTRUCTED_SEQUENCE (der_sizeof_array env vs)"
| "der_sizeof_plist env (PL_Dictionary kvs) =
     (case der_sizeof_dictionary env kvs of None \<Rightarrow> 0 | Some n \<Rightarrow> cc_sizeof env CCDER_CONSTRUCTED_SET n)"
| "der_sizeof_plist env (PL_Set vs) =
     (case der_sizeof_set env vs of None \<Rightarrow> 0 | Some n \<Rightarrow> cc_sizeof env CCDER_CONSTRUCTED_CFSET n)"
| "der_sizeof_plist env PL_Other = 0"
| "der_sizeof_array env [] = 0"
| "der_sizeof_array env (v # vs) = der_sizeof_plist env v + der_sizeof_array env vs"
| "der_sizeof_key_value env (k, v) =
     (let key_size = der_sizeof_plist env k; value_size = der_sizeof_plist env v
      in if key_size = 0 \<or> value_size = 0 then 0 else cc_sizeof env CCDER_CONSTRUCTED_SEQUENCE (key_size + value_size))"
| "der_sizeof_dictionary env [] = Some 0"
| "der_sizeof_dictionary env (kv # kvs) =
     (let n = der_sizeof_key_value env kv
      in if n = 0 then None else map_option (\<lambda>m. n + m) (der_sizeof_dictionary env kvs))"
| "der_sizeof_set env [] = Some 0"
| "der_sizeof_set env (v # vs) =
     (let n = der_sizeof_plist env v in if n = 0 then None else map_option (\<lambda>m. n + m) (der_sizeof_set env vs))"
  by pat_completeness auto

termination
  by (relation "measure (case_sum (case_sum (\<lambda>(_, v). size v) (\<lambda>(_, vs). size_list size vs))
      (case_sum (\<lambda>(_, kv). size_prod size size kv)
        (case_sum (\<lambda>(_, kvs). size_list (size_prod size size) kvs) (\<lambda>(_, vs). size_list size vs))))") simp_all

section \<open>Encoding\<close>

text \<open>\<^verbatim>\<open>CFDataCompareDERData\<close>: by the first byte that differs, then by length; and the sort of the members.\<close>

fun cfdata_less :: "bytes \<Rightarrow> bytes \<Rightarrow> bool" where
  "cfdata_less (a # as) (b # bs) \<longleftrightarrow> a < b \<or> a = b \<and> cfdata_less as bs"
| "cfdata_less [] bs \<longleftrightarrow> bs \<noteq> []"
| "cfdata_less (a # as) [] \<longleftrightarrow> False"

fun insert_element :: "bytes \<Rightarrow> bytes list \<Rightarrow> bytes list" where
  "insert_element x [] = [x]"
| "insert_element x (y # ys) = (if cfdata_less y x then y # insert_element x ys else x # y # ys)"

definition sort_elements :: "bytes list \<Rightarrow> bytes list" where
  "sort_elements xs = foldr insert_element xs []"

text \<open>The members in their order in front of the end, and the tag and length in front of them.\<close>

definition encode_elements :: "('z) der_env_scheme \<Rightarrow> ccder_tag \<Rightarrow> bytes list \<Rightarrow> buf \<Rightarrow> buf" where
  "encode_elements env tag elements b =
     encode_constructed_tl env tag b (foldr (\<lambda>e b. put (cc_encode_body env e) b) (sort_elements elements) b)"

function (sequential) der_encode_plist_repair :: "('z) der_env_scheme \<Rightarrow> bool \<Rightarrow> plist \<Rightarrow> buf \<Rightarrow> buf"
and der_encode_array :: "('z) der_env_scheme \<Rightarrow> bool \<Rightarrow> plist list \<Rightarrow> buf \<Rightarrow> buf"
and add_sequence_to_array :: "('z) der_env_scheme \<Rightarrow> bool \<Rightarrow> (plist \<times> plist) list \<Rightarrow> bytes list option"
and add_value_to_array :: "('z) der_env_scheme \<Rightarrow> bool \<Rightarrow> plist list \<Rightarrow> bytes list option" where
  "der_encode_plist_repair env repair PL_Null b = der_encode_null env b"
| "der_encode_plist_repair env repair (PL_Boolean v) b = der_encode_boolean env v b"
| "der_encode_plist_repair env repair (PL_Data d) b = der_encode_data env d b"
| "der_encode_plist_repair env repair (PL_Date t) b = der_encode_date_repair env t repair b"
| "der_encode_plist_repair env repair (PL_String s) b = der_encode_string env s b"
| "der_encode_plist_repair env repair (PL_Number n) b = der_encode_number env n b"
| "der_encode_plist_repair env repair (PL_Array vs) b =
     encode_constructed_tl env CCDER_CONSTRUCTED_SEQUENCE b (der_encode_array env repair vs b)"
| "der_encode_plist_repair env repair (PL_Dictionary kvs) b =
     (case add_sequence_to_array env repair kvs of
        None \<Rightarrow> None | Some elements \<Rightarrow> encode_elements env CCDER_CONSTRUCTED_SET elements b)"
| "der_encode_plist_repair env repair (PL_Set vs) b =
     (case add_value_to_array env repair vs of
        None \<Rightarrow> None | Some elements \<Rightarrow> encode_elements env CCDER_CONSTRUCTED_CFSET elements b)"
| "der_encode_plist_repair env repair PL_Other b = None"
| "der_encode_array env repair [] b = b"
| "der_encode_array env repair (v # vs) b = der_encode_plist_repair env repair v (der_encode_array env repair vs b)"
| "add_sequence_to_array env repair [] = Some []"
| "add_sequence_to_array env repair ((k, v) # kvs) =
     (let der_size = der_sizeof_key_value env (k, v); end = Some (der_size, [])
      in if der_size = 0 then None
         else (case encode_constructed_tl env CCDER_CONSTRUCTED_SEQUENCE end
                 (der_encode_plist_repair env repair k (der_encode_plist_repair env repair v end)) of
             None \<Rightarrow> None
           | Some (room, out) \<Rightarrow> map_option (\<lambda>es. out # es) (add_sequence_to_array env repair kvs)))"
| "add_value_to_array env repair [] = Some []"
| "add_value_to_array env repair (v # vs) =
     (let der_size = der_sizeof_plist env v
      in if der_size = 0 then None
         else (case der_encode_plist_repair env repair v (Some (der_size, [])) of
             None \<Rightarrow> None
           | Some (room, out) \<Rightarrow> map_option (\<lambda>es. out # es) (add_value_to_array env repair vs)))"
  by pat_completeness auto

termination
  by (relation "measure (case_sum (case_sum (\<lambda>(_, _, v, _). size v) (\<lambda>(_, _, vs, _). size_list size vs))
      (case_sum (\<lambda>(_, _, kvs). size_list (size_prod size size) kvs) (\<lambda>(_, _, vs). size_list size vs)))") simp_all

definition der_encode_plist :: "('z) der_env_scheme \<Rightarrow> plist \<Rightarrow> buf \<Rightarrow> buf" where
  "der_encode_plist env v b = der_encode_plist_repair env False v b"

text \<open>What has not been written of the data is zero.\<close>

definition CFPropertyListCreateDERData :: "('z) der_env_scheme \<Rightarrow> plist \<Rightarrow> bytes option" where
  "CFPropertyListCreateDERData env v =
     map_option (\<lambda>(room, out). replicate room 0 @ out) (der_encode_plist env v (Some (der_sizeof_plist env v, [])))"

section \<open>Decoding\<close>

text \<open>A dictionary keeps the first value of a key, a set the first of equal members.\<close>

definition add_entry :: "('z) plist_env_scheme \<Rightarrow> plist \<times> plist \<Rightarrow> (plist \<times> plist) list \<Rightarrow> (plist \<times> plist) list" where
  "add_entry env kv d = (if list_ex (\<lambda>(k, _). cf_equal env k (fst kv)) d then d else d @ [kv])"

definition add_member :: "('z) plist_env_scheme \<Rightarrow> plist \<Rightarrow> plist list \<Rightarrow> plist list" where
  "add_member env v s = (if list_ex (\<lambda>v'. cf_equal env v' v) s then s else s @ [v])"

definition leaf :: "('a \<Rightarrow> plist) \<Rightarrow> ('a \<times> bytes) option \<Rightarrow> (plist \<times> bytes) option option" where
  "leaf f r = Some (map_option (\<lambda>(v, rest). (f v, rest)) r)"

text \<open>The loop over the members of a region, until it is used up: a member is decoded by \<^term>\<open>f\<close>, which gives what
  follows it, and taken in by \<^term>\<open>add\<close>.  The loop has as many steps as the region has bytes.\<close>

fun decode_loop ::
  "nat \<Rightarrow> (bytes \<Rightarrow> ('a \<times> bytes) option option) \<Rightarrow> ('a \<Rightarrow> 's \<Rightarrow> 's) \<Rightarrow> 's \<Rightarrow> bytes \<Rightarrow> 's option option" where
  "decode_loop 0 f add s der = (if der = [] then Some (Some s) else None)"
| "decode_loop (Suc k) f add s der =
     (if der = [] then Some (Some s)
      else (case f der of
              None \<Rightarrow> None
            | Some None \<Rightarrow> Some None
            | Some (Some (x, der)) \<Rightarrow> decode_loop k f add (add x s) der))"

definition decode_members ::
  "('z) der_env_scheme \<Rightarrow> ccder_tag \<Rightarrow> (bytes \<Rightarrow> ('a \<times> bytes) option option) \<Rightarrow> ('a \<Rightarrow> 's list \<Rightarrow> 's list) \<Rightarrow>
    ('s list \<Rightarrow> plist) \<Rightarrow> bytes \<Rightarrow> (plist \<times> bytes) option option" where
  "decode_members env tag f add wrap der =
     (case cc_decode_constructed_tl env tag der of
        None \<Rightarrow> Some None
      | Some (body, rest) \<Rightarrow> map_option (map_option (\<lambda>vs. (wrap vs, rest))) (decode_loop (length body) f add [] body))"

definition der_decode_array ::
  "('z) plist_env_scheme \<Rightarrow> (bytes \<Rightarrow> (plist \<times> bytes) option option) \<Rightarrow> bytes \<Rightarrow> (plist \<times> bytes) option option" where
  "der_decode_array env f der = decode_members env CCDER_CONSTRUCTED_SEQUENCE f (\<lambda>v vs. vs @ [v]) PL_Array der"

definition der_decode_set ::
  "('z) plist_env_scheme \<Rightarrow> (bytes \<Rightarrow> (plist \<times> bytes) option option) \<Rightarrow> bytes \<Rightarrow> (plist \<times> bytes) option option" where
  "der_decode_set env f der = decode_members env CCDER_CONSTRUCTED_CFSET f (add_member env) PL_Set der"

text \<open>A key and its value are taken from the front of a sequence, whose end is not looked at: the pointer that is
  returned stands behind the value.\<close>

definition der_decode_key_value ::
  "('z) plist_env_scheme \<Rightarrow> (bytes \<Rightarrow> (plist \<times> bytes) option option) \<Rightarrow> bytes \<Rightarrow> ((plist \<times> plist) \<times> bytes) option option" where
  "der_decode_key_value env f der =
     (case cc_decode_constructed_tl env CCDER_CONSTRUCTED_SEQUENCE der of
        None \<Rightarrow> Some None
      | Some (payload, rest) \<Rightarrow>
          (case f payload of
             None \<Rightarrow> None
           | Some None \<Rightarrow> Some None
           | Some (Some (k, payload)) \<Rightarrow>
               (case f payload of
                  None \<Rightarrow> None
                | Some None \<Rightarrow> Some None
                | Some (Some (v, payload)) \<Rightarrow> Some (Some ((k, v), payload @ rest)))))"

definition der_decode_dictionary ::
  "('z) plist_env_scheme \<Rightarrow> (bytes \<Rightarrow> (plist \<times> bytes) option option) \<Rightarrow> bytes \<Rightarrow> (plist \<times> bytes) option option" where
  "der_decode_dictionary env f der =
     decode_members env CCDER_CONSTRUCTED_SET (der_decode_key_value env f) (add_entry env) PL_Dictionary der"

text \<open>The number is the depth of the nesting that the stack allows.\<close>

primrec der_decode_plist :: "nat \<Rightarrow> ('z) plist_env_scheme \<Rightarrow> bytes \<Rightarrow> (plist \<times> bytes) option option" where
  "der_decode_plist 0 env der = None"
| "der_decode_plist (Suc n) env der =
     (case cc_decode_tag env der of
        None \<Rightarrow> Some None
      | Some CCDER_NULL \<Rightarrow> leaf (\<lambda>_. PL_Null) (der_decode_null env der)
      | Some CCDER_BOOLEAN \<Rightarrow> leaf PL_Boolean (der_decode_boolean env der)
      | Some CCDER_OCTET_STRING \<Rightarrow> leaf PL_Data (der_decode_data env der)
      | Some CCDER_ENTITLEMENTS \<Rightarrow> leaf PL_Data (der_decode_core_entitlements_data env der)
      | Some CCDER_GENERALIZED_TIME \<Rightarrow> leaf PL_Date (der_decode_date env der)
      | Some CCDER_UTC_TIME \<Rightarrow> leaf PL_Date (der_decode_utc_time env der)
      | Some CCDER_CONSTRUCTED_SEQUENCE \<Rightarrow> der_decode_array env (der_decode_plist n env) der
      | Some CCDER_NUMERIC_STRING \<Rightarrow> leaf PL_String (der_decode_numeric_string env der)
      | Some CCDER_UTF8_STRING \<Rightarrow> leaf PL_String (der_decode_string env der)
      | Some CCDER_INTEGER \<Rightarrow> leaf (\<lambda>v. PL_Number (Some v)) (der_decode_number env der)
      | Some CCDER_CONSTRUCTED_SET \<Rightarrow> der_decode_dictionary env (der_decode_plist n env) der
      | Some CCDER_CONSTRUCTED_CFSET \<Rightarrow> der_decode_set env (der_decode_plist n env) der
      | Some (CCDER_OTHER _) \<Rightarrow> Some None)"

definition CFPropertyListCreateWithDERData :: "nat \<Rightarrow> ('z) plist_env_scheme \<Rightarrow> bytes \<Rightarrow> plist option option" where
  "CFPropertyListCreateWithDERData n env der =
     map_option (\<lambda>r. case r of None \<Rightarrow> None | Some (v, rest) \<Rightarrow> if rest = [] then Some v else None) (der_decode_plist n env der)"

end
