(* ===== verification/Der_Laws.thy ===== *)
theory Der_Laws
  imports Der_Plist "HOL-Library.List_Lexorder" "HOL-Library.Multiset"
begin

text \<open>
  First laws of the coder of property lists: an integer is written in the bytes that count and is read back from
  them, the comparison of encodings is the lexicographic order, and the encoding does not depend on the order in which a
  dictionary or a set is enumerated.
\<close>

unbundle bit_operations_syntax

section \<open>Integers\<close>

definition be_bytes :: "nat \<Rightarrow> 64 word \<Rightarrow> bytes" where
  "be_bytes n v = map (\<lambda>i. byte_of (Suc i) v) (rev [0..<n])"

lemma length_be_bytes [simp]: "length (be_bytes n v) = n"
  by (simp add: be_bytes_def)

lemma byte_of_shift: "byte_of (Suc i) (drop_bit 8 v) = byte_of (Suc (Suc i)) v"
  by (simp add: byte_of_def drop_bit_drop_bit add.commute)

lemma put_bytes_eq: "put_bytes n v out = be_bytes n v @ out"
proof (induction n arbitrary: v out)
  case (Suc n)
  have "map f (rev [0..<Suc n]) = map (\<lambda>i. f (Suc i)) (rev [0..<n]) @ [f 0]" for f :: "nat \<Rightarrow> 8 word"
    by (simp add: upt_conv_Cons map_Suc_upt [symmetric] rev_map [symmetric] del: upt_Suc)
  note this [of "\<lambda>i. byte_of (Suc i) v"]
  moreover have "ucast v = byte_of (Suc 0) v"
    by (simp add: byte_of_def)
  ultimately show ?case
    using Suc by (simp add: be_bytes_def byte_of_shift del: upt_Suc)
qed (simp add: be_bytes_def)

lemma bit_byte_of: "bit (byte_of (Suc m) v) j \<longleftrightarrow> j < 8 \<and> bit v (8 * m + j)"
  by (simp add: byte_of_def bit_ucast_iff bit_drop_bit_eq)

text \<open>A value in \<^term>\<open>n\<close> bytes: all bits from the highest of them on are the sign.\<close>

definition fits_bytes :: "nat \<Rightarrow> 64 word \<Rightarrow> bool" where
  "fits_bytes n v \<longleftrightarrow> 1 \<le> n \<and> (\<forall>i. 8 * n - 1 \<le> i \<and> i < 64 \<longrightarrow> bit v i = bit v 63)"

definition sign_byte :: "bool \<Rightarrow> 8 word" where
  "sign_byte b = (if b then 0xFF else 0)"

lemma bit_ff: "bit (0xFF :: 8 word) j \<longleftrightarrow> j < 8"
proof -
  have "(0xFF :: 8 word) = mask 8"
    by (simp add: mask_eq_exp_minus_1)
  then show ?thesis
    unfolding \<open>0xFF = mask 8\<close> by (subst bit_mask_iff) auto
qed

lemma bit_80: "bit (0x80 :: 8 word) j \<longleftrightarrow> j = 7"
proof -
  have "(0x80 :: 8 word) = push_bit 7 1"
    by simp
  then show ?thesis
    unfolding \<open>0x80 = push_bit 7 1\<close> by (subst bit_push_bit_iff) (auto simp: bit_1_iff)
qed

declare bit_numeral_word_iff [simp del]

lemma byte_eq_iff: "x = (y :: 8 word) \<longleftrightarrow> (\<forall>j<8. bit x j = bit y j)"
  by (auto intro: bit_word_eqI)

lemma byte_of_sign: "byte_of (Suc m) v = sign_byte b \<longleftrightarrow> (\<forall>j<8. bit v (8 * m + j) = b)"
  by (auto simp: byte_eq_iff bit_byte_of sign_byte_def bit_ff)

lemma sign_bit: "x AND 0x80 = y AND (0x80 :: 8 word) \<longleftrightarrow> bit x 7 = bit y 7"
  by (auto simp: byte_eq_iff bit_and_iff bit_80 dest: spec [of _ 7])

declare skip_bytes.simps [simp del]

lemma skip_bytes_spec:
  assumes "1 \<le> n"
  shows "1 \<le> skip_bytes f n v \<and> skip_bytes f n v \<le> n \<and>
    (\<forall>m. skip_bytes f n v < m \<and> m \<le> n \<longrightarrow> byte_of m v = f) \<and>
    (skip_bytes f n v = 1 \<or> byte_of (skip_bytes f n v) v \<noteq> f)"
  using assms
proof (induction f n v rule: skip_bytes.induct)
  case (1 f n v)
  show ?case
  proof (cases "1 < n \<and> byte_of n v = f")
    case True
    define k where "k = skip_bytes f (n - 1) v"
    have k: "skip_bytes f n v = k"
      unfolding k_def using True by (subst skip_bytes.simps) simp
    have n: "1 \<le> n - 1"
      using True by linarith
    have IH: "1 \<le> k" "k \<le> n - 1" "\<And>m. k < m \<Longrightarrow> m \<le> n - 1 \<Longrightarrow> byte_of m v = f" "k = 1 \<or> byte_of k v \<noteq> f"
      using 1(1) [folded k_def] True n by auto
    have "byte_of m v = f" if "k < m" "m \<le> n" for m
      using IH(3) [of m] that True by (cases "m = n") auto
    then show ?thesis
      unfolding k using IH True by auto
  next
    case False
    then have "skip_bytes f n v = n"
      by (subst skip_bytes.simps) auto
    then show ?thesis
      using False 1(2) by auto
  qed
qed


lemma fits_bit:
  assumes "fits_bytes m v" "8 * m \<le> Suc i" "i < 64"
  shows "bit v i = bit v 63"
proof -
  have "8 * m - 1 \<le> i"
    using assms(2) by linarith
  then show ?thesis
    using assms(1,3) unfolding fits_bytes_def by blast
qed

lemma high_byte: "byte_of 8 v = sign_byte b \<longleftrightarrow> (\<forall>j<8. bit v (56 + j) = b)"
  using byte_of_sign [of 7 v b] by (simp only: Suc_numeral numeral_times_numeral semiring_norm)

lemma high_byte_sign: "byte_of 8 v = 0xFF \<or> byte_of 8 v = 0 \<longleftrightarrow> byte_of 8 v = sign_byte (bit v 63)"
proof -
  have "bit v 63 = b" if "byte_of 8 v = sign_byte b" for b
    using that [unfolded high_byte] spec [of "\<lambda>j. j < 8 \<longrightarrow> bit v (56 + j) = b" 7] by simp
  from this [of True] this [of False] show ?thesis
    by (auto simp: sign_byte_def)
qed

lemma sign_byte_7: "bit (sign_byte b) 7 = b"
  by (simp add: sign_byte_def bit_ff)

lemma bytes_when_encoded_spec:
  "fits_bytes (bytes_when_encoded v) v \<and> bytes_when_encoded v \<le> 8 \<and> (\<forall>m < bytes_when_encoded v. \<not> fits_bytes m v)"
proof (cases "byte_of 8 v = sign_byte (bit v 63)")
  case False
  then have n: "bytes_when_encoded v = 8"
    using high_byte_sign [of v] by (simp add: bytes_when_encoded_def Let_def)
  have "\<not> fits_bytes m v" if "m < 8" for m
  proof
    assume m: "fits_bytes m v"
    have "bit v (56 + j) = bit v 63" if "j < 8" for j
      using \<open>m < 8\<close> that by (intro fits_bit [OF m]) linarith+
    then show False
      using False high_byte [of v "bit v 63"] by blast
  qed
  moreover have "fits_bytes 8 v"
    unfolding fits_bytes_def
  proof (intro conjI allI impI)
    fix i :: nat assume "8 * 8 - 1 \<le> i \<and> i < 64"
    then have "i = 63" by linarith
    then show "bit v i = bit v 63" by simp
  qed simp
  ultimately show ?thesis
    by (simp add: n)
next
  case True
  define b where "b = bit v 63"
  define n where "n = skip_bytes (sign_byte b) 7 v"
  have n: "1 \<le> n" "n \<le> 7" "\<And>m. n < m \<Longrightarrow> m \<le> 7 \<Longrightarrow> byte_of m v = sign_byte b" "n = 1 \<or> byte_of n v \<noteq> sign_byte b"
    using skip_bytes_spec [of 7 "sign_byte b" v] by (auto simp: n_def)
  have above: "bit v i = b" if "8 * n \<le> i" "i < 64" for i
  proof -
    define m where "m = i div 8"
    have m: "n \<le> m" "m \<le> 7" "i = 8 * m + i mod 8"
      using that by (auto simp: m_def)
    have "byte_of (Suc m) v = sign_byte b"
      using n(3) [of "Suc m"] m True by (cases "m = 7") (auto simp: b_def)
    then have "bit v (8 * m + i mod 8) = b"
      unfolding byte_of_sign by simp
    then show ?thesis
      using m(3) by simp
  qed
  have top: "bit (byte_of n v) 7 = bit v (8 * n - 1)"
    using n(1) bit_byte_of [of "n - 1" v 7] by (simp add: algebra_simps)
  have first: "byte_of 8 v = sign_byte b"
    using True by (simp only: b_def)
  have "byte_of 8 v = 0xFF \<or> byte_of 8 v = 0"
    using True high_byte_sign [of v] by blast
  then have "bytes_when_encoded v = (if sign_byte b AND 0x80 \<noteq> byte_of n v AND 0x80 then n + 1 else n)"
    unfolding bytes_when_encoded_def Let_def first n_def by (rule if_P)
  then have enc: "bytes_when_encoded v = (if bit v (8 * n - 1) = b then n else n + 1)"
    unfolding sign_bit top sign_byte_7 by (cases "bit v (8 * n - 1) = b") auto
  show ?thesis
  proof (cases "bit v (8 * n - 1) = b")
    case True
    have "fits_bytes n v"
      unfolding fits_bytes_def
    proof (intro conjI allI impI)
      fix i assume "8 * n - 1 \<le> i \<and> i < 64"
      then consider "i = 8 * n - 1" | "8 * n \<le> i" "i < 64"
        by linarith
      then show "bit v i = bit v 63"
        using above True unfolding b_def by cases blast+
    qed (rule n)
    moreover have "\<not> fits_bytes m v" if "m < n" for m
    proof
      assume m: "fits_bytes m v"
      then have "1 \<le> m" by (simp add: fits_bytes_def)
      have "bit v (8 * (n - 1) + j) = b" if "j < 8" for j
        using \<open>m < n\<close> n(2) that unfolding b_def by (intro fits_bit [OF m]) linarith+
      then have "byte_of n v = sign_byte b"
        using byte_of_sign [of "n - 1" v b] n(1) by simp
      then show False
        using n(4) \<open>1 \<le> m\<close> \<open>m < n\<close> by simp
    qed
    ultimately show ?thesis
      using enc True n(2) by simp
  next
    case False
    have "fits_bytes (n + 1) v"
      unfolding fits_bytes_def
    proof (intro conjI allI impI)
      fix i :: nat assume "8 * (n + 1) - 1 \<le> i \<and> i < 64"
      then have "8 * n \<le> i" "i < 64"
        by auto
      then show "bit v i = bit v 63"
        using above unfolding b_def by blast
    qed simp
    moreover have "\<not> fits_bytes m v" if "m < n + 1" for m
    proof
      assume m: "fits_bytes m v"
      have "bit v (8 * n - 1) = b"
        using that n(1,2) unfolding b_def by (intro fits_bit [OF m]) linarith+
      then show False
        using False by simp
    qed
    ultimately show ?thesis
      using enc False n(2) by simp
  qed
qed

text \<open>Reading the bytes: each gives its bits, and the padding the sign.\<close>

lemma bit_fold_bytes:
  "bit (fold (\<lambda>b val. push_bit 8 val OR ucast b) (bs :: bytes) (0 :: 64 word)) i \<longleftrightarrow>
     i < 64 \<and> i div 8 < length bs \<and> bit (rev bs ! (i div 8)) (i mod 8)"
proof (induction bs arbitrary: i rule: rev_induct)
  case (snoc b bs)
  have step: "bit (fold (\<lambda>b val. push_bit 8 val OR ucast b) (bs @ [b]) (0 :: 64 word)) i \<longleftrightarrow>
      8 \<le> i \<and> i < 64 \<and> bit (fold (\<lambda>b val. push_bit 8 val OR ucast b) bs (0 :: 64 word)) (i - 8) \<or> i < 64 \<and> bit b i"
    by (auto simp: bit_or_iff bit_push_bit_iff bit_ucast_iff)
  show ?case
  proof (cases "i < 8")
    case True
    then show ?thesis
      unfolding step by auto
  next
    case False
    then have i: "i div 8 = Suc ((i - 8) div 8)" "(i - 8) mod 8 = i mod 8"
      by (auto simp: div_if mod_if [of i 8])
    have "\<not> bit b i"
      using False bit_imp_le_length [of b i] by auto
    then show ?thesis
      unfolding step snoc.IH using False by (auto simp: i)
  qed
qed simp

lemma bit_pad_sign:
  assumes "k \<le> 8"
  shows "bit (pad_sign k v) i \<longleftrightarrow> bit v i \<or> 8 * (8 - k) \<le> i \<and> i < 64"
  using assms
proof (induction k)
  case 0
  then show ?case
    by (auto simp: pad_sign_def)
next
  case (Suc k)
  define m where "m = 8 * (8 - Suc k)"
  have step: "pad_sign (Suc k) v = pad_sign k v OR push_bit m 0xFF"
    by (simp add: pad_sign_def m_def mult.commute)
  have "(0xFF :: 64 word) = mask 8"
    by (simp add: mask_eq_exp_minus_1)
  then have byte: "bit (push_bit m (0xFF :: 64 word)) i \<longleftrightarrow> m \<le> i \<and> i < 64 \<and> i - m < 8"
    unfolding \<open>0xFF = mask 8\<close> by (auto simp: bit_push_bit_iff bit_mask_iff)
  have "8 * (8 - k) = m + 8"
    unfolding m_def using Suc.prems by linarith
  then have IH: "bit (pad_sign k v) i \<longleftrightarrow> bit v i \<or> m + 8 \<le> i \<and> i < 64"
    using Suc by simp
  have "m + 8 \<le> i \<and> i < 64 \<or> m \<le> i \<and> i < 64 \<and> i - m < 8 \<longleftrightarrow> m \<le> i \<and> i < 64"
    by linarith
  then show ?case
    unfolding step bit_or_iff byte IH m_def [symmetric] by blast
qed

lemma be_bytes_simps [simp]:
  "be_bytes n v \<noteq> [] \<longleftrightarrow> n \<noteq> 0" "1 \<le> n \<Longrightarrow> hd (be_bytes n v) = byte_of n v"
  "j < n \<Longrightarrow> rev (be_bytes n v) ! j = byte_of (Suc j) v"
  by (auto simp: be_bytes_def rev_map hd_map hd_rev)

lemma number_value_be_bytes:
  assumes "fits_bytes n v" "n \<le> 8"
  shows "number_value (be_bytes n v) = v"
proof (rule bit_word_eqI)
  fix i assume "i < LENGTH(64)"
  then have i: "i < 64" by simp
  have n: "1 \<le> n"
    using assms(1) by (simp add: fits_bytes_def)
  define low where "low = fold (\<lambda>b val. push_bit 8 val OR ucast b) (be_bytes n v) (0 :: 64 word)"
  have low: "bit low i \<longleftrightarrow> i < 8 * n \<and> bit v i"
    using i by (auto simp: low_def bit_fold_bytes bit_byte_of)
  have "bit (byte_of n v) 7 = bit v (8 * n - 1)"
    using n bit_byte_of [of "n - 1" v 7] by (simp add: algebra_simps)
  moreover have "bit v (8 * n - 1) = bit v 63"
    using assms n by (intro fits_bit [OF assms(1)]) auto
  moreover have "hd (be_bytes n v) AND 0x80 = 0x80 \<longleftrightarrow> bit (byte_of n v) 7"
    using n sign_bit [of "byte_of n v" "0x80"] by (simp add: bit_80)
  ultimately have val: "number_value (be_bytes n v) = (if bit v 63 then pad_sign (8 - n) low else low)"
    using n by (simp add: number_value_def low_def Let_def)
  have high: "bit v i = bit v 63" if "8 * n \<le> i"
    using that i by (intro fits_bit [OF assms(1)]) auto
  show "bit (number_value (be_bytes n v)) i = bit v i"
    using i assms(2) low high unfolding val by (cases "i < 8 * n") (auto simp: bit_pad_sign)
qed

section \<open>The order of members\<close>

lemma cfdata_less_iff: "cfdata_less a b \<longleftrightarrow> a < b"
proof (induction a b rule: cfdata_less.induct)
  case (2 bs)
  then show ?case by (cases bs) simp_all
qed simp_all

lemma insert_element_insort: "insert_element x ys = insort x ys"
  by (induction ys) (auto simp: cfdata_less_iff)

lemma sort_elements_sort: "sort_elements xs = sort xs"
proof -
  have "insert_element = insort"
    by (simp add: fun_eq_iff insert_element_insort)
  then show ?thesis
    by (simp add: sort_elements_def sort_key_def)
qed

lemma sort_elements_mset: "mset xs = mset ys \<Longrightarrow> sort_elements xs = sort_elements ys"
  unfolding sort_elements_sort by (intro properties_for_sort) simp_all

lemma sort_map_fst: "sort (map fst ps) = map fst (sort_key fst ps)"
proof (rule properties_for_sort)
  show "mset (map fst (sort_key fst ps)) = mset (map fst ps)"
    by (metis mset_map mset_sort)
qed simp

text \<open>The elements that a dictionary or a set contributes, one by one.\<close>

definition entry_element :: "('z) der_env_scheme \<Rightarrow> bool \<Rightarrow> plist \<times> plist \<Rightarrow> bytes option" where
  "entry_element env repair kv =
     (case add_sequence_to_array env repair [kv] of Some [e] \<Rightarrow> Some e | _ \<Rightarrow> None)"

definition member_element :: "('z) der_env_scheme \<Rightarrow> bool \<Rightarrow> plist \<Rightarrow> bytes option" where
  "member_element env repair v =
     (case add_value_to_array env repair [v] of Some [e] \<Rightarrow> Some e | _ \<Rightarrow> None)"

lemma add_sequence_those: "add_sequence_to_array env repair kvs = those (map (entry_element env repair) kvs)"
  by (induction kvs) (auto simp: entry_element_def Let_def split: option.split prod.split)

lemma add_value_those: "add_value_to_array env repair vs = those (map (member_element env repair) vs)"
  by (induction vs) (auto simp: member_element_def Let_def split: option.split prod.split)

lemma those_None: "those xs = None \<longleftrightarrow> None \<in> set xs"
  by (induction xs) (auto split: option.splits)

lemma those_Some: "those xs = Some ys \<longleftrightarrow> xs = map Some ys"
  by (induction xs arbitrary: ys) (auto split: option.splits simp: Cons_eq_map_conv)

lemma those_mset:
  assumes "mset xs = mset ys" "those xs = Some us"
  shows "\<exists>vs. those ys = Some vs \<and> mset us = mset vs"
proof -
  have us: "xs = map Some us"
    using assms(2) by (simp add: those_Some)
  then have "set ys = Some ` set us"
    using assms(1) by (metis list.set_map set_mset_mset)
  then obtain vs where vs: "those ys = Some vs"
    using those_None [of ys] by (cases "those ys") auto
  then have "mset (map Some us) = mset (map Some vs)"
    using assms(1) us by (simp add: those_Some)
  then have "mset (map the (map Some us)) = mset (map the (map Some vs))"
    by (metis mset_map)
  then have "mset us = mset vs"
    by (simp only: map_map comp_def option.sel map_ident)
  then show ?thesis
    using vs by blast
qed

lemma those_mset_None: "mset xs = mset ys \<Longrightarrow> those xs = None \<Longrightarrow> those ys = None"
  unfolding those_None by (metis set_mset_mset)

lemma encode_elements_perm:
  assumes "mset xs = mset ys"
  shows "(case those (map f xs) of None \<Rightarrow> None | Some es \<Rightarrow> encode_elements env tag es b) =
    (case those (map f ys) of None \<Rightarrow> None | Some es \<Rightarrow> encode_elements env tag es b)"
proof -
  have perm: "mset (map f xs) = mset (map f ys)"
    using assms by simp
  show ?thesis
  proof (cases "those (map f xs)")
    case None
    then show ?thesis
      using those_mset_None [OF perm] by simp
  next
    case (Some us)
    then obtain vs where vs: "those (map f ys) = Some vs" "mset us = mset vs"
      using those_mset [OF perm] by blast
    have "sort_elements us = sort_elements vs"
      by (rule sort_elements_mset) (rule vs)
    then show ?thesis
      unfolding Some vs(1) by (simp only: option.case encode_elements_def)
  qed
qed

text \<open>The encoding does not depend on the order in which Core Foundation enumerates a dictionary or a set: every
  order gives the same bytes, or fails, in every buffer.\<close>

theorem der_encode_order:
  assumes "mset kvs = mset kvs'" "mset vs = mset vs'"
  shows "der_encode_plist_repair env repair (PL_Dictionary kvs) b = der_encode_plist_repair env repair (PL_Dictionary kvs') b \<and>
    der_encode_plist_repair env repair (PL_Set vs) b = der_encode_plist_repair env repair (PL_Set vs') b"
  by (simp add: add_sequence_those add_value_those encode_elements_perm [OF assms(1)] encode_elements_perm [OF assms(2)])

end
