(* ===== verification/Der_Codec.thy ===== *)
theory Der_Codec
  imports Der_Laws
begin

text \<open>
  The encoding of property lists, specified by concatenation: a value is its tag, its length and its body, the
  members of a dictionary or a set in the order of their bytes.  The encoder, which writes backwards into a buffer,
  is refined from the specification, and the decoder undoes it.
\<close>

unbundle bit_operations_syntax

section \<open>What is relied on\<close>

definition header :: "('z) der_env_scheme \<Rightarrow> ccder_tag \<Rightarrow> nat \<Rightarrow> bytes" where
  "header env tag n = the (cc_encode_tl env tag n (cc_sizeof env tag n))"

abbreviation size_limit :: nat where "size_limit \<equiv> 2 ^ 32"

text \<open>Corecrypto writes a tag and length, or a body, when there is room for it and says the size of the whole.\<close>

definition ccder_writes :: "('z) der_env_scheme \<Rightarrow> bool" where
  "ccder_writes env \<longleftrightarrow>
     (\<forall>w room. cc_encode_body env w room = (if length w \<le> room then Some w else None)) \<and>
     (\<forall>tag n. n < size_limit \<longrightarrow> header env tag n \<noteq> [] \<and> cc_sizeof env tag n = length (header env tag n) + n \<and>
        (\<forall>room. cc_encode_tl env tag n room = (if length (header env tag n) \<le> room then Some (header env tag n) else None) \<and>
           cc_encode_constructed_tl env tag n room = cc_encode_tl env tag n room))"

section \<open>Writing in front of a buffer\<close>

definition prepend :: "bytes \<Rightarrow> buf \<Rightarrow> buf" where
  "prepend w b =
     (case b of None \<Rightarrow> None | Some (room, out) \<Rightarrow> if length w \<le> room then Some (room - length w, w @ out) else None)"

lemma prepend_simps [simp]:
  "prepend w None = None" "prepend [] b = b" "prepend u (prepend w b) = prepend (u @ w) b"
  by (auto simp: prepend_def split: option.splits)

lemma put_prepend: "\<forall>room. f room = (if length w \<le> room then Some w else None) \<Longrightarrow> put f b = prepend w b"
  by (auto simp: put_def prepend_def split: option.split)

lemma put_body: "ccder_writes env \<Longrightarrow> put (cc_encode_body env w) b = prepend w b"
  by (rule put_prepend) (simp add: ccder_writes_def)

lemma put_header: "ccder_writes env \<Longrightarrow> n < size_limit \<Longrightarrow> put (cc_encode_tl env tag n) b = prepend (header env tag n) b"
  by (rule put_prepend) (simp add: ccder_writes_def)

lemma put_constructed_header:
  "ccder_writes env \<Longrightarrow> n < size_limit \<Longrightarrow> put (cc_encode_constructed_tl env tag n) b = prepend (header env tag n) b"
  by (rule put_prepend) (simp add: ccder_writes_def)

definition tlv :: "('z) der_env_scheme \<Rightarrow> ccder_tag \<Rightarrow> bytes \<Rightarrow> bytes" where
  "tlv env tag body = header env tag (length body) @ body"

lemma tlv_length: "length body \<le> length (tlv env tag body)"
  by (simp add: tlv_def)

lemma tlv_size:
  "ccder_writes env \<Longrightarrow> length body < size_limit \<Longrightarrow> cc_sizeof env tag (length body) = length (tlv env tag body) \<and> tlv env tag body \<noteq> []"
  by (simp add: ccder_writes_def tlv_def)

lemma encode_constructed_prepend:
  assumes "ccder_writes env" "length body < size_limit"
  shows "encode_constructed_tl env tag b (prepend body b) = prepend (tlv env tag body) b"
proof (cases b)
  case (Some x)
  obtain room out where b: "b = Some (room, out)"
    using Some by (cases x) simp
  show ?thesis
  proof (cases "length body \<le> room")
    case True
    have "prepend body b = Some (room - length body, body @ out)"
      using True by (simp add: b prepend_def)
    then have "encode_constructed_tl env tag b (prepend body b) = put (cc_encode_constructed_tl env tag (length body)) (prepend body b)"
      by (simp add: encode_constructed_tl_def b)
    then show ?thesis
      by (simp add: put_constructed_header [OF assms] tlv_def)
  next
    case False
    then show ?thesis
      by (simp add: b prepend_def encode_constructed_tl_def tlv_def)
  qed
qed (simp add: encode_constructed_tl_def)

lemma foldr_prepend: "foldr prepend ws b = prepend (concat ws) b"
  by (induction ws) simp_all

lemma encode_elements_prepend:
  assumes "ccder_writes env" "length (concat (sort es)) < size_limit"
  shows "encode_elements env tag es b = prepend (tlv env tag (concat (sort es))) b"
proof -
  have "(\<lambda>e b. put (cc_encode_body env e) b) = prepend"
    by (simp add: fun_eq_iff put_body [OF assms(1)])
  then show ?thesis
    unfolding encode_elements_def sort_elements_sort by (simp add: foldr_prepend encode_constructed_prepend [OF assms])
qed

section \<open>The specification\<close>

text \<open>A date of whole seconds that the calendar takes apart and puts together again, in its fourteen digits.\<close>

definition digits2 :: "int \<Rightarrow> bytes" where
  "digits2 v = [word_of_int (48 + v div 10), word_of_int (48 + v mod 10)]"

definition date_digits :: "int \<times> int \<times> int \<times> int \<times> int \<times> int \<Rightarrow> bytes" where
  "date_digits = (\<lambda>(year, month, day, hour, minute, second).
     concat (map digits2 [year div 100, year mod 100, month, day, hour, minute, second]) @ [90])"

definition whole_date :: "('z) der_env_scheme \<Rightarrow> real \<Rightarrow> bool" where
  "whole_date env t \<longleftrightarrow>
     (case cal_decompose env t of
        None \<Rightarrow> False
      | Some (year, month, day, hour, minute, second) \<Rightarrow>
          0 \<le> year \<and> year \<le> 9999 \<and> 0 \<le> hour \<and> 0 \<le> minute \<and> 0 \<le> second \<and>
          validateDateComponents year month day hour minute second \<and>
          cal_compose env year month day hour minute second = Some t) \<and>
     (case print_double env t of (str, dotoff) \<Rightarrow> int (length str) \<le> dotoff)"

definition date_body :: "('z) der_env_scheme \<Rightarrow> real \<Rightarrow> bytes" where
  "date_body env t = (case cal_decompose env t of None \<Rightarrow> [] | Some date \<Rightarrow> date_digits date)"

lemma encode_pair_prepend: "0 \<le> v \<Longrightarrow> ccder_encode_decimal_pair v b = prepend (digits2 v) b"
  by (auto simp: ccder_encode_decimal_pair_def prepend_def digits2_def signed_divide_int_def signed_modulo_int_def sgn_if split: option.split)

lemma encode_byte_prepend: "ccder_encode_byte x b = prepend [x] b"
  by (auto simp: ccder_encode_byte_def prepend_def split: option.split)

lemma encode_quad_prepend: "0 \<le> v \<Longrightarrow> ccder_encode_decimal_quad v b = prepend (digits2 (v div 100) @ digits2 (v mod 100)) b"
  by (simp add: ccder_encode_decimal_quad_def signed_divide_int_def signed_modulo_int_def sgn_if encode_pair_prepend)

lemma encode_date_prepend:
  assumes "whole_date env t"
  shows "der_sizeof_generalizedtime_body env t = length (date_body env t)"
    and "der_encode_generalizedtime_body_repair env t repair b = prepend (date_body env t) b"
proof -
  obtain year month day hour minute second where date: "cal_decompose env t = Some (year, month, day, hour, minute, second)"
    using assms by (auto simp: whole_date_def split: option.splits)
  have ranges: "0 \<le> year" "1 \<le> month" "1 \<le> day" "0 \<le> hour" "0 \<le> minute" "0 \<le> second"
    "validateDateComponents year month day hour minute second"
    using assms by (auto simp: whole_date_def date validateDateComponents_def)
  have whole: "ccder_sizeof_nanoseconds env t = 0" "ccder_encode_nanoseconds env t b = b" for b
    using assms by (auto simp: whole_date_def ccder_sizeof_nanoseconds_def ccder_encode_nanoseconds_def Let_def split: prod.splits)
  show "der_sizeof_generalizedtime_body env t = length (date_body env t)"
    by (simp add: der_sizeof_generalizedtime_body_def whole date_body_def date date_digits_def digits2_def)
  show "der_encode_generalizedtime_body_repair env t repair b = prepend (date_body env t) b"
    using ranges
    by (simp add: der_encode_generalizedtime_body_repair_def date whole encode_byte_prepend encode_pair_prepend encode_quad_prepend
        date_body_def date_digits_def)
qed

text \<open>The decoder reads the digits.\<close>

lemma decode_pair_digits:
  assumes "0 \<le> v" "v < 100"
  shows "der_decode_decimal_pair (Some (digits2 v @ ds)) = (v, Some ds)"
proof -
  have digit: "uint (word_of_int (48 + d) :: 8 word) = 48 + d" if "0 \<le> d" "d < 10" for d
    using that by (simp only: uint_word_of_int) simp
  have "uint (48 + word_of_int (v div 10) :: 8 word) = 48 + v div 10" "uint (48 + word_of_int (v mod 10) :: 8 word) = 48 + v mod 10"
    using digit [of "v div 10"] digit [of "v mod 10"] assms by auto
  moreover have "\<not> v mod 10 < 0" "\<not> 9 < v mod 10" "\<not> v div 10 < 0" "\<not> 9 < v div 10"
    using assms by presburger+
  ultimately show ?thesis
    by (simp add: der_decode_decimal_pair_def der_decode_decimal_def digits2_def)
qed

lemma decode_fraction_none: "der_decode_decimal_fraction (Some (90 # ds)) = (0, Some (90 # ds))"
  by (simp add: der_decode_decimal_fraction_def)

lemma decode_zulu: "der_decode_timezone_offset (Some (90 # ds)) = (Some 0, Some ds)"
  by (simp add: der_decode_timezone_offset_def)

lemma decode_date_body:
  assumes "whole_date env t"
  shows "der_decode_generalizedtime_body env (Some (date_body env t)) = Some t"
proof -
  obtain year month day hour minute second where date: "cal_decompose env t = Some (year, month, day, hour, minute, second)"
    using assms by (auto simp: whole_date_def split: option.splits)
  have valid: "validateDateComponents year month day hour minute second" "cal_compose env year month day hour minute second = Some t"
    using assms by (simp_all add: whole_date_def date)
  have ranges: "0 \<le> year div 100" "year div 100 < 100" "0 \<le> month" "month < 100" "0 \<le> day" "day < 100" "0 \<le> hour" "hour < 100"
    "0 \<le> minute" "minute < 100" "0 \<le> second" "second < 100"
    using assms by (auto simp: whole_date_def date validateDateComponents_def)
  show ?thesis
    by (simp add: date_body_def date date_digits_def der_decode_generalizedtime_body_def der_decode_commontime_body_def Let_def
        decode_pair_digits ranges decode_fraction_none decode_zulu SecGregorianDateGetAbsoluteTime_def valid)
qed

function (sequential) der_spec :: "('z) der_env_scheme \<Rightarrow> plist \<Rightarrow> bytes"
and member_specs :: "('z) der_env_scheme \<Rightarrow> plist list \<Rightarrow> bytes list"
and entry_specs :: "('z) der_env_scheme \<Rightarrow> (plist \<times> plist) list \<Rightarrow> bytes list" where
  "der_spec env PL_Null = tlv env CCDER_NULL []"
| "der_spec env (PL_Boolean v) = tlv env CCDER_BOOLEAN [if v then 1 else 0]"
| "der_spec env (PL_Data d) = tlv env CCDER_OCTET_STRING d"
| "der_spec env (PL_Date t) = tlv env CCDER_GENERALIZED_TIME (date_body env t)"
| "der_spec env (PL_String s) = tlv env CCDER_UTF8_STRING s"
| "der_spec env (PL_Number (Some v)) = tlv env CCDER_INTEGER (be_bytes (bytes_when_encoded v) v)"
| "der_spec env (PL_Array vs) = tlv env CCDER_CONSTRUCTED_SEQUENCE (concat (member_specs env vs))"
| "der_spec env (PL_Dictionary kvs) = tlv env CCDER_CONSTRUCTED_SET (concat (sort (entry_specs env kvs)))"
| "der_spec env (PL_Set vs) = tlv env CCDER_CONSTRUCTED_CFSET (concat (sort (member_specs env vs)))"
| "der_spec env _ = []"
| "member_specs env [] = []"
| "member_specs env (v # vs) = der_spec env v # member_specs env vs"
| "entry_specs env [] = []"
| "entry_specs env ((k, v) # kvs) =
     tlv env CCDER_CONSTRUCTED_SEQUENCE (der_spec env k @ der_spec env v) # entry_specs env kvs"
  by pat_completeness auto

termination
  by (relation "measure (case_sum (\<lambda>(_, v). size v) (case_sum (\<lambda>(_, vs). size_list size vs)
      (\<lambda>(_, kvs). size_list (size_prod size size) kvs)))") simp_all

text \<open>The values that the coder supports as they are.\<close>

fun supported :: "('z) der_env_scheme \<Rightarrow> plist \<Rightarrow> bool" where
  "supported env (PL_Date t) \<longleftrightarrow> whole_date env t"
| "supported env (PL_String s) \<longleftrightarrow> utf8_valid env s"
| "supported env (PL_Number n) \<longleftrightarrow> n \<noteq> None"
| "supported env (PL_Array vs) \<longleftrightarrow> (\<forall>v\<in>set vs. supported env v)"
| "supported env (PL_Dictionary kvs) \<longleftrightarrow> (\<forall>kv\<in>set kvs. supported env (fst kv) \<and> supported env (snd kv))"
| "supported env (PL_Set vs) \<longleftrightarrow> (\<forall>v\<in>set vs. supported env v)"
| "supported env PL_Other \<longleftrightarrow> False"
| "supported env _ \<longleftrightarrow> True"

section \<open>The encoder meets the specification\<close>

lemma length_concat_sort: "length (concat (sort xs)) = length (concat (xs :: 'a::linorder list list))"
proof -
  have "sum_list (map length (sort xs)) = sum_list (map length xs)"
    by (metis mset_map mset_sort sum_mset_sum_list)
  then show ?thesis
    by (simp add: length_concat)
qed

lemma encode_boolean_spec:
  assumes "ccder_writes env"
  shows "der_encode_boolean env v b = prepend (tlv env CCDER_BOOLEAN [if v then 1 else 0]) b"
  using put_header [OF assms, of 1 CCDER_BOOLEAN] by (simp add: der_encode_boolean_def put_body [OF assms] tlv_def)

lemma encode_data_spec:
  assumes "ccder_writes env" "length d < size_limit"
  shows "der_encode_data env d b = prepend (tlv env CCDER_OCTET_STRING d) b"
  by (simp add: der_encode_data_def put_body [OF assms(1)] put_header [OF assms] tlv_def)

lemma encode_string_spec:
  assumes "ccder_writes env" "length s < size_limit"
  shows "der_encode_string env s b = prepend (tlv env CCDER_UTF8_STRING s) b"
proof (cases b)
  case (Some x)
  obtain room out where x: "x = (room, out)"
    by (cases x)
  show ?thesis
    unfolding der_encode_string_def Some x put_body [OF assms(1)] put_header [OF assms]
    by (auto simp: tlv_def) (simp add: prepend_def)
qed (simp add: der_encode_string_def)

lemma encode_number_spec:
  assumes "ccder_writes env"
  shows "der_encode_number env (Some v) b = prepend (tlv env CCDER_INTEGER (be_bytes (bytes_when_encoded v) v)) b"
proof (cases b)
  case (Some x)
  obtain room out where x: "x = (room, out)"
    by (cases x)
  define n where "n = bytes_when_encoded v"
  have "n < size_limit"
    using bytes_when_encoded_spec [of v] by (simp add: n_def)
  note header = put_header [OF assms this]
  show ?thesis
  proof (cases "room < n")
    case True
    then show ?thesis
      by (simp add: der_encode_number_def Some x n_def [symmetric] tlv_def prepend_def)
  next
    case False
    then have "Some (room - n, put_bytes n v out) = prepend (be_bytes n v) b"
      by (simp add: Some x prepend_def put_bytes_eq)
    then have "der_encode_number env (Some v) b = put (cc_encode_tl env CCDER_INTEGER n) (prepend (be_bytes n v) b)"
      using False by (simp add: der_encode_number_def Some x n_def [symmetric])
    then show ?thesis
      by (simp add: header n_def [symmetric] tlv_def)
  qed
qed (simp add: der_encode_number_def)

lemma encode_null_spec:
  assumes "ccder_writes env"
  shows "der_encode_null env b = prepend (tlv env CCDER_NULL []) b"
  using put_header [OF assms, of 0 CCDER_NULL] by (simp add: der_encode_null_def tlv_def)

lemma encode_date_spec:
  assumes "ccder_writes env" "whole_date env t" "length (date_body env t) < size_limit"
  shows "der_encode_date_repair env t repair b = prepend (tlv env CCDER_GENERALIZED_TIME (date_body env t)) b"
  by (simp add: der_encode_date_repair_def encode_date_prepend [OF assms(2)] encode_constructed_prepend [OF assms(1,3)])

lemma tlv_limit: "length (tlv env tag body) < size_limit \<Longrightarrow> length body < size_limit"
  using tlv_length [of body env tag] by linarith

lemma prepend_exact: "prepend w (Some (length w, [])) = Some (0, w)"
  by (simp add: prepend_def)

definition encodes :: "('z) der_env_scheme \<Rightarrow> plist \<Rightarrow> bool" where
  "encodes env v \<longleftrightarrow>
     der_sizeof_plist env v = length (der_spec env v) \<and> der_spec env v \<noteq> [] \<and>
     (\<forall>repair b. der_encode_plist_repair env repair v b = prepend (der_spec env v) b)"

definition encodes_members :: "('z) der_env_scheme \<Rightarrow> plist list \<Rightarrow> bool" where
  "encodes_members env vs \<longleftrightarrow>
     (let w = concat (member_specs env vs)
      in der_sizeof_array env vs = length w \<and> der_sizeof_set env vs = Some (length w) \<and>
         (\<forall>repair b. der_encode_array env repair vs b = prepend w b) \<and>
         (\<forall>repair. add_value_to_array env repair vs = Some (member_specs env vs)))"

definition encodes_entries :: "('z) der_env_scheme \<Rightarrow> (plist \<times> plist) list \<Rightarrow> bool" where
  "encodes_entries env kvs \<longleftrightarrow>
     der_sizeof_dictionary env kvs = Some (length (concat (entry_specs env kvs))) \<and>
     (\<forall>repair. add_sequence_to_array env repair kvs = Some (entry_specs env kvs))"

text \<open>A value whose encoding is a tag, a length and a body.\<close>

lemma encodes_tlv:
  assumes "ccder_writes env" "length (der_spec env v) < size_limit"
    and "der_spec env v = tlv env tag body" "der_sizeof_plist env v = cc_sizeof env tag (length body)"
    and "length body < size_limit \<Longrightarrow> (\<And>repair b. der_encode_plist_repair env repair v b = prepend (tlv env tag body) b)"
  shows "encodes env v"
proof -
  have "length body < size_limit"
    using assms(2,3) tlv_limit by metis
  then show ?thesis
    using assms(3-5) tlv_size [OF assms(1), of body tag] by (simp add: encodes_def)
qed

lemma encode_spec:
  "ccder_writes env \<Longrightarrow> supported env v \<Longrightarrow> length (der_spec env v) < size_limit \<Longrightarrow> encodes env v"
  "ccder_writes env \<Longrightarrow> \<forall>v\<in>set vs. supported env v \<Longrightarrow> length (concat (member_specs env vs)) < size_limit \<Longrightarrow>
     encodes_members env vs"
  "ccder_writes env \<Longrightarrow> \<forall>kv\<in>set kvs. supported env (fst kv) \<and> supported env (snd kv) \<Longrightarrow>
     length (concat (entry_specs env kvs)) < size_limit \<Longrightarrow> encodes_entries env kvs"
proof (induction env v and env vs and env kvs rule: der_spec_member_specs_entry_specs.induct)
  case (1 env)
  then show ?case
    by (intro encodes_tlv [of _ _ CCDER_NULL "[]"]) (simp_all add: encode_null_spec)
next
  case (2 env v)
  then show ?case
    by (intro encodes_tlv [of _ _ CCDER_BOOLEAN "[if v then 1 else 0]"]) (simp_all add: encode_boolean_spec)
next
  case (3 env d)
  then show ?case
    by (intro encodes_tlv [of _ _ CCDER_OCTET_STRING d]) (simp_all add: encode_data_spec)
next
  case (4 env t)
  then show ?case
    by (intro encodes_tlv [of _ _ CCDER_GENERALIZED_TIME "date_body env t"])
      (simp_all add: encode_date_spec der_sizeof_date_def encode_date_prepend)
next
  case (5 env s)
  then show ?case
    by (intro encodes_tlv [of _ _ CCDER_UTF8_STRING s]) (simp_all add: encode_string_spec)
next
  case (6 env v)
  then show ?case
    by (intro encodes_tlv [of _ _ CCDER_INTEGER "be_bytes (bytes_when_encoded v) v"])
      (simp_all add: encode_number_spec der_sizeof_number_def)
next
  case (7 env vs)
  have limit: "length (concat (member_specs env vs)) < size_limit"
    using 7(4) tlv_limit by (metis der_spec.simps(7))
  then have members: "encodes_members env vs"
    using 7 by simp
  then show ?case
    using 7 limit
    by (intro encodes_tlv [of _ _ CCDER_CONSTRUCTED_SEQUENCE "concat (member_specs env vs)"])
      (simp_all add: encodes_members_def Let_def encode_constructed_prepend)
next
  case (8 env kvs)
  define es where "es = entry_specs env kvs"
  have limit: "length (concat (sort es)) < size_limit"
    using 8(4) tlv_limit unfolding es_def by (metis der_spec.simps(8))
  then have "encodes_entries env kvs"
    using 8 by (simp add: length_concat_sort es_def)
  then show ?case
    using 8 limit
    by (intro encodes_tlv [of _ _ CCDER_CONSTRUCTED_SET "concat (sort es)"])
      (simp_all add: encodes_entries_def encode_elements_prepend es_def length_concat_sort)
next
  case (9 env vs)
  define es where "es = member_specs env vs"
  have limit: "length (concat (sort es)) < size_limit"
    using 9(4) tlv_limit unfolding es_def by (metis der_spec.simps(9))
  then have "encodes_members env vs"
    using 9 by (simp add: length_concat_sort es_def)
  then show ?case
    using 9 limit
    by (intro encodes_tlv [of _ _ CCDER_CONSTRUCTED_CFSET "concat (sort es)"])
      (simp_all add: encodes_members_def Let_def encode_elements_prepend es_def length_concat_sort)
next
  case (11 env)
  then show ?case
    by (simp add: encodes_members_def)
next
  case (12 env v vs)
  then have v: "encodes env v" and vs: "encodes_members env vs"
    by simp_all
  from v have "der_sizeof_plist env v = length (der_spec env v)" "der_spec env v \<noteq> []"
    "\<And>repair b. der_encode_plist_repair env repair v b = prepend (der_spec env v) b"
    by (simp_all add: encodes_def)
  with vs show ?case
    by (simp add: encodes_members_def Let_def prepend_exact)
next
  case (13 env)
  then show ?case
    by (simp add: encodes_entries_def)
next
  case (14 env k v kvs)
  define body where "body = der_spec env k @ der_spec env v"
  have len: "length (der_spec env k) + length (der_spec env v) = length body"
    by (simp add: body_def)
  have limit: "length (tlv env CCDER_CONSTRUCTED_SEQUENCE body) < size_limit"
    using 14(6) by (simp add: body_def)
  then have body: "length body < size_limit"
    by (rule tlv_limit)
  then have "encodes env k" "encodes env v" "encodes_entries env kvs"
    using 14 by (simp_all add: body_def)
  then show ?case
    using tlv_size [OF 14(4) body, of CCDER_CONSTRUCTED_SEQUENCE] encode_constructed_prepend [OF 14(4) body]
    by (simp add: encodes_def encodes_entries_def Let_def len body_def [symmetric] prepend_exact)
qed simp_all

end
