(* ===== verification/Der_Roundtrip.thy ===== *)
theory Der_Roundtrip
  imports Der_Codec
begin

text \<open>
  The decoder of property lists undoes the encoder: what comes back is the value with its dictionaries and sets in
  the order of their encodings, and it encodes to the same bytes.  On any input the decoder stays in its region
  and returns when the stack is as deep as the region is long.
\<close>

section \<open>What is relied on\<close>

text \<open>Corecrypto reads the tags and lengths that it wrote.\<close>

definition ccder_reads :: "('z) der_env_scheme \<Rightarrow> bool" where
  "ccder_reads env \<longleftrightarrow>
     (\<forall>tag n rest. (\<forall>k. tag \<noteq> CCDER_OTHER k) \<longrightarrow> n < size_limit \<longrightarrow> n \<le> length rest \<longrightarrow>
        cc_decode_tag env (header env tag n @ rest) = Some tag \<and>
        cc_decode_tl env tag (header env tag n @ rest) = Some (n, rest) \<and>
        cc_decode_constructed_tl env tag (header env tag n @ rest) = Some (take n rest, drop n rest))"

lemma reads_tlv:
  assumes "ccder_reads env" "\<forall>k. tag \<noteq> CCDER_OTHER k" "length body < size_limit"
  shows "cc_decode_tag env (tlv env tag body @ rest) = Some tag"
    and "cc_decode_tl env tag (tlv env tag body @ rest) = Some (length body, body @ rest)"
    and "cc_decode_constructed_tl env tag (tlv env tag body @ rest) = Some (body, rest)"
  using assms unfolding ccder_reads_def tlv_def append_assoc by simp_all

section \<open>The values that come back\<close>

definition by_encoding :: "(bytes \<times> 'a) list \<Rightarrow> 'a list" where
  "by_encoding ps = map snd (sort_key fst ps)"

definition entry_spec :: "('z) der_env_scheme \<Rightarrow> plist \<times> plist \<Rightarrow> bytes" where
  "entry_spec env kv = tlv env CCDER_CONSTRUCTED_SEQUENCE (der_spec env (fst kv) @ der_spec env (snd kv))"

fun normal :: "('z) der_env_scheme \<Rightarrow> plist \<Rightarrow> plist" where
  "normal env (PL_Array vs) = PL_Array (map (normal env) vs)"
| "normal env (PL_Dictionary kvs) =
     PL_Dictionary (by_encoding (map (\<lambda>kv. (entry_spec env kv, (normal env (fst kv), normal env (snd kv)))) kvs))"
| "normal env (PL_Set vs) = PL_Set (by_encoding (map (\<lambda>v. (der_spec env v, normal env v)) vs))"
| "normal env v = v"

text \<open>Core Foundation tells the members apart.\<close>

definition separate :: "('z) plist_env_scheme \<Rightarrow> plist list \<Rightarrow> bool" where
  "separate env vs \<longleftrightarrow> distinct vs \<and> (\<forall>a\<in>set vs. \<forall>b\<in>set vs. cf_equal env a b \<longrightarrow> a = b)"

fun members_separate :: "('z) plist_env_scheme \<Rightarrow> plist \<Rightarrow> bool" where
  "members_separate env (PL_Array vs) \<longleftrightarrow> (\<forall>v\<in>set vs. members_separate env v)"
| "members_separate env (PL_Dictionary kvs) \<longleftrightarrow>
     separate env (map (normal env \<circ> fst) kvs) \<and> (\<forall>kv\<in>set kvs. members_separate env (fst kv) \<and> members_separate env (snd kv))"
| "members_separate env (PL_Set vs) \<longleftrightarrow> separate env (map (normal env) vs) \<and> (\<forall>v\<in>set vs. members_separate env v)"
| "members_separate env v \<longleftrightarrow> True"

lemma member_specs_map: "member_specs env vs = map (der_spec env) vs"
  by (induction vs) simp_all

lemma entry_specs_map: "entry_specs env kvs = map (entry_spec env) kvs"
  by (induction kvs) (auto simp: entry_spec_def)

lemma sort_by_encoding: "sort (map fst ps) = map fst (sort_key fst ps)"
  by (rule sort_map_fst)

lemma separate_mset: "separate env vs \<Longrightarrow> mset vs = mset ws \<Longrightarrow> separate env ws"
  unfolding separate_def by (metis mset_eq_imp_distinct_iff set_mset_mset)

lemma mset_by_encoding: "mset (by_encoding ps) = mset (map snd ps)"
  by (metis by_encoding_def mset_map mset_sort)

section \<open>Taking in members\<close>

lemma fold_add_member: "separate env (s @ vs) \<Longrightarrow> fold (add_member env) vs s = s @ vs"
proof (induction vs arbitrary: s)
  case (Cons v vs)
  have "\<not> list_ex (\<lambda>v'. cf_equal env v' v) s"
    using Cons.prems unfolding separate_def list_ex_iff by auto
  then have "add_member env v s = s @ [v]"
    by (simp add: add_member_def)
  then show ?case
    using Cons.IH [of "s @ [v]"] Cons.prems by simp
qed simp

lemma fold_add_entry: "separate env (map fst (d @ kvs)) \<Longrightarrow> fold (add_entry env) kvs d = d @ kvs"
proof (induction kvs arbitrary: d)
  case (Cons kv kvs)
  have "\<not> cf_equal env (fst x) (fst kv)" if "x \<in> set d" for x
  proof
    assume "cf_equal env (fst x) (fst kv)"
    moreover have "fst x \<in> set (map fst (d @ kv # kvs))" "fst kv \<in> set (map fst (d @ kv # kvs))"
      using that by simp_all
    ultimately have "fst x = fst kv"
      using Cons.prems unfolding separate_def by blast
    then show False
      using Cons.prems that unfolding separate_def by (metis (no_types) Un_iff distinct_append disjoint_iff image_eqI
          list.set_intros(1) list.set_map map_append)
  qed
  then have "\<not> list_ex (\<lambda>x. cf_equal env (fst x) (fst kv)) d"
    by (simp add: list_ex_iff)
  then have "add_entry env kv d = d @ [kv]"
    by (simp add: add_entry_def case_prod_unfold)
  then show ?case
    using Cons.IH [of "d @ [kv]"] Cons.prems by simp
qed simp

lemma fold_snoc: "fold (\<lambda>v vs. vs @ [v]) vs s = s @ vs"
  by (induction vs arbitrary: s) simp_all

text \<open>A decoder reads an encoding when it gives the value and leaves what follows.\<close>

definition reads :: "(bytes \<Rightarrow> ('a \<times> bytes) option option) \<Rightarrow> bytes \<Rightarrow> 'a \<Rightarrow> bool" where
  "reads f w x \<longleftrightarrow> w \<noteq> [] \<and> (\<forall>rest. f (w @ rest) = Some (Some (x, rest)))"

lemma decode_loop_reads:
  "\<forall>(w, x)\<in>set ps. reads f w x \<Longrightarrow> length (concat (map fst ps)) \<le> k \<Longrightarrow>
     decode_loop k f add s (concat (map fst ps)) = Some (Some (fold add (map snd ps) s))"
proof (induction ps arbitrary: k s)
  case Nil
  then show ?case by (cases k) simp_all
next
  case (Cons p ps)
  obtain w x where p: "p = (w, x)" by (cases p)
  then have w: "w \<noteq> []" "\<And>rest. f (w @ rest) = Some (Some (x, rest))"
    using Cons.prems(1) by (auto simp: reads_def)
  then obtain j where k: "k = Suc j"
    using Cons.prems(2) p by (cases k) auto
  have "length (concat (map fst ps)) \<le> j"
    using Cons.prems(2) w(1) p k by (cases w) auto
  then show ?case
    using Cons p w k by simp
qed

lemma decode_members_reads:
  assumes "ccder_reads env" "\<forall>k. tag \<noteq> CCDER_OTHER k" "length (concat (map fst ps)) < size_limit"
    and "\<forall>(w, x)\<in>set ps. reads f w x"
  shows "decode_members env tag f add wrap (tlv env tag (concat (map fst ps)) @ rest) =
    Some (Some (wrap (fold add (map snd ps) []), rest))"
  by (simp add: decode_members_def reads_tlv [OF assms(1-3)] decode_loop_reads [OF assms(4)])

lemma decode_key_value_reads:
  assumes "ccder_reads env" "length (entry_spec env kv) < size_limit" "entry_spec env kv \<noteq> []"
    and "reads f (der_spec env (fst kv)) k" "reads f (der_spec env (snd kv)) v"
  shows "reads (der_decode_key_value env f) (entry_spec env kv) (k, v)"
proof -
  have "length (der_spec env (fst kv) @ der_spec env (snd kv)) < size_limit"
    using assms(2) tlv_limit unfolding entry_spec_def by blast
  moreover have "f (der_spec env (snd kv)) = Some (Some (v, []))"
    using assms(5) append_Nil2 unfolding reads_def by metis
  ultimately show ?thesis
    using assms(3-5)
    by (simp add: reads_def der_decode_key_value_def entry_spec_def reads_tlv(3) [OF assms(1)])
qed

section \<open>The round trip\<close>

lemma tlv_step:
  assumes "ccder_writes env" "length (tlv env tag body) < size_limit" "length (tlv env tag body) \<le> n"
  shows "length body < size_limit \<and> tlv env tag body \<noteq> [] \<and> (\<exists>m. n = Suc m \<and> length body \<le> m)"
proof -
  have limit: "length body < size_limit"
    by (rule tlv_limit) (rule assms(2))
  then have "header env tag (length body) \<noteq> []"
    using assms(1) by (simp add: ccder_writes_def)
  then have "length body < length (tlv env tag body)"
    by (simp add: tlv_def)
  then show ?thesis
    using limit assms(3) by (cases n) auto
qed

lemma length_member: "w \<in> set ws \<Longrightarrow> length w \<le> length (concat ws)"
  by (induction ws) auto

lemma take_append_length [simp]: "take (length body) (body @ rest) = body" "drop (length body) (body @ rest) = rest"
  by simp_all

definition reads_all :: "nat \<Rightarrow> ('z) plist_env_scheme \<Rightarrow> plist \<Rightarrow> bool" where
  "reads_all n env v \<longleftrightarrow> reads (der_decode_plist n env) (der_spec env v) (normal env v)"

text \<open>A value without members: its tag, and what its decoder makes of the payload.\<close>

lemma reads_leaf:
  assumes "ccder_writes env" "ccder_reads env" "length (der_spec env v) < size_limit" "length (der_spec env v) \<le> n"
    and "der_spec env v = tlv env tag body" "normal env v = v" "\<forall>k. tag \<noteq> CCDER_OTHER k"
    and "\<And>m rest. length body < size_limit \<Longrightarrow> cc_decode_tag env (tlv env tag body @ rest) = Some tag \<Longrightarrow>
      cc_decode_tl env tag (tlv env tag body @ rest) = Some (length body, body @ rest) \<Longrightarrow>
      cc_decode_constructed_tl env tag (tlv env tag body @ rest) = Some (body, rest) \<Longrightarrow>
      der_decode_plist (Suc m) env (tlv env tag body @ rest) = Some (Some (v, rest))"
  shows "reads_all n env v"
proof -
  have step: "length body < size_limit \<and> tlv env tag body \<noteq> [] \<and> (\<exists>m. n = Suc m \<and> length body \<le> m)"
    by (rule tlv_step [OF assms(1)]) (use assms(3-5) in simp_all)
  then show ?thesis
    using assms(8) reads_tlv [OF assms(2,7)] unfolding reads_all_def reads_def assms(5,6) by blast
qed

lemma reads_number:
  assumes "ccder_writes env" "ccder_reads env" "length (der_spec env (PL_Number (Some v))) < size_limit"
    "length (der_spec env (PL_Number (Some v))) \<le> n"
  shows "reads_all n env (PL_Number (Some v))"
proof (rule reads_leaf [OF assms, of CCDER_INTEGER "be_bytes (bytes_when_encoded v) v"])
  fix m rest
  let ?body = "be_bytes (bytes_when_encoded v) v"
  assume "cc_decode_tag env (tlv env CCDER_INTEGER ?body @ rest) = Some CCDER_INTEGER"
    and "cc_decode_tl env CCDER_INTEGER (tlv env CCDER_INTEGER ?body @ rest) = Some (length ?body, ?body @ rest)"
  then show "der_decode_plist (Suc m) env (tlv env CCDER_INTEGER ?body @ rest) = Some (Some (PL_Number (Some v), rest))"
    using bytes_when_encoded_spec [of v] number_value_be_bytes [of "bytes_when_encoded v" v]
    by (simp add: leaf_def der_decode_number_def)
qed simp_all

lemma reads_date:
  assumes "ccder_writes env" "ccder_reads env" "length (der_spec env (PL_Date t)) < size_limit"
    "length (der_spec env (PL_Date t)) \<le> n" "whole_date env t"
  shows "reads_all n env (PL_Date t)"
  by (rule reads_leaf [OF assms(1-4), of CCDER_GENERALIZED_TIME "date_body env t"])
    (simp_all add: leaf_def der_decode_date_def decode_date_body [OF assms(5)])

lemma reads_simple:
  assumes "ccder_writes env" "ccder_reads env" "length (der_spec env v) < size_limit" "length (der_spec env v) \<le> n"
    and "supported env v" "case v of PL_Array vs \<Rightarrow> False | PL_Dictionary kvs \<Rightarrow> False | PL_Set vs \<Rightarrow> False | _ \<Rightarrow> True"
  shows "reads_all n env v"
proof (cases v)
  case PL_Null
  show ?thesis
    by (rule reads_leaf [OF assms(1-4), of CCDER_NULL "[]"]) (simp_all add: PL_Null leaf_def der_decode_null_def)
next
  case (PL_Boolean b)
  show ?thesis
    by (rule reads_leaf [OF assms(1-4), of CCDER_BOOLEAN "[if b then 1 else 0]"])
      (simp_all add: PL_Boolean leaf_def der_decode_boolean_def)
next
  case (PL_Data d)
  show ?thesis
    by (rule reads_leaf [OF assms(1-4), of CCDER_OCTET_STRING d]) (simp_all add: PL_Data leaf_def der_decode_data_def)
next
  case (PL_Date t)
  show ?thesis
    using reads_date assms(1-5) unfolding PL_Date by simp
next
  case (PL_String s)
  show ?thesis
    using assms(5)
    by (intro reads_leaf [OF assms(1-4), of CCDER_UTF8_STRING s])
      (simp_all add: PL_String leaf_def der_decode_string_def decode_string_def)
next
  case (PL_Number x)
  then show ?thesis
    using reads_number [OF assms(1,2), of _ n] assms(3-5) by (cases x) auto
qed (use assms(5,6) in simp_all)

text \<open>A value with members: its body is their encodings, in the order of the array or of the bytes.\<close>

lemma reads_members:
  assumes "ccder_writes env" "ccder_reads env" "length (der_spec env v) < size_limit" "length (der_spec env v) \<le> n"
    and "der_spec env v = tlv env tag (concat (map fst ps))" "\<forall>k. tag \<noteq> CCDER_OTHER k"
    and "\<And>m rest. cc_decode_tag env (tlv env tag (concat (map fst ps)) @ rest) = Some tag \<Longrightarrow>
      der_decode_plist (Suc m) env (tlv env tag (concat (map fst ps)) @ rest) =
      decode_members env tag (f m) add wrap (tlv env tag (concat (map fst ps)) @ rest)"
    and "\<And>m w x. length (concat (map fst ps)) < size_limit \<Longrightarrow> length (concat (map fst ps)) \<le> m \<Longrightarrow> (w, x) \<in> set ps \<Longrightarrow> reads (f m) w x"
    and "wrap (fold add (map snd ps) []) = normal env v"
  shows "reads_all n env v"
proof -
  define body where "body = concat (map fst ps)"
  have "length body < size_limit \<and> tlv env tag body \<noteq> [] \<and> (\<exists>m. n = Suc m \<and> length body \<le> m)"
    by (rule tlv_step [OF assms(1)]) (use assms(3-5) in \<open>simp_all add: body_def\<close>)
  then obtain m where n: "n = Suc m" "length body \<le> m" and body: "length body < size_limit" "tlv env tag body \<noteq> []"
    by blast
  have "\<forall>(w, x)\<in>set ps. reads (f m) w x"
    using assms(8) [of m] body n by (auto simp: body_def)
  then have "decode_members env tag (f m) add wrap (tlv env tag body @ rest) = Some (Some (normal env v, rest))" for rest
    using decode_members_reads [OF assms(2,6)] body assms(9) unfolding body_def by metis
  moreover have "cc_decode_tag env (tlv env tag body @ rest) = Some tag" for rest
    by (rule reads_tlv [OF assms(2,6) body(1)])
  ultimately show ?thesis
    using assms(7) [of _ m] body(2) unfolding reads_all_def reads_def assms(5) n(1) body_def by metis
qed

lemma mset_map_sort: "mset (map f (sort_key k xs)) = mset (map f xs)"
  by (simp only: mset_map mset_sort)

lemma set_sorted [simp]: "set (sort_key f xs) = set xs"
  by (rule set_sort)

lemma decode_spec:
  "ccder_writes env \<Longrightarrow> ccder_reads env \<Longrightarrow> supported env v \<Longrightarrow> members_separate env v \<Longrightarrow>
     length (der_spec env v) < size_limit \<Longrightarrow> length (der_spec env v) \<le> n \<Longrightarrow> reads_all n env v"
proof (induction env v arbitrary: n rule: normal.induct)
  case (1 env vs)
  define ps where "ps = map (\<lambda>v. (der_spec env v, normal env v)) vs"
  have spec: "der_spec env (PL_Array vs) = tlv env CCDER_CONSTRUCTED_SEQUENCE (concat (map fst ps))"
    by (simp add: ps_def member_specs_map comp_def)
  show ?case
  proof (rule reads_members [where f = "\<lambda>m. der_decode_plist m env" and add = "\<lambda>v vs. vs @ [v]" and wrap = PL_Array, OF 1(2,3) 1(6,7) spec])
    fix m w x
    assume limits: "length (concat (map fst ps)) < size_limit" "length (concat (map fst ps)) \<le> m" and mem: "(w, x) \<in> set ps"
    from mem obtain v where v: "v \<in> set vs" "w = der_spec env v" "x = normal env v"
      by (auto simp: ps_def)
    have "w \<in> set (map fst ps)"
      using mem by force
    then have "length w \<le> length (concat (map fst ps))"
      by (rule length_member)
    then have "reads_all m env v"
      using 1(1) [OF v(1)] 1(2-5) limits v by simp
    then show "reads (der_decode_plist m env) w x"
      by (simp add: reads_all_def v)
  qed (simp_all add: der_decode_array_def fold_snoc ps_def comp_def)
next
  case (2 env kvs)
  define ps where "ps = sort_key fst (map (\<lambda>kv. (entry_spec env kv, (normal env (fst kv), normal env (snd kv)))) kvs)"
  have "map (entry_spec env) kvs = map fst (map (\<lambda>kv. (entry_spec env kv, (normal env (fst kv), normal env (snd kv)))) kvs)"
    by (simp add: comp_def)
  then have spec: "der_spec env (PL_Dictionary kvs) = tlv env CCDER_CONSTRUCTED_SET (concat (map fst ps))"
    unfolding der_spec.simps entry_specs_map ps_def by (simp only: sort_by_encoding)
  have normal: "normal env (PL_Dictionary kvs) = PL_Dictionary (map snd ps)"
    by (simp add: by_encoding_def ps_def)
  have "mset (map (normal env \<circ> fst) kvs) = mset (map (fst \<circ> snd) ps)"
    by (simp add: ps_def mset_map_sort comp_def del: mset_map)
  then have "separate env (map fst (map snd ps))"
    using 2(6) separate_mset [of env "map (normal env \<circ> fst) kvs" "map (fst \<circ> snd) ps"] by simp
  then have fold: "fold (add_entry env) (map snd ps) [] = map snd ps"
    using fold_add_entry [of env "[]" "map snd ps"] by simp
  show ?case
  proof (rule reads_members [where f = "\<lambda>m. der_decode_key_value env (der_decode_plist m env)" and add = "add_entry env"
      and wrap = PL_Dictionary, OF 2(3,4) 2(7,8) spec])
    fix m w x
    assume limits: "length (concat (map fst ps)) < size_limit" "length (concat (map fst ps)) \<le> m" and mem: "(w, x) \<in> set ps"
    from mem obtain kv where kv: "kv \<in> set kvs" "w = entry_spec env kv" "x = (normal env (fst kv), normal env (snd kv))"
      by (auto simp: ps_def)
    have "w \<in> set (map fst ps)"
      using mem by force
    then have w: "length (entry_spec env kv) < size_limit" "length (entry_spec env kv) \<le> m"
      using length_member [of w "map fst ps"] limits kv(2) by auto
    then have step: "length (der_spec env (fst kv) @ der_spec env (snd kv)) < size_limit \<and> entry_spec env kv \<noteq> [] \<and>
      (\<exists>j. m = Suc j \<and> length (der_spec env (fst kv) @ der_spec env (snd kv)) \<le> j)"
      using tlv_step [OF 2(3)] unfolding entry_spec_def by blast
    have "reads_all m env (fst kv)"
      using 2(1) [OF kv(1)] 2(3-6) step kv(1) by auto
    moreover have "reads_all m env (snd kv)"
      using 2(2) [OF kv(1)] 2(3-6) step kv(1) by auto
    ultimately show "reads (der_decode_key_value env (der_decode_plist m env)) w x"
      unfolding kv(2,3) reads_all_def using decode_key_value_reads [OF 2(4)] w(1) step by blast
  qed (simp_all add: der_decode_dictionary_def fold normal del: normal.simps)
next
  case (3 env vs)
  define ps where "ps = sort_key fst (map (\<lambda>v. (der_spec env v, normal env v)) vs)"
  have "map (der_spec env) vs = map fst (map (\<lambda>v. (der_spec env v, normal env v)) vs)"
    by (simp add: comp_def)
  then have spec: "der_spec env (PL_Set vs) = tlv env CCDER_CONSTRUCTED_CFSET (concat (map fst ps))"
    unfolding der_spec.simps member_specs_map ps_def by (simp only: sort_by_encoding)
  have normal: "normal env (PL_Set vs) = PL_Set (map snd ps)"
    by (simp add: by_encoding_def ps_def)
  have "mset (map (normal env) vs) = mset (map snd ps)"
    by (simp add: ps_def mset_map_sort comp_def del: mset_map)
  then have "separate env (map snd ps)"
    using 3(5) separate_mset [of env "map (normal env) vs" "map snd ps"] by simp
  then have fold: "fold (add_member env) (map snd ps) [] = map snd ps"
    using fold_add_member [of env "[]" "map snd ps"] by simp
  show ?case
  proof (rule reads_members [where f = "\<lambda>m. der_decode_plist m env" and add = "add_member env" and wrap = PL_Set, OF 3(2,3) 3(6,7) spec])
    fix m w x
    assume limits: "length (concat (map fst ps)) < size_limit" "length (concat (map fst ps)) \<le> m" and mem: "(w, x) \<in> set ps"
    from mem obtain v where v: "v \<in> set vs" "w = der_spec env v" "x = normal env v"
      by (auto simp: ps_def)
    have "w \<in> set (map fst ps)"
      using mem by force
    then have "length w \<le> length (concat (map fst ps))"
      by (rule length_member)
    then have "reads_all m env v"
      using 3(1) [OF v(1)] 3(2-5) limits v by simp
    then show "reads (der_decode_plist m env) w x"
      by (simp add: reads_all_def v)
  qed (simp_all add: der_decode_set_def fold normal del: normal.simps)
qed (rule reads_simple; simp)+

end
