(* ===== verification/Der_Canonical.thy ===== *)
theory Der_Canonical
  imports Der_Roundtrip "HOL-Library.Sublist"
begin

text \<open>
  What the round trip of property lists needs besides (a value that came back encodes to the same bytes), the
  decoder on arbitrary input (it stays in its region and returns), and the shortest form of integers.
\<close>

unbundle bit_operations_syntax

section \<open>A value that came back encodes to the same bytes\<close>

lemma by_encoding_spec:
  assumes "\<And>w x. (w, x) \<in> set ps \<Longrightarrow> f x = w"
  shows "map f (by_encoding ps) = sort (map fst ps)"
proof -
  have "map (f \<circ> snd) (sort_key fst ps) = map fst (sort_key fst ps)"
    using assms by (intro map_cong refl) (auto simp: comp_def)
  then show ?thesis
    by (simp add: by_encoding_def sort_by_encoding)
qed

lemma set_by_encoding [simp]: "set (by_encoding ps) = snd ` set ps"
  by (simp add: by_encoding_def)

lemma sort_sort [simp]: "sort (sort xs) = sort xs"
  by (simp add: sort_key_id_if_sorted)

lemma der_spec_normal: "der_spec env (normal env v) = der_spec env v"
proof (induction env v rule: normal.induct)
  case (1 env vs)
  then show ?case
    by (simp add: member_specs_map cong: map_cong)
next
  case (2 env kvs)
  define ps where "ps = map (\<lambda>kv. (entry_spec env kv, (normal env (fst kv), normal env (snd kv)))) kvs"
  have "map (entry_spec env) (by_encoding ps) = sort (map fst ps)"
    using 2 by (intro by_encoding_spec) (auto simp: ps_def entry_spec_def)
  moreover have "map fst ps = map (entry_spec env) kvs"
    by (simp add: ps_def comp_def)
  ultimately show ?case
    by (simp add: entry_specs_map ps_def [symmetric])
next
  case (3 env vs)
  define ps where "ps = map (\<lambda>v. (der_spec env v, normal env v)) vs"
  have "map (der_spec env) (by_encoding ps) = sort (map fst ps)"
    using 3 by (intro by_encoding_spec) (auto simp: ps_def)
  moreover have "map fst ps = map (der_spec env) vs"
    by (simp add: ps_def comp_def)
  ultimately show ?case
    by (simp add: member_specs_map ps_def [symmetric])
qed simp_all

lemma supported_normal: "supported env v \<Longrightarrow> supported env (normal env v)"
  by (induction env v rule: normal.induct) auto

section \<open>The decoder on any input\<close>

text \<open>Corecrypto reads a header that is not empty from the front of the region.\<close>

definition ccder_consumes :: "('z) der_env_scheme \<Rightarrow> bool" where
  "ccder_consumes env \<longleftrightarrow>
     (\<forall>tag der n payload. cc_decode_tl env tag der = Some (n, payload) \<longrightarrow> strict_suffix payload der) \<and>
     (\<forall>tag der body rest. cc_decode_constructed_tl env tag der = Some (body, rest) \<longrightarrow> strict_suffix (body @ rest) der)"

definition returns_below :: "nat \<Rightarrow> (bytes \<Rightarrow> ('a \<times> bytes) option option) \<Rightarrow> bool" where
  "returns_below n f \<longleftrightarrow>
     (\<forall>der. length der < n \<longrightarrow> f der \<noteq> None \<and> (\<forall>x rest. f der = Some (Some (x, rest)) \<longrightarrow> strict_suffix rest der))"

lemma returns_belowD:
  assumes "returns_below n f" "length der < n"
  shows "f der \<noteq> None" "f der = Some (Some (x, rest)) \<Longrightarrow> strict_suffix rest der"
  using assms unfolding returns_below_def by blast+

lemma suffix_shorter: "strict_suffix (xs :: 'a list) ys \<Longrightarrow> length xs < length ys"
  by (auto simp: strict_suffix_def suffix_def)

lemma suffix_append: "suffix (xs @ ys) zs \<Longrightarrow> suffix ys zs"
  by (auto simp: suffix_def)

lemma suffix_drop_strict: "strict_suffix xs ys \<Longrightarrow> strict_suffix (drop n xs) ys"
  by (meson suffix_drop suffix_order.le_less_trans)

lemma strict_suffix_append: "strict_suffix (xs @ ys) zs \<Longrightarrow> strict_suffix ys zs"
  by (meson suffixI suffix_order.le_less_trans)

lemma decode_loop_returns:
  "returns_below n f \<Longrightarrow> length der < n \<Longrightarrow> length der \<le> k \<Longrightarrow> decode_loop k f add s der \<noteq> None"
proof (induction k arbitrary: s der)
  case (Suc k)
  have f: "f der \<noteq> None" "\<And>x rest. f der = Some (Some (x, rest)) \<Longrightarrow> length rest < length der"
    using returns_belowD [OF Suc.prems(1,2)] suffix_shorter by blast+
  show ?case
  proof (cases "der = [] \<or> f der = Some None")
    case False
    then obtain x rest where r: "f der = Some (Some (x, rest))"
      using f(1) by auto
    then show ?thesis
      using False Suc.IH [of rest] Suc.prems f(2) [OF r] by simp
  qed auto
qed auto

lemma decode_members_returns:
  assumes "ccder_consumes env" "returns_below n f"
  shows "returns_below (Suc n) (decode_members env tag f add wrap)"
proof -
  have "decode_members env tag f add wrap der \<noteq> None \<and>
    (\<forall>x rest. decode_members env tag f add wrap der = Some (Some (x, rest)) \<longrightarrow> strict_suffix rest der)"
    if der: "length der < Suc n" for der
  proof (cases "cc_decode_constructed_tl env tag der")
    case (Some r)
    obtain body rest where r: "r = (body, rest)"
      by (cases r)
    then have suf: "strict_suffix (body @ rest) der"
      using assms(1) Some by (auto simp: ccder_consumes_def)
    have "length body < n"
      using suffix_shorter [OF suf] der by simp
    then obtain vs where "decode_loop (length body) f add [] body = Some vs"
      using decode_loop_returns [OF assms(2), of body "length body" add "[]"] by auto
    then have "decode_members env tag f add wrap der = Some (map_option (\<lambda>vs. (wrap vs, rest)) vs)"
      by (simp add: decode_members_def Some r)
    then show ?thesis
      using strict_suffix_append [OF suf] by (cases vs) simp_all
  qed (simp add: decode_members_def)
  then show ?thesis
    by (simp add: returns_below_def)
qed

lemma decode_key_value_returns:
  assumes "ccder_consumes env" "returns_below n f"
  shows "returns_below n (der_decode_key_value env f)"
proof -
  have "der_decode_key_value env f der \<noteq> None \<and>
    (\<forall>x rest. der_decode_key_value env f der = Some (Some (x, rest)) \<longrightarrow> strict_suffix rest der)"
    if der: "length der < n" for der
  proof (cases "cc_decode_constructed_tl env CCDER_CONSTRUCTED_SEQUENCE der")
    case (Some r)
    obtain body rest where r: "r = (body, rest)"
      by (cases r)
    then have suf: "strict_suffix (body @ rest) der"
      using assms(1) Some by (auto simp: ccder_consumes_def)
    have body: "length body < n"
      using suffix_shorter [OF suf] der by simp
    note k = returns_belowD [OF assms(2) body]
    have v: "f p \<noteq> None" "\<And>v q. f p = Some (Some (v, q)) \<Longrightarrow> strict_suffix q p" if "strict_suffix p body" for p
      using returns_belowD [OF assms(2), of p] suffix_shorter [OF that] body by auto
    have front: "strict_suffix (q @ rest) der" if "strict_suffix q p" "strict_suffix p body" for p q
    proof -
      have "strict_suffix q body"
        using that by (rule suffix_order.less_trans)
      then obtain us where "body = us @ q"
        by (auto simp: strict_suffix_def elim: suffixE)
      then show ?thesis
        using suf strict_suffix_append [of us "q @ rest" der] by simp
    qed
    have "strict_suffix (q @ rest) der" if "f body = Some (Some (k, p))" "f p = Some (Some (v, q))" for k p v q
      using front v(2) k(2) that by blast
    note front = this
    obtain r where f: "f body = Some r"
      using k(1) by blast
    show ?thesis
    proof (cases r)
      case (Some kp)
      obtain k p where kp: "kp = (k, p)"
        by (cases kp)
      obtain r' where f': "f p = Some r'"
        using v(1) k(2) f Some kp by blast
      show ?thesis
        using front f f' Some kp by (cases r') (auto simp: der_decode_key_value_def \<open>cc_decode_constructed_tl _ _ _ = _\<close> r)
    qed (simp add: der_decode_key_value_def Some r f)
  qed (simp add: der_decode_key_value_def)
  then show ?thesis
    by (simp add: returns_below_def)
qed

lemma returns_mono: "returns_below n f \<Longrightarrow> m \<le> n \<Longrightarrow> returns_below m f"
  by (auto simp: returns_below_def)

definition goes_on :: "bytes \<Rightarrow> ('a \<times> bytes) option option \<Rightarrow> bool" where
  "goes_on der r \<longleftrightarrow> r \<noteq> None \<and> (\<forall>x rest. r = Some (Some (x, rest)) \<longrightarrow> strict_suffix rest der)"

lemma returns_below_iff: "returns_below n f \<longleftrightarrow> (\<forall>der. length der < n \<longrightarrow> goes_on der (f der))"
  by (simp add: returns_below_def goes_on_def)

text \<open>A value without members: whatever its decoder gives, it has read a header.\<close>

lemma returns_leaf: "(\<And>x rest. r = Some (x, rest) \<Longrightarrow> strict_suffix rest der) \<Longrightarrow> goes_on der (leaf g r)"
  by (auto simp: goes_on_def leaf_def)

lemma leaves_consume:
  assumes "ccder_consumes env"
  shows "der_decode_null env der = Some (u, rest) \<Longrightarrow> strict_suffix rest der"
    and "der_decode_boolean env der = Some (b, rest) \<Longrightarrow> strict_suffix rest der"
    and "der_decode_data env der = Some (d, rest) \<Longrightarrow> strict_suffix rest der"
    and "der_decode_core_entitlements_data env der = Some (d, rest) \<Longrightarrow> strict_suffix rest der"
    and "decode_string env tag der = Some (d, rest) \<Longrightarrow> strict_suffix rest der"
    and "der_decode_number env der = Some (v, rest) \<Longrightarrow> strict_suffix rest der"
    and "der_decode_date env der = Some (t, rest) \<Longrightarrow> strict_suffix rest der"
    and "der_decode_utc_time env der = Some (t, rest) \<Longrightarrow> strict_suffix rest der"
proof -
  have tl: "strict_suffix payload der" if "cc_decode_tl env tag der = Some (n, payload)" for tag n payload
    using assms that by (auto simp: ccder_consumes_def)
  have constructed: "strict_suffix rest der" if "cc_decode_constructed_tl env tag der = Some (body, rest)" for tag body rest
    using assms that strict_suffix_append unfolding ccder_consumes_def by blast
  note defs = der_decode_null_def der_decode_boolean_def der_decode_data_def der_decode_core_entitlements_data_def
    decode_string_def der_decode_number_def der_decode_date_def der_decode_utc_time_def
  show "der_decode_null env der = Some (u, rest) \<Longrightarrow> strict_suffix rest der"
    "der_decode_boolean env der = Some (b, rest) \<Longrightarrow> strict_suffix rest der"
    "der_decode_data env der = Some (d, rest) \<Longrightarrow> strict_suffix rest der"
    "der_decode_core_entitlements_data env der = Some (d, rest) \<Longrightarrow> strict_suffix rest der"
    "decode_string env tag der = Some (d, rest) \<Longrightarrow> strict_suffix rest der"
    "der_decode_number env der = Some (v, rest) \<Longrightarrow> strict_suffix rest der"
    "der_decode_date env der = Some (t, rest) \<Longrightarrow> strict_suffix rest der"
    "der_decode_utc_time env der = Some (t, rest) \<Longrightarrow> strict_suffix rest der"
    by (auto simp: defs dest: tl constructed intro: suffix_drop_strict split: option.splits prod.splits if_splits)
qed

lemma decode_plist_returns:
  assumes "ccder_consumes env"
  shows "returns_below n (der_decode_plist n env)"
proof (induction n)
  case 0
  then show ?case by (simp add: returns_below_def)
next
  case (Suc n)
  have members: "goes_on der (decode_members env tag (der_decode_plist n env) add wrap der)"
    "goes_on der (decode_members env tag (der_decode_key_value env (der_decode_plist n env)) add' wrap' der)"
    if "length der < Suc n" for der tag add wrap add' wrap'
    using that decode_members_returns [OF assms Suc] decode_members_returns [OF assms decode_key_value_returns [OF assms Suc]]
    unfolding returns_below_iff by blast+
  have leaves: "goes_on der (leaf g (der_decode_null env der))" "goes_on der (leaf g' (der_decode_boolean env der))"
    "goes_on der (leaf g'' (der_decode_data env der))" "goes_on der (leaf g'' (der_decode_core_entitlements_data env der))"
    "goes_on der (leaf g'' (decode_string env tag der))" "goes_on der (leaf h (der_decode_number env der))"
    "goes_on der (leaf h' (der_decode_date env der))" "goes_on der (leaf h' (der_decode_utc_time env der))"
    for der g g' g'' h h' tag
    using leaves_consume [OF assms] by (auto intro!: returns_leaf)
  have failed: "goes_on der (Some None :: (plist \<times> bytes) option option)" for der
    by (simp add: goes_on_def)
  have "goes_on der (der_decode_plist (Suc n) env der)" if der: "length der < Suc n" for der
  proof (cases "cc_decode_tag env der")
    case None
    then show ?thesis
      by (simp add: failed)
  next
    case (Some tag)
    then show ?thesis
      by (cases tag) (simp_all add: leaves members [OF der] failed der_decode_array_def der_decode_set_def
          der_decode_dictionary_def der_decode_string_def der_decode_numeric_string_def)
  qed
  then show ?case
    unfolding returns_below_iff by blast
qed

section \<open>Integers\<close>

text \<open>What is read from a payload fits its bytes.\<close>

lemma number_value_fits:
  assumes "payload \<noteq> []" "length payload \<le> 8"
  shows "fits_bytes (length payload) (number_value payload)"
proof -
  define n where "n = length payload"
  define low where "low = fold (\<lambda>b val. push_bit 8 val OR ucast b) payload (0 :: 64 word)"
  have n: "1 \<le> n" "n \<le> 8"
    using assms by (auto simp: n_def Suc_le_eq)
  have low: "bit low i \<longleftrightarrow> i < 8 * n \<and> i < 64 \<and> bit (rev payload ! (i div 8)) (i mod 8)" for i
    by (auto simp: low_def bit_fold_bytes n_def less_mult_imp_div_less)
  have "hd payload = rev payload ! (n - 1)"
    using assms(1) by (simp add: n_def hd_conv_nth rev_nth)
  moreover have "8 * n - 1 = 7 + 8 * (n - 1)"
    using n by simp
  then have "(8 * n - 1) div 8 = n - 1" "(8 * n - 1) mod 8 = 7"
    by simp_all
  ultimately have top: "bit low (8 * n - 1) = bit (hd payload) 7"
    using n low [of "8 * n - 1"] by auto
  have sign: "hd payload AND 0x80 = 0x80 \<longleftrightarrow> bit (hd payload) 7"
    using sign_bit [of "hd payload" "0x80"] by (simp add: bit_80)
  have "number_value payload = (if hd payload AND 0x80 = 0x80 then pad_sign (8 - n) low else low)"
    using assms(1) by (simp add: number_value_def low_def n_def Let_def)
  then have val: "number_value payload = (if bit low (8 * n - 1) then pad_sign (8 - n) low else low)"
    by (simp only: sign top)
  have "bit (number_value payload) i = bit low (8 * n - 1)" if "8 * n - 1 \<le> i" "i < 64" for i
  proof (cases "i = 8 * n - 1")
    case True
    then show ?thesis
      using that n by (simp add: val bit_pad_sign)
  next
    case False
    then show ?thesis
      using that n low [of i] by (auto simp: val bit_pad_sign)
  qed
  then show ?thesis
    using n unfolding fits_bytes_def n_def by simp
qed

end
