(* ===== verification/Der_Theorems.thy ===== *)
theory Der_Theorems
  imports Der_Canonical
begin

text \<open>
  The properties of the coder of property lists, and an instance of what it relies on: headers of a tag byte and a
  length in one byte, or in four after \<^verbatim>\<open>0x84\<close>, a calendar that knows one day, and Core Foundation's equality as
  equality.
\<close>

unbundle bit_operations_syntax

section \<open>An instance\<close>

definition tag_bytes :: "(8 word \<times> ccder_tag) list" where
  "tag_bytes =
     [(0x05, CCDER_NULL), (0x01, CCDER_BOOLEAN), (0x04, CCDER_OCTET_STRING), (0x70, CCDER_ENTITLEMENTS),
      (0x18, CCDER_GENERALIZED_TIME), (0x17, CCDER_UTC_TIME), (0x30, CCDER_CONSTRUCTED_SEQUENCE),
      (0x12, CCDER_NUMERIC_STRING), (0x0C, CCDER_UTF8_STRING), (0x02, CCDER_INTEGER), (0x31, CCDER_CONSTRUCTED_SET),
      (0xF1, CCDER_CONSTRUCTED_CFSET)]"

definition tag_byte :: "ccder_tag \<Rightarrow> 8 word" where
  "tag_byte tag = (case map_of (map prod.swap tag_bytes) tag of None \<Rightarrow> 0xDF | Some t \<Rightarrow> t)"

definition length_bytes :: "nat \<Rightarrow> bytes" where
  "length_bytes n = (if n < 128 then [of_nat n] else 0x84 # map (\<lambda>k. of_nat (n div 2 ^ (8 * k))) [3, 2, 1, 0])"

fun read_header :: "bytes \<Rightarrow> (8 word \<times> nat \<times> bytes) option" where
  "read_header (t # l # bs) =
     (if unat l < 128 then Some (t, unat l, bs)
      else (case bs of
              b3 # b2 # b1 # b0 # rest \<Rightarrow>
                if l = 0x84 then Some (t, unat b3 * 2 ^ 24 + unat b2 * 2 ^ 16 + unat b1 * 2 ^ 8 + unat b0, rest) else None
            | _ \<Rightarrow> None))"
| "read_header _ = None"

definition room_for :: "bytes \<Rightarrow> nat \<Rightarrow> bytes option" where
  "room_for w room = (if length w \<le> room then Some w else None)"

definition sample_env :: plist_env where
  "sample_env =
     \<lparr>cc_decode_tag = (\<lambda>der. case read_header der of None \<Rightarrow> None | Some (t, _) \<Rightarrow> map_of tag_bytes t),
      cc_decode_tl = (\<lambda>tag der. case read_header der of
        None \<Rightarrow> None | Some (t, n, rest) \<Rightarrow> if t = tag_byte tag \<and> n \<le> length rest then Some (n, rest) else None),
      cc_decode_constructed_tl = (\<lambda>tag der. case read_header der of
        None \<Rightarrow> None | Some (t, n, rest) \<Rightarrow> if t = tag_byte tag \<and> n \<le> length rest then Some (take n rest, drop n rest) else None),
      cc_encode_tl = (\<lambda>tag n room. room_for (tag_byte tag # length_bytes n) room),
      cc_encode_constructed_tl = (\<lambda>tag n room. room_for (tag_byte tag # length_bytes n) room),
      cc_encode_body = room_for,
      cc_sizeof = (\<lambda>tag n. Suc (length (length_bytes n)) + n),
      cal_compose = (\<lambda>year month day hour minute second.
        if (year, month, day, hour, minute, second) = (2001, 1, 1, 0, 0, 0) then Some 0 else None),
      cal_decompose = (\<lambda>t. if t = 0 then Some (2001, 1, 1, 0, 0, 0) else None),
      print_double = (\<lambda>t. ([48], 1)),
      utf8_valid = (\<lambda>s. True),
      cf_equal = (=)\<rparr>"

lemma header_sample: "n < size_limit \<Longrightarrow> header sample_env tag n = tag_byte tag # length_bytes n"
  by (simp add: header_def sample_env_def room_for_def)

lemma four_bytes:
  "b = (a :: nat) * 256 + p \<Longrightarrow> c = b * 256 + q \<Longrightarrow> n = c * 256 + r \<Longrightarrow>
     a * 2 ^ 24 + p * 2 ^ 16 + q * 2 ^ 8 + r = n"
  by simp

lemma read_header_sample:
  assumes "n < size_limit"
  shows "read_header (t # length_bytes n @ rest) = Some (t, n, rest)"
proof (cases "n < 128")
  case True
  then show ?thesis
    by (simp add: length_bytes_def unat_of_nat)
next
  case False
  have byte: "unat (of_nat m :: 8 word) = m mod 256" for m
    by (simp add: unat_of_nat)
  have top: "n div 2 ^ 24 mod 256 = n div 2 ^ 24"
    using assms by (simp add: div_less_iff_less_mult)
  have "n div 2 ^ 16 = n div 2 ^ 24 * 256 + n div 2 ^ 16 mod 256"
    by (simp add: div_mult2_eq [of n "2 ^ 16" 256, simplified])
  moreover have "n div 2 ^ 8 = n div 2 ^ 16 * 256 + n div 2 ^ 8 mod 256"
    by (simp add: div_mult2_eq [of n "2 ^ 8" 256, simplified])
  moreover have "n = n div 2 ^ 8 * 256 + n mod 256"
    by simp
  ultimately have "n div 2 ^ 24 * 2 ^ 24 + n div 2 ^ 16 mod 256 * 2 ^ 16 + n div 2 ^ 8 mod 256 * 2 ^ 8 + n mod 256 = n"
    by (rule four_bytes)
  then show ?thesis
    using False top by (simp add: length_bytes_def byte)
qed

lemma tag_byte_sample: "\<forall>k. tag \<noteq> CCDER_OTHER k \<Longrightarrow> map_of tag_bytes (tag_byte tag) = Some tag"
  by (cases tag) (simp_all add: tag_byte_def tag_bytes_def)

lemma sample_writes: "ccder_writes sample_env"
  unfolding ccder_writes_def by (simp add: header_sample) (simp add: sample_env_def room_for_def)

lemma sample_reads: "ccder_reads sample_env"
  unfolding ccder_reads_def by (simp add: header_sample) (simp add: sample_env_def read_header_sample tag_byte_sample)

lemma read_header_suffix: "read_header der = Some (t, n, rest) \<Longrightarrow> strict_suffix rest der"
  by (auto simp: strict_suffix_def suffix_def split: list.splits if_splits elim!: read_header.elims)

lemma sample_consumes: "ccder_consumes sample_env"
  unfolding ccder_consumes_def
  by (auto simp: sample_env_def split: option.splits prod.splits if_splits dest: read_header_suffix)

definition sample_plist :: plist where
  "sample_plist =
     PL_Dictionary
       [(PL_String [98], PL_Array [PL_Boolean True, PL_Date 0, PL_Null]),
        (PL_String [97], PL_Set [PL_Number (Some 300), PL_Number (Some (- 1)), PL_Data [1, 2]])]"

section \<open>Properties\<close>

lemma create_spec:
  assumes "ccder_writes env" "supported env v" "length (der_spec env v) < size_limit"
  shows "CFPropertyListCreateDERData env v = Some (der_spec env v)"
  using encode_spec(1) [OF assms] by (simp add: encodes_def CFPropertyListCreateDERData_def der_encode_plist_def prepend_exact)

text \<open>C39. The encoder writes what the specification says and nothing else: in every buffer that has room for it a
  supported value is put in front of what stands there, in a buffer that is too small the encoder fails, with
  \<^term>\<open>repair\<close> and without; the size that is computed beforehand is the exact one, so the data that is created is
  filled from its first byte.  In the specification a value is tag, length and body, members are concatenated, those
  of dictionaries and sets in the order of their bytes, and an integer has its bytes from the highest that counts.\<close>

theorem der_encode_refines:
  assumes "ccder_writes env" "supported env v" "length (der_spec env v) < size_limit"
  shows "der_encode_plist_repair env repair v (Some (room, out)) =
      (if length (der_spec env v) \<le> room then Some (room - length (der_spec env v), der_spec env v @ out) else None) \<and>
    der_sizeof_plist env v = length (der_spec env v) \<and>
    CFPropertyListCreateDERData env v = Some (der_spec env v)"
proof -
  have spec: "encodes env v"
    by (rule encode_spec) (use assms in simp_all)
  then show ?thesis
    using create_spec [OF assms] by (simp add: encodes_def) (simp add: prepend_def)
qed

lemma sample_whole: "whole_date sample_env 0"
  by (simp add: whole_date_def sample_env_def validateDateComponents_def days_of_month_def mdays_def)

lemma sample_supported: "supported sample_env sample_plist"
  by (simp add: sample_plist_def sample_whole) (simp add: sample_env_def)

lemma sample_bodies:
  "be_bytes (bytes_when_encoded 300) 300 = [1, 44]" "be_bytes (bytes_when_encoded (- 1)) (- 1) = [0xFF]"
  "date_body sample_env 0 = [50, 48, 48, 49, 48, 49, 48, 49, 48, 48, 48, 48, 48, 48, 90]"
proof -
  show "be_bytes (bytes_when_encoded 300) 300 = [1, 44]" "be_bytes (bytes_when_encoded (- 1)) (- 1) = [0xFF]"
    by code_simp+
  show "date_body sample_env 0 = [50, 48, 48, 49, 48, 49, 48, 49, 48, 48, 48, 48, 48, 48, 90]"
    by (simp add: date_body_def sample_env_def date_digits_def digits2_def)
qed

lemma sample_tlv:
  "length body < 128 \<Longrightarrow> tlv sample_env tag body = tag_byte tag # of_nat (length body) # body"
  by (simp add: tlv_def header_sample length_bytes_def)

definition sample_bytes :: bytes where
  "sample_bytes =
     [0x31, 47,
      0x30, 16, 0x0C, 1, 97, 0xF1, 11, 0x02, 1, 0xFF, 0x02, 2, 1, 44, 0x04, 2, 1, 2,
      0x30, 27, 0x0C, 1, 98, 0x30, 22, 0x01, 1, 1, 0x18, 15, 50, 48, 48, 49, 48, 49, 48, 49, 48, 48, 48, 48, 48, 48, 90, 0x05, 0]"

lemma sample_spec: "der_spec sample_env sample_plist = sample_bytes"
  unfolding sample_plist_def der_spec.simps member_specs.simps entry_specs.simps sample_bodies
  by (simp add: sample_tlv tag_byte_def tag_bytes_def sample_bytes_def)

theorem der_encode_refines_witness:
  "CFPropertyListCreateDERData sample_env sample_plist = Some sample_bytes \<and>
    der_encode_plist_repair sample_env False sample_plist (Some (48, [])) = None"
  using der_encode_refines [OF sample_writes sample_supported, of False 48 "[]"]
  by (simp add: sample_spec) (simp add: sample_bytes_def)

text \<open>C38. What was encoded is decoded again, however the members of its dictionaries and sets were enumerated: the
  decoder gives the value back with them in the order of their encodings, which is a normal form (it encodes to the
  same bytes), and the bound of the recursion need not exceed the size of the data.\<close>

theorem der_roundtrip:
  assumes "ccder_writes env" "ccder_reads env" "supported env v" "members_separate env v"
    "length (der_spec env v) < size_limit"
  shows "\<exists>der. CFPropertyListCreateDERData env v = Some der \<and>
    CFPropertyListCreateWithDERData (length der) env der = Some (Some (normal env v)) \<and>
    CFPropertyListCreateDERData env (normal env v) = Some der"
proof -
  have "reads_all (length (der_spec env v)) env v"
    by (rule decode_spec) (use assms in simp_all)
  then have "der_decode_plist (length (der_spec env v)) env (der_spec env v @ []) = Some (Some (normal env v, []))"
    unfolding reads_all_def reads_def by blast
  then show ?thesis
    using create_spec [OF assms(1,3,5)] create_spec [OF assms(1) supported_normal [OF assms(3)]] der_spec_normal [of env v] assms(5)
    by (simp add: CFPropertyListCreateWithDERData_def)
qed

lemma sample_separate: "members_separate sample_env sample_plist"
  by (simp add: sample_plist_def separate_def) (simp add: sample_env_def)

lemma sample_normal:
  "normal sample_env sample_plist =
     PL_Dictionary
       [(PL_String [97], PL_Set [PL_Number (Some (- 1)), PL_Number (Some 300), PL_Data [1, 2]]),
        (PL_String [98], PL_Array [PL_Boolean True, PL_Date 0, PL_Null])]"
  unfolding sample_plist_def normal.simps list.map fst_conv snd_conv entry_spec_def der_spec.simps member_specs.simps sample_bodies
  by (simp add: by_encoding_def sample_tlv tag_byte_def tag_bytes_def)

theorem der_roundtrip_witness:
  "CFPropertyListCreateWithDERData (length sample_bytes) sample_env sample_bytes =
     Some (Some (PL_Dictionary
       [(PL_String [97], PL_Set [PL_Number (Some (- 1)), PL_Number (Some 300), PL_Data [1, 2]]),
        (PL_String [98], PL_Array [PL_Boolean True, PL_Date 0, PL_Null])]))"
proof -
  have "length (der_spec sample_env sample_plist) < size_limit"
    by (simp add: sample_spec sample_bytes_def)
  then show ?thesis
    using der_roundtrip [OF sample_writes sample_reads sample_supported sample_separate]
      create_spec [OF sample_writes sample_supported] by (simp add: sample_normal sample_spec)
qed

text \<open>C40. On any bytes, whoever made them, the decoder returns within as much recursion as there are bytes, and it never
  goes back: what is left after a value is a part of the region that does not begin where the value began.\<close>

theorem der_decode_returns:
  assumes "ccder_consumes env"
  shows "\<exists>r. der_decode_plist (Suc (length der)) env der = Some r \<and>
    CFPropertyListCreateWithDERData (Suc (length der)) env der \<noteq> None \<and>
    (case r of None \<Rightarrow> True | Some (v, rest) \<Rightarrow> strict_suffix rest der)"
proof -
  have "returns_below (Suc (length der)) (der_decode_plist (Suc (length der)) env)"
    by (rule decode_plist_returns) (rule assms)
  then have "goes_on der (der_decode_plist (Suc (length der)) env der)"
    unfolding returns_below_iff by blast
  then show ?thesis
    by (auto simp: goes_on_def CFPropertyListCreateWithDERData_def split: option.split simp del: der_decode_plist.simps)
qed

theorem der_decode_returns_witness:
  "CFPropertyListCreateWithDERData 10 sample_env [0x30, 7, 0x30, 5, 0x30, 3, 0x02, 1, 7] \<noteq> None"
  using der_decode_returns [OF sample_consumes, of "[0x30, 7, 0x30, 5, 0x30, 3, 0x02, 1, 7]"]
  by (auto simp: eval_nat_numeral simp del: der_decode_plist.simps)

text \<open>An integer is encoded in the fewest bytes: it comes back from them, and no payload of the decoder's range that
  gives it is shorter.\<close>

theorem der_number_shortest:
  "number_value (put_bytes (bytes_when_encoded v) v []) = v \<and> 1 \<le> bytes_when_encoded v \<and> bytes_when_encoded v \<le> 8 \<and>
    (\<forall>payload. payload \<noteq> [] \<and> length payload < bytes_when_encoded v \<longrightarrow> number_value payload \<noteq> v)"
proof (intro conjI allI impI)
  note spec = bytes_when_encoded_spec [of v]
  show "number_value (put_bytes (bytes_when_encoded v) v []) = v"
    using number_value_be_bytes [of "bytes_when_encoded v" v] spec by (simp add: put_bytes_eq)
  show "1 \<le> bytes_when_encoded v" "bytes_when_encoded v \<le> 8"
    using spec by (simp_all add: fits_bytes_def)
  show "number_value payload \<noteq> v" if "payload \<noteq> [] \<and> length payload < bytes_when_encoded v" for payload
    using number_value_fits [of payload] spec that by auto
qed

text \<open>The end of the sequence of a key and its value is not looked at: what stands there behind the value is left for the
  loop over the dictionary, which takes it for the next entry.\<close>

theorem der_key_value_lenient:
  assumes "ccder_reads env" "length (k @ v @ w) < size_limit" "reads f k key" "reads f v value"
  shows "der_decode_key_value env f (tlv env CCDER_CONSTRUCTED_SEQUENCE (k @ v @ w) @ rest) = Some (Some ((key, value), w @ rest))"
proof -
  have "cc_decode_constructed_tl env CCDER_CONSTRUCTED_SEQUENCE (tlv env CCDER_CONSTRUCTED_SEQUENCE (k @ v @ w) @ rest) = Some (k @ v @ w, rest)"
    by (rule reads_tlv(3) [OF assms(1) _ assms(2)]) simp
  then show ?thesis
    using assms(3,4) by (simp add: der_decode_key_value_def reads_def)
qed

end
