(* ===== verification/Spec2Isabelle.thy ===== *)
theory Spec2Isabelle
  imports Auth_Items_Laws Daemon_Laws Held_Laws Right_Laws Return_Laws Server_Laws Commit_Laws Der_Theorems
begin

text \<open>
  A verification development for the Security framework.  Its subject is \<^verbatim>\<open>authd\<close>, the authorization daemon of
  \<^verbatim>\<open>src/OSX/authd/\<close>: the process that decides, for every client of Authorization Services, whether a right such as
  \<^verbatim>\<open>system.privilege.admin\<close> is granted.  Beside it stands the coder of property lists as DER, \<^verbatim>\<open>src/OSX/utilities/der_*.c\<close>,
  in which the keychain stores and exchanges its items.

  \<^bold>\<open>The program.\<close>  A client connects over XPC.  The daemon keeps one process object for each client process, in its audit
  session, with the client's connections and the authorization tokens it holds (\<^verbatim>\<open>server.c\<close>, \<^verbatim>\<open>connection.c\<close>,
  \<^verbatim>\<open>process.c\<close>, \<^verbatim>\<open>session.c\<close>, \<^verbatim>\<open>authtoken.c\<close>).  A request to create a token or to copy rights runs an engine
  (\<^verbatim>\<open>engine.c\<close>) over the requested rights.  For each right it finds a rule in the database (\<^verbatim>\<open>authdb.c\<close>, \<^verbatim>\<open>rule.c\<close>,
  \<^verbatim>\<open>mechanism.c\<close>) and evaluates it: against the credentials of the token and the session (\<^verbatim>\<open>credential.c\<close>), through its
  delegates, or by its mechanisms, which run in agent processes (\<^verbatim>\<open>agent.c\<close>).  Engine, agents and clients exchange
  dictionaries of typed items (\<^verbatim>\<open>authitems.c\<close>).  Other requests read and write rules, hand over tokens, or read the
  context of a token.

  \<^bold>\<open>Theories.\<close>  Definitions have the names of the functions in the sources.

    \<^item> \<^verbatim>\<open>Prelude\<close>: C strings, byte buffers, \<^verbatim>\<open>cf_iterate\<close>, and the lemma collections \<open>heap_simps\<close>, \<open>codec_simps\<close>,
      \<open>flag_simps\<close>.  \<^verbatim>\<open>CF_Set\<close>: sets of Core Foundation with the equality of a class as a parameter, as the locale
      \<open>cf_set\<close>, interpreted for pointers, credentials and tokens.  \<^verbatim>\<open>Environment\<close>: what is asked of the system.
    \<^item> \<^verbatim>\<open>Crc64\<close>: \<^verbatim>\<open>crc.c\<close>, \<^verbatim>\<open>crc.h\<close>; the table is the one that the polynomial generates, and the loop is polynomial division.
    \<^item> \<^verbatim>\<open>Auth_Util\<close>: \<^verbatim>\<open>authutilities.c\<close>; the wire form of item sets is read back.
    \<^item> \<^verbatim>\<open>Auth_Items\<close>, \<^verbatim>\<open>Auth_Items_Laws\<close>: \<^verbatim>\<open>authitems.c\<close> over an explicit store of items, since copies share them.  The
      scalar types are interpretations of the locale \<open>scalar_codec\<close>.  Laws: setters and getters, sharing and deep copies,
      encryption, the XPC form, and the unguarded write of the scalar setters.
    \<^item> \<^verbatim>\<open>Credential\<close>, \<^verbatim>\<open>Session\<close>, \<^verbatim>\<open>Process\<close>, \<^verbatim>\<open>Auth_Token\<close>: the files of these names.  Laws: when credentials are
      equal, what a membership test answers, which credentials a session takes in, what gives a process an identity.
    \<^item> \<^verbatim>\<open>Daemon\<close>, \<^verbatim>\<open>Daemon_Laws\<close>: the maps of \<^verbatim>\<open>server.c\<close>, connections and the links between processes and tokens as
      transitions.  Laws: an invariant of the reachable states, and the two ways in which the code loses an object.
    \<^item> \<^verbatim>\<open>Database\<close>: the tables, rows as dictionaries (the locale \<open>kv_store\<close>), key values, transactions.
      \<^verbatim>\<open>Authdb\<close>, \<^verbatim>\<open>Authdb_Laws\<close>: import of property lists, schema scripts, maintenance, reset.  Laws: the keys hold after
      every maintenance, and no rule that it leaves is broken; what a rule without delegates and a reset do.
    \<^item> \<^verbatim>\<open>Mechanism\<close>, \<^verbatim>\<open>Rule\<close>, \<^verbatim>\<open>Rule_Laws\<close>, \<^verbatim>\<open>Rule_Commit\<close>, \<^verbatim>\<open>Commit_Laws\<close>: \<^verbatim>\<open>mechanism.c\<close> and \<^verbatim>\<open>rule.c\<close>.  Laws: parsing and
      printing, the default rule, fetching with its recursion over delegates, commits that fail, and what a commit of a rule
      with delegates stores.
    \<^item> \<^verbatim>\<open>Engine_State\<close>, \<^verbatim>\<open>Agent\<close>, \<^verbatim>\<open>Engine\<close>, \<^verbatim>\<open>Engine_Authorize\<close>: the machine an authorization runs on, \<^verbatim>\<open>agent.c\<close>, and
      \<^verbatim>\<open>engine.c\<close> in two halves: one rule, and all rights of a request.  \<^verbatim>\<open>Engine_Samples\<close>: states for the witnesses.
      \<^verbatim>\<open>Engine_Laws\<close> (a granted right has a rule that succeeded), \<^verbatim>\<open>Evaluation_Laws\<close> (steps; k of n), \<^verbatim>\<open>Held_Laws\<close> (a
      rule of class user on the credentials that are held), \<^verbatim>\<open>Right_Laws\<close> (the rule of a right; the right that guards a
      change), \<^verbatim>\<open>Return_Laws\<close> (when an evaluation returns, and when it never does).
    \<^item> \<^verbatim>\<open>Server\<close>, \<^verbatim>\<open>Server_Laws\<close>: every request handler and the dispatch of \<^verbatim>\<open>main.c\<close>.  Laws: who may change the
      database, what of a context is told, tokens in their external form, and the keys of the database after any request.
    \<^item> \<^verbatim>\<open>Der_Date\<close> (\<^verbatim>\<open>der_date.c\<close>), \<^verbatim>\<open>Der_Plist\<close> (the other \<^verbatim>\<open>der_*.c\<close> and the comparison of encodings in
      \<^verbatim>\<open>SecCFWrappers.h\<close>): sizes, encoding backwards into a buffer, decoding.  \<^verbatim>\<open>Der_Laws\<close> (bytes of integers, order of
      members), \<^verbatim>\<open>Der_Codec\<close> (the encoding specified by concatenation, and the encoder against it), \<^verbatim>\<open>Der_Roundtrip\<close> (the
      decoder on encodings), \<^verbatim>\<open>Der_Canonical\<close> (normal forms, the decoder on any input, shortest integers), \<^verbatim>\<open>Der_Theorems\<close>
      (an instance of what is relied on, and the properties).

  \<^bold>\<open>Conventions.\<close>  A string is its bytes; a C string ends at its first NUL.  Objects that the code shares by pointers
  (items, credentials, tokens, processes, connections, sessions, agents) are cells of growing lists, and a pointer is an
  index; what is freed is marked.  Where the C code would read through NULL or write past a buffer, the definition goes
  on with a fault flag set, and a law that speaks of success says whether a fault is excluded.  Integers have the width of
  the code; doubles are reals, or words where only their bytes count.  A failure is a value: an \<^verbatim>\<open>OSStatus\<close>, a sum or
  an option.

  \<^bold>\<open>Parameters.\<close>  The record \<open>env\<close> and its extensions \<open>eenv\<close>, \<open>senv\<close> and \<open>menv\<close> hold what is not in these files or is no
  computation: clock, users and groups, audit sessions, code signing, sandbox, random numbers, encryption, the order in
  which a set is enumerated, the replies of agents, LocalAuthentication, the prelogin database, and what is found in memory
  that was never written.  The records \<open>der_env\<close> and \<open>plist_env\<close> hold corecrypto's coder of tags and lengths, the
  calendar, the printing of doubles and the equality of Core Foundation.  They are functions of a state of the outside world, which the operations thread.  What the
  laws assume of them (an enumeration gives each member once; the cipher can be undone; a tag and length are read as they
  were written) is a named hypothesis with a witness.

  \<^bold>\<open>Bounds.\<close>  Loops over lists are recursions on them.  A loop that need not end takes a number of steps and is \<^const>\<open>None\<close>
  when they do not suffice: the loops over tries and mechanisms of the engine, for which \<open>engine_authorize_steps\<close> shows that
  more steps never change a result, \<open>evaluate_rule_returns\<close> that enough of them exist under stated conditions, and
  \<open>evaluate_rule_never_returns\<close> that without these none may be enough.  The recursion over delegates takes the depth of the
  stack; \<open>rule_fetch_terminates\<close> shows that the rank of a rule is enough, \<open>rule_fetch_cycle_faults\<close> that on a cycle no
  depth is.  Maintenance that starts over takes the number of starts.
  The decoder of property lists takes the depth of the recursion; \<open>der_decode_returns\<close> shows that the size of its input is
  enough.  Its round trip is for dates of whole seconds in the years 0 to 9999 and for encodings below four gigabytes.

  \<^bold>\<open>Order of events.\<close>  Handlers run one at a time.  While an engine waits for an agent, the environment says which events
  arrive before the reply (an interruption, the death of an agent).  The transitions of \<^verbatim>\<open>Daemon_Laws\<close> interleave at the
  steps that the code does not protect together: the count of connections and the removal from the map of processes.

  \<^bold>\<open>Not modelled.\<close>  Of authd: logs, audit records, endpoint-security and analytics messages, retain counts other than
  those that decide when a process or token goes, the monitor of audit sessions and the signal handlers, queues other
  than as the order above, the inside of SQLite with its handles, its busy states and corruption found in the middle of a
  statement, a rollback that ends an open selection, the Objective-C files; the transitions of \<^verbatim>\<open>Daemon_Laws\<close> are those of the
  life cycle, without the authorizations.  Of the coder: error objects, assertions, overlapping copies.  Of the
  repository: the keychain and its synchronisation, trust evaluation, secure
  transport, CMS, ASN.1, the legacy C++ libraries and securityd, command line tools and tests; they are other programs,
  most of them in C++, Objective-C or Swift, over Core Foundation, CloudKit, AppleKeyStore and corecrypto.
\<close>

end
